theory Spec2Isabelle
  imports Complex_Main "HOL-Library.Sublist"
begin

section \<open>The training driver of TextSnake (train\_textsnake.py)\<close>

text \<open>
  The driver is a sequential Python script. Its collaborators (the network, the loss, the
  Adam optimizer, the datasets, the float formatter of the runtime) are parameters of the
  model, collected in the record \<open>env\<close>; everything the script itself does (the
  loops, the interval tests, the global step counter, the prints, the appends to the text
  logs, the checkpoints, the scalar pushes, the scheduler step) is a HOL function that
  passes the state explicitly. Loss values are real numbers: the rounding of floating
  point arithmetic is not modelled. Wall-clock time (\<open>batch_time\<close>, \<open>data_time\<close>,
  which the script measures and never reports) is left out. Opening a text log raises
  when its directory does not exist; \<open>torch.save\<close>, which follows the creation of its
  directory, is taken to succeed.
\<close>

subsection \<open>Errors and results\<close>

datatype error =
    ZeroDivisionError
  | UnboundLocalError string
  | AttributeError string
  | FileNotFoundError string
  | RuntimeError string

text \<open>A statement either raises, and the run stops in the state it had reached, or it
  completes in a new state.\<close>

datatype 's result = Raised error 's | Ok 's

definition and_then :: "'s result \<Rightarrow> ('s \<Rightarrow> 's result) \<Rightarrow> 's result" where
  "and_then r f = (case r of Raised e s \<Rightarrow> Raised e s | Ok s \<Rightarrow> f s)"

text \<open>\<open>a % b == 0\<close> on Python integers: it raises when \<open>b\<close> is zero; otherwise
  Python's remainder has the sign of the divisor, as \<open>mod\<close> on \<open>int\<close> has.\<close>

definition mod_is_zero :: "int \<Rightarrow> int \<Rightarrow> bool option" where
  "mod_is_zero a b = (if b = 0 then None else Some (a mod b = 0))"

subsection \<open>Formatting\<close>

text \<open>The decimal digit \<open>d\<close>, for \<open>d < 10\<close>.\<close>

definition digit_char :: "nat \<Rightarrow> char" where
  "digit_char d = ''0123456789'' ! d"

fun show_nat :: "nat \<Rightarrow> string" where
  "show_nat n = (if n < 10 then [digit_char n] else show_nat (n div 10) @ [digit_char (n mod 10)])"

declare show_nat.simps [simp del]

text \<open>\<open>'{}'.format(n)\<close> and \<open>'{:d}'.format(n)\<close> for an integer \<open>n\<close>.\<close>

definition show_int :: "int \<Rightarrow> string" where
  "show_int k = (if k < 0 then CHR ''-'' # show_nat (nat (- k)) else show_nat (nat k))"

text \<open>\<open>os.path.join(a, b)\<close> on a POSIX system.\<close>

definition path_join :: "string \<Rightarrow> string \<Rightarrow> string" where
  "path_join a b =
     (if b \<noteq> [] \<and> hd b = CHR ''/'' then b
      else if a = [] \<or> last a = CHR ''/'' then a @ b
      else a @ ''/'' @ b)"

subsection \<open>The metric accumulator\<close>

text \<open>
  Modelled from the spec: the class \<open>AverageMeter\<close> of \<open>util.misc\<close> is not among the
  sources. The spec gives its contract: \<open>update(value)\<close> adds the value to a running sum
  and increments the count; the average is sum/count, and is undefined when the count
  is 0 (\<open>None\<close> here).
\<close>

record meter =
  meter_sum :: real
  meter_count :: nat

definition AverageMeter :: meter where
  "AverageMeter = \<lparr>meter_sum = 0, meter_count = 0\<rparr>"

definition update :: "meter \<Rightarrow> real \<Rightarrow> meter" where
  "update m v = m\<lparr>meter_sum := meter_sum m + v, meter_count := meter_count m + 1\<rparr>"

definition avg :: "meter \<Rightarrow> real option" where
  "avg m = (if meter_count m = 0 then None else Some (meter_sum m / real (meter_count m)))"

text \<open>A sequence of \<open>update\<close> calls on a fresh accumulator.\<close>

definition updates :: "real list \<Rightarrow> meter" where
  "updates vs = foldl update AverageMeter vs"

subsection \<open>Configuration\<close>

text \<open>
  The fields of \<open>cfg\<close> that the driver reads and that decide what it does. The input
  size, the normalisation statistics, the batch size, the worker count and the device
  flags are handed to the collaborators only and are not modelled.
\<close>

record config =
  dataset :: string
  save_dir :: string
  exp_name :: string
  log_dir :: string
  net :: string
  mgpu :: bool
  viz :: bool
  viz_freq :: int
  display_freq :: int
  viz_save_iter :: int
  log_freq :: int
  save_freq :: int
  start_epoch :: int
  max_epoch :: int
  lr :: real
  resume :: "string option"

subsection \<open>Model, optimizer, scheduler, checkpoint\<close>

text \<open>
  \<open>'p\<close> is a snapshot of the network's parameters (its \<open>state_dict\<close>), \<open>'o\<close> the
  internal state of the optimizer, \<open>'b\<close> a batch. \<open>data_parallel\<close> says that the
  object is the \<open>nn.DataParallel\<close> wrapper: the wrapper has the attribute \<open>module\<close> and
  not the attribute \<open>backbone_name\<close>; the bare network has \<open>backbone_name\<close> and not
  \<open>module\<close>.
\<close>

record 'p model =
  params :: 'p
  training :: bool
  data_parallel :: bool
  backbone :: string

record 'o optimizer =
  opt_lr :: real
  opt_state :: 'o

text \<open>
  The two schedulers that \<open>main\<close> chooses from. \<open>StepLR s g\<close> is the scheduler of the
  torch library with \<open>step_size = s\<close> and \<open>gamma = g\<close>: it multiplies the learning rate
  by \<open>g\<close> every \<open>s\<close> calls of \<open>step\<close>. A scheduler keeps the rate it was built on
  and counts the calls of \<open>step\<close>.
\<close>

datatype sched_kind = FixLR | StepLR nat real

record scheduler =
  kind :: sched_kind
  base_lr :: real
  last_epoch :: nat

text \<open>
  Modelled from the spec: the class \<open>FixLR\<close> of \<open>util.shedule\<close> is not among the
  sources; the spec calls it a no-op/fixed schedule, whose learning rate is constant
  across all epochs, so its rate is the base rate. The rate of \<open>StepLR\<close> is the closed
  form of the torch library. Adam is built on one parameter group, so the list that
  \<open>get_lr\<close> returns has one element, which \<open>get_lr\<close> stands for here.
\<close>

definition get_lr :: "scheduler \<Rightarrow> real" where
  "get_lr sc =
     (case kind sc of
        FixLR \<Rightarrow> base_lr sc
      | StepLR s g \<Rightarrow> base_lr sc * g ^ (last_epoch sc div s))"

text \<open>Building a scheduler on an optimizer reads the optimizer's learning rate as the
  base rate and starts counting at 0.\<close>

definition new_scheduler :: "sched_kind \<Rightarrow> 'o optimizer \<Rightarrow> scheduler" where
  "new_scheduler k opt = \<lparr>kind = k, base_lr = opt_lr opt, last_epoch = 0\<rparr>"

text \<open>\<open>scheduler.step()\<close>: count one more epoch and write the rate of that epoch into
  the optimizer.\<close>

definition sched_step :: "scheduler \<Rightarrow> 'o optimizer \<Rightarrow> scheduler \<times> 'o optimizer" where
  "sched_step sc opt =
     (let sc' = sc\<lparr>last_epoch := last_epoch sc + 1\<rparr>
      in (sc', opt\<lparr>opt_lr := get_lr sc'\<rparr>))"

text \<open>The dictionary that \<open>save_model\<close> hands to \<open>torch.save\<close>.\<close>

record ('p, 'o) checkpoint =
  ck_lr :: real
  ck_epoch :: int
  ck_model :: 'p
  ck_optimizer :: "'o optimizer"

subsection \<open>The world outside the driver\<close>

record loss_terms =
  tr_loss :: real
  tcl_loss :: real
  sin_loss :: real
  cos_loss :: real
  radii_loss :: real

definition total :: "loss_terms \<Rightarrow> real" where
  "total l = tr_loss l + tcl_loss l + sin_loss l + cos_loss l + radii_loss l"

text \<open>One constructor for each \<open>print\<close> statement of the script, with the values it
  formats.\<close>

datatype line =
    Saving_to string
  | Loading_from string
  | Epoch_LR int "real option"
  | Progress nat nat real loss_terms
  | Training_Loss "real option"
  | Validation_progress real loss_terms
  | Validation_Loss "real option"
  | Start_training
  | End_line

text \<open>A call of \<open>logger.write_scalars\<close>.\<close>

record scalars =
  sc_tag :: string
  sc_n_iter :: int
  sc_values :: "(string \<times> real option) list"

text \<open>
  \<open>files\<close> gives, for each path, the strings written to the file so far, oldest first;
  \<open>saved\<close> the checkpoint files, the newest \<open>torch.save\<close> first; \<open>train_step\<close> and
  \<open>global_lr\<close> are the two module-level variables of the script.
\<close>

record ('p, 'o) world =
  console :: "line list"
  files :: "string \<Rightarrow> string list"
  dirs :: "string set"
  saved :: "(string \<times> ('p, 'o) checkpoint) list"
  logged :: "scalars list"
  visualized :: "string list"
  train_step :: nat
  global_lr :: "real option"

definition print :: "line \<Rightarrow> ('p, 'o) world \<Rightarrow> ('p, 'o) world" where
  "print l w = w\<lparr>console := console w @ [l]\<rparr>"

text \<open>\<open>with open(path, "a+") as f: f.write(s)\<close>, for a file \<open>path\<close> in the directory
  \<open>d\<close>: opening raises when the directory does not exist.\<close>

definition append_file ::
  "string \<Rightarrow> string \<Rightarrow> string \<Rightarrow> ('p, 'o) world \<Rightarrow> ('p, 'o) world result" where
  "append_file d path s w =
     (if d \<in> dirs w then Ok (w\<lparr>files := (files w)(path := files w path @ [s])\<rparr>)
      else Raised (FileNotFoundError path) w)"

definition write_scalars ::
  "(string \<times> real option) list \<Rightarrow> string \<Rightarrow> int \<Rightarrow> ('p, 'o) world \<Rightarrow> ('p, 'o) world" where
  "write_scalars vals tg n w =
     w\<lparr>logged := logged w @ [\<lparr>sc_tag = tg, sc_n_iter = n, sc_values = vals\<rparr>]\<rparr>"

definition visualize_network_output :: "string \<Rightarrow> ('p, 'o) world \<Rightarrow> ('p, 'o) world" where
  "visualize_network_output mode w = w\<lparr>visualized := visualized w @ [mode]\<rparr>"

text \<open>A dataset: its number of samples, and the batches its loader yields in the pass
  of a given epoch (the training loader shuffles, so passes differ).\<close>

record 'b dataset_rec =
  ds_len :: nat
  ds_batches :: "int \<Rightarrow> 'b list"

text \<open>
  The collaborators. \<open>forward_loss p tr b\<close> is the forward pass of the network with
  parameters \<open>p\<close> in training mode \<open>tr\<close> on batch \<open>b\<close>, followed by the loss;
  \<open>backward_step r p os b\<close> is \<open>zero_grad\<close>, \<open>backward\<close> and one Adam step at learning
  rate \<open>r\<close>; \<open>fmt4f\<close> is \<open>'{:.4f}'.format\<close> on a float; \<open>now\<close> the formatted start time.
\<close>

record ('b, 'p, 'o) env =
  forward_loss :: "'p \<Rightarrow> bool \<Rightarrow> 'b \<Rightarrow> loss_terms"
  backward_step :: "real \<Rightarrow> 'p \<Rightarrow> 'o \<Rightarrow> 'b \<Rightarrow> 'p \<times> 'o"
  new_textnet :: "string \<Rightarrow> 'p"
  new_adam :: "'p \<Rightarrow> 'o"
  total_text_train :: "'b dataset_rec"
  total_text_val :: "'b dataset_rec"
  synth_text_train :: "'b dataset_rec"
  fmt4f :: "real \<Rightarrow> string"
  now :: string

text \<open>The objects that \<open>train\<close> and \<open>validation\<close> work on, with the world.\<close>

record ('p, 'o) tstate =
  t_model :: "'p model"
  t_optimizer :: "'o optimizer"
  t_scheduler :: scheduler
  t_world :: "('p, 'o) world"

definition on_world ::
  "(('p, 'o) world \<Rightarrow> ('p, 'o) world) \<Rightarrow> ('p, 'o) tstate \<Rightarrow> ('p, 'o) tstate" where
  "on_world f st = st\<lparr>t_world := f (t_world st)\<rparr>"

subsection \<open>Checkpoints: \<open>save_model\<close> and \<open>load_model\<close>\<close>

definition experiment_dir :: "config \<Rightarrow> string" where
  "experiment_dir cfg = path_join (save_dir cfg) (exp_name cfg)"

text \<open>Modelled from the spec: \<open>mkdirs\<close> of \<open>util.misc\<close> is not among the sources; the
  spec says that the directory is created if absent.\<close>

definition mkdirs :: "string \<Rightarrow> ('p, 'o) world \<Rightarrow> ('p, 'o) world" where
  "mkdirs d w = w\<lparr>dirs := insert d (dirs w)\<rparr>"

definition checkpoint_name :: "string \<Rightarrow> int \<Rightarrow> string \<Rightarrow> string" where
  "checkpoint_name bb epoch label =
     ''textsnake_'' @ bb @ ''_'' @ show_int epoch @ ''_'' @ label @ ''.pth''"

text \<open>
  \<open>save_model(model, epoch, lr, optimzer, _iter)\<close>, with \<open>label\<close> the formatted
  \<open>_iter\<close>. Reading \<open>model.backbone_name\<close> raises on the wrapper, and
  \<open>model.module\<close> raises on the bare network.
\<close>

definition save_model ::
  "config \<Rightarrow> 'p model \<Rightarrow> int \<Rightarrow> real \<Rightarrow> 'o optimizer \<Rightarrow> string \<Rightarrow>
   ('p, 'o) world \<Rightarrow> ('p, 'o) world result" where
  "save_model cfg m epoch r opt label w =
     (let d = experiment_dir cfg;
          w1 = (if d \<in> dirs w then w else mkdirs d w)
      in if data_parallel m then Raised (AttributeError ''backbone_name'') w1
         else
           let save_path = path_join d (checkpoint_name (backbone m) epoch label);
               w2 = print (Saving_to save_path) w1
           in if mgpu cfg then Raised (AttributeError ''module'') w2
              else Ok (w2\<lparr>saved :=
                     (save_path,
                      \<lparr>ck_lr = r, ck_epoch = epoch, ck_model = params m, ck_optimizer = opt\<rparr>)
                     # saved w2\<rparr>))"

text \<open>
  \<open>load_model(model, model_path)\<close>: \<open>torch.load\<close> raises when there is no such file;
  the loaded dictionary's \<open>'model'\<close> entry is written into the live model. A saved
  model state is that of the bare network (\<open>save_model\<close> never saves the wrapper's), so
  on the \<open>nn.DataParallel\<close> wrapper, whose keys carry the prefix \<open>module.\<close>,
  \<open>load_state_dict\<close> finds no key of its own, copies nothing and raises. The function
  returns nothing; the result here is the model object after the call, with the world.
\<close>

definition load_model ::
  "'p model \<Rightarrow> string \<Rightarrow> ('p, 'o) world \<Rightarrow> ('p model \<times> ('p, 'o) world) result" where
  "load_model m model_path w =
     (let w1 = print (Loading_from model_path) w
      in case map_of (saved w1) model_path of
           None \<Rightarrow> Raised (FileNotFoundError model_path) (m, w1)
         | Some state_dict \<Rightarrow>
             if data_parallel m then Raised (RuntimeError ''load_state_dict'') (m, w1)
             else Ok (m\<lparr>params := ck_model state_dict\<rparr>, w1))"

subsection \<open>The per-term text logs\<close>

text \<open>\<open>'{}_{:d}_{:.4f}\n'.format(epoch, i, v)\<close> and
  \<open>'{}_validation_{:.4f}\n'.format(epoch, v)\<close>, with \<open>mid\<close> the middle field.\<close>

definition log_record :: "('b, 'p, 'o) env \<Rightarrow> int \<Rightarrow> string \<Rightarrow> real \<Rightarrow> string" where
  "log_record env epoch mid v =
     show_int epoch @ ''_'' @ mid @ ''_'' @ fmt4f env v @ [CHR 0x0A]"

text \<open>The six files, in the order in which the script writes them, each with the value
  it receives.\<close>

definition log_values :: "loss_terms \<Rightarrow> (string \<times> real) list" where
  "log_values l =
     [(''tr_loss_result.txt'', tr_loss l),
      (''tcl_loss_result.txt'', tcl_loss l),
      (''sin_result.txt'', sin_loss l),
      (''cos_result.txt'', cos_loss l),
      (''radii_result.txt'', radii_loss l),
      (''loss_result.txt'', total l)]"

definition log_path :: "config \<Rightarrow> string \<Rightarrow> string" where
  "log_path cfg name = experiment_dir cfg @ ''/'' @ name"

text \<open>The six \<open>with open(...) as f: f.write(...)\<close> statements, one after the other; the
  first that raises ends them.\<close>

fun write_records ::
  "string \<Rightarrow> (string \<times> string) list \<Rightarrow> ('p, 'o) world \<Rightarrow> ('p, 'o) world result" where
  "write_records d [] w = Ok w"
| "write_records d (pr # prs) w =
     (case append_file d (fst pr) (snd pr) w of
        Raised e w' \<Rightarrow> Raised e w'
      | Ok w' \<Rightarrow> write_records d prs w')"

definition write_logs ::
  "('b, 'p, 'o) env \<Rightarrow> config \<Rightarrow> int \<Rightarrow> string \<Rightarrow> loss_terms \<Rightarrow>
   ('p, 'o) world \<Rightarrow> ('p, 'o) world result" where
  "write_logs env cfg epoch mid l w =
     write_records (experiment_dir cfg)
       (map (\<lambda>nv. (log_path cfg (fst nv), log_record env epoch mid (snd nv))) (log_values l)) w"

definition scalar_values :: "real option \<Rightarrow> real option \<Rightarrow> real option \<Rightarrow> real option \<Rightarrow>
    real option \<Rightarrow> real option \<Rightarrow> (string \<times> real option) list" where
  "scalar_values a b c d e f =
     [(''loss'', a), (''tr_loss'', b), (''tcl_loss'', c), (''sin_loss'', d),
      (''cos_loss'', e), (''radii_loss'', f)]"

subsection \<open>The training loop: \<open>train\<close>\<close>

text \<open>\<open>if cfg.viz and i % cfg.viz_freq == 0: visualize_network_output(..., mode=mode)\<close>\<close>

definition maybe_visualize ::
  "config \<Rightarrow> nat \<Rightarrow> string \<Rightarrow> ('p, 'o) tstate \<Rightarrow> ('p, 'o) tstate result" where
  "maybe_visualize cfg i mode st =
     (if viz cfg then
        (case mod_is_zero (int i) (viz_freq cfg) of
           None \<Rightarrow> Raised ZeroDivisionError st
         | Some True \<Rightarrow> Ok (on_world (visualize_network_output mode) st)
         | Some False \<Rightarrow> Ok st)
      else Ok st)"

text \<open>A statement on the world alone, run in the state of the loop.\<close>

definition in_world ::
  "(('p, 'o) world \<Rightarrow> ('p, 'o) world result) \<Rightarrow> ('p, 'o) tstate \<Rightarrow> ('p, 'o) tstate result" where
  "in_world f st =
     (case f (t_world st) of
        Raised e w \<Rightarrow> Raised e (st\<lparr>t_world := w\<rparr>)
      | Ok w \<Rightarrow> Ok (st\<lparr>t_world := w\<rparr>))"

text \<open>\<open>if i % cfg.display_freq == 0:\<close> the progress line and one record in each of
  the six files.\<close>

definition train_display ::
  "('b, 'p, 'o) env \<Rightarrow> config \<Rightarrow> int \<Rightarrow> nat \<Rightarrow> nat \<Rightarrow> loss_terms \<Rightarrow>
   ('p, 'o) tstate \<Rightarrow> ('p, 'o) tstate result" where
  "train_display env cfg epoch n i l st =
     (case mod_is_zero (int i) (display_freq cfg) of
        None \<Rightarrow> Raised ZeroDivisionError st
      | Some True \<Rightarrow>
          in_world (\<lambda>w. write_logs env cfg epoch (show_nat i) l
                            (print (Progress i n (total l) l) w)) st
      | Some False \<Rightarrow> Ok st)"

definition save_state ::
  "config \<Rightarrow> int \<Rightarrow> string \<Rightarrow> ('p, 'o) tstate \<Rightarrow> ('p, 'o) tstate result" where
  "save_state cfg epoch label st =
     (case save_model cfg (t_model st) epoch (get_lr (t_scheduler st)) (t_optimizer st) label
             (t_world st) of
        Raised e w \<Rightarrow> Raised e (st\<lparr>t_world := w\<rparr>)
      | Ok w \<Rightarrow> Ok (st\<lparr>t_world := w\<rparr>))"

text \<open>\<open>if i % cfg.viz_save_iter == 0: save_model(model, epoch, scheduler.get_lr(), optimizer, i)\<close>\<close>

definition train_save ::
  "config \<Rightarrow> int \<Rightarrow> nat \<Rightarrow> ('p, 'o) tstate \<Rightarrow> ('p, 'o) tstate result" where
  "train_save cfg epoch i st =
     (case mod_is_zero (int i) (viz_save_iter cfg) of
        None \<Rightarrow> Raised ZeroDivisionError st
      | Some True \<Rightarrow> save_state cfg epoch (show_nat i) st
      | Some False \<Rightarrow> Ok st)"

text \<open>\<open>if i % cfg.log_freq == 0: logger.write_scalars({...}, tag='train', n_iter=train_step)\<close>\<close>

definition train_log ::
  "config \<Rightarrow> nat \<Rightarrow> loss_terms \<Rightarrow> ('p, 'o) tstate \<Rightarrow> ('p, 'o) tstate result" where
  "train_log cfg i l st =
     (case mod_is_zero (int i) (log_freq cfg) of
        None \<Rightarrow> Raised ZeroDivisionError st
      | Some True \<Rightarrow>
          Ok (on_world (\<lambda>w. write_scalars
                (scalar_values (Some (total l)) (Some (tr_loss l)) (Some (tcl_loss l))
                   (Some (sin_loss l)) (Some (cos_loss l)) (Some (radii_loss l)))
                ''train'' (int (train_step w)) w) st)
      | Some False \<Rightarrow> Ok st)"

text \<open>\<open>train_step += 1\<close>\<close>

definition count_step :: "('p, 'o) world \<Rightarrow> ('p, 'o) world" where
  "count_step w = w\<lparr>train_step := train_step w + 1\<rparr>"

text \<open>\<open>output = model(img)\<close>, the five loss terms of \<open>criterion\<close>, and their sum
  (\<open>total\<close>).\<close>

definition loss_of :: "('b, 'p, 'o) env \<Rightarrow> 'b \<Rightarrow> ('p, 'o) tstate \<Rightarrow> loss_terms" where
  "loss_of env b st = forward_loss env (params (t_model st)) (training (t_model st)) b"

text \<open>\<open>optimizer.zero_grad(); loss.backward(); optimizer.step()\<close>\<close>

definition optimise :: "('b, 'p, 'o) env \<Rightarrow> 'b \<Rightarrow> ('p, 'o) tstate \<Rightarrow> ('p, 'o) tstate" where
  "optimise env b st =
     (let m = t_model st;
          opt = t_optimizer st;
          upd = backward_step env (opt_lr opt) (params m) (opt_state opt) b
      in st\<lparr>t_model := m\<lparr>params := fst upd\<rparr>, t_optimizer := opt\<lparr>opt_state := snd upd\<rparr>\<rparr>)"

text \<open>The four interval actions of an iteration, in the order of the script.\<close>

definition train_actions ::
  "('b, 'p, 'o) env \<Rightarrow> config \<Rightarrow> int \<Rightarrow> nat \<Rightarrow> nat \<Rightarrow> loss_terms \<Rightarrow>
   ('p, 'o) tstate \<Rightarrow> ('p, 'o) tstate result" where
  "train_actions env cfg epoch n i l st =
     and_then (and_then (and_then
       (maybe_visualize cfg i ''train'' st)
       (train_display env cfg epoch n i l))
       (train_save cfg epoch i))
       (train_log cfg i l)"

text \<open>
  The body of the loop for batch \<open>b\<close> at index \<open>i\<close> of \<open>n\<close>: count the step, forward
  pass and loss, backward pass and optimizer step, update the running loss, then the
  interval actions. \<open>fst ls\<close> is the local accumulator \<open>losses\<close>.
\<close>

definition train_body ::
  "('b, 'p, 'o) env \<Rightarrow> config \<Rightarrow> int \<Rightarrow> nat \<Rightarrow> nat \<Rightarrow> 'b \<Rightarrow>
   meter \<times> ('p, 'o) tstate \<Rightarrow> (meter \<times> ('p, 'o) tstate) result" where
  "train_body env cfg epoch n i b ls =
     (let st1 = on_world count_step (snd ls);
          l = loss_of env b st1;
          st2 = optimise env b st1;
          losses' = update (fst ls) (total l)
      in case train_actions env cfg epoch n i l st2 of
           Raised e st \<Rightarrow> Raised e (losses', st)
         | Ok st \<Rightarrow> Ok (losses', st))"

text \<open>\<open>for i, batch in enumerate(train_loader)\<close>, from index \<open>i\<close> on.\<close>

fun train_batches ::
  "('b, 'p, 'o) env \<Rightarrow> config \<Rightarrow> int \<Rightarrow> nat \<Rightarrow> nat \<Rightarrow> 'b list \<Rightarrow>
   meter \<times> ('p, 'o) tstate \<Rightarrow> (meter \<times> ('p, 'o) tstate) result" where
  "train_batches env cfg epoch n i [] ls = Ok ls"
| "train_batches env cfg epoch n i (b # bs) ls =
     (case train_body env cfg epoch n i b ls of
        Raised e ls' \<Rightarrow> Raised e ls'
      | Ok ls' \<Rightarrow> train_batches env cfg epoch n (Suc i) bs ls')"

text \<open>\<open>if epoch % cfg.save_freq == 0: save_model(model, epoch, scheduler.get_lr(), optimizer, "end")\<close>\<close>

definition epoch_end_save ::
  "config \<Rightarrow> int \<Rightarrow> ('p, 'o) tstate \<Rightarrow> ('p, 'o) tstate result" where
  "epoch_end_save cfg epoch st =
     (case mod_is_zero epoch (save_freq cfg) of
        None \<Rightarrow> Raised ZeroDivisionError st
      | Some True \<Rightarrow> save_state cfg epoch ''end'' st
      | Some False \<Rightarrow> Ok st)"

text \<open>The last two statements of \<open>train\<close>: print the mean loss, step the scheduler.\<close>

definition epoch_finish :: "meter \<Rightarrow> ('p, 'o) tstate \<Rightarrow> ('p, 'o) tstate" where
  "epoch_finish losses st =
     (let st1 = on_world (print (Training_Loss (avg losses))) st;
          so = sched_step (t_scheduler st1) (t_optimizer st1)
      in st1\<lparr>t_scheduler := fst so, t_optimizer := snd so\<rparr>)"

text \<open>\<open>model.train()\<close> and the first print, which shows the module-level \<open>lr\<close>.\<close>

definition epoch_start :: "int \<Rightarrow> ('p, 'o) tstate \<Rightarrow> ('p, 'o) tstate" where
  "epoch_start epoch st =
     on_world (\<lambda>w. print (Epoch_LR epoch (global_lr w)) w)
       (st\<lparr>t_model := (t_model st)\<lparr>training := True\<rparr>\<rparr>)"

definition train ::
  "('b, 'p, 'o) env \<Rightarrow> config \<Rightarrow> (int \<Rightarrow> 'b list) \<Rightarrow> int \<Rightarrow>
   ('p, 'o) tstate \<Rightarrow> ('p, 'o) tstate result" where
  "train env cfg train_loader epoch st =
     (let batches = train_loader epoch
      in case train_batches env cfg epoch (length batches) 0 batches
                (AverageMeter, epoch_start epoch st) of
           Raised e ls \<Rightarrow> Raised e (snd ls)
         | Ok ls \<Rightarrow>
             (case epoch_end_save cfg epoch (snd ls) of
                Raised e st' \<Rightarrow> Raised e st'
              | Ok st' \<Rightarrow> Ok (epoch_finish (fst ls) st')))"

subsection \<open>The validation loop: \<open>validation\<close>\<close>

record vmeters =
  v_losses :: meter
  v_tr_losses :: meter
  v_tcl_losses :: meter
  v_sin_losses :: meter
  v_cos_losses :: meter
  v_radii_losses :: meter

definition new_vmeters :: vmeters where
  "new_vmeters =
     \<lparr>v_losses = AverageMeter, v_tr_losses = AverageMeter, v_tcl_losses = AverageMeter,
      v_sin_losses = AverageMeter, v_cos_losses = AverageMeter,
      v_radii_losses = AverageMeter\<rparr>"

definition update_vmeters :: "vmeters \<Rightarrow> loss_terms \<Rightarrow> vmeters" where
  "update_vmeters ms l =
     \<lparr>v_losses = update (v_losses ms) (total l),
      v_tr_losses = update (v_tr_losses ms) (tr_loss l),
      v_tcl_losses = update (v_tcl_losses ms) (tcl_loss l),
      v_sin_losses = update (v_sin_losses ms) (sin_loss l),
      v_cos_losses = update (v_cos_losses ms) (cos_loss l),
      v_radii_losses = update (v_radii_losses ms) (radii_loss l)\<rparr>"

definition validation_display ::
  "('b, 'p, 'o) env \<Rightarrow> config \<Rightarrow> int \<Rightarrow> nat \<Rightarrow> loss_terms \<Rightarrow>
   ('p, 'o) tstate \<Rightarrow> ('p, 'o) tstate result" where
  "validation_display env cfg epoch i l st =
     (case mod_is_zero (int i) (display_freq cfg) of
        None \<Rightarrow> Raised ZeroDivisionError st
      | Some True \<Rightarrow>
          in_world (\<lambda>w. write_logs env cfg epoch ''validation'' l
                            (print (Validation_progress (total l) l) w)) st
      | Some False \<Rightarrow> Ok st)"

definition validation_actions ::
  "('b, 'p, 'o) env \<Rightarrow> config \<Rightarrow> int \<Rightarrow> nat \<Rightarrow> loss_terms \<Rightarrow>
   ('p, 'o) tstate \<Rightarrow> ('p, 'o) tstate result" where
  "validation_actions env cfg epoch i l st =
     and_then (maybe_visualize cfg i ''val'' st) (validation_display env cfg epoch i l)"

text \<open>The body of the validation loop: forward pass and loss, the six accumulators,
  the interval actions.\<close>

definition validation_body ::
  "('b, 'p, 'o) env \<Rightarrow> config \<Rightarrow> int \<Rightarrow> nat \<Rightarrow> 'b \<Rightarrow>
   vmeters \<times> ('p, 'o) tstate \<Rightarrow> (vmeters \<times> ('p, 'o) tstate) result" where
  "validation_body env cfg epoch i b ms =
     (let l = loss_of env b (snd ms);
          meters' = update_vmeters (fst ms) l
      in case validation_actions env cfg epoch i l (snd ms) of
           Raised e st \<Rightarrow> Raised e (meters', st)
         | Ok st \<Rightarrow> Ok (meters', st))"

fun validation_batches ::
  "('b, 'p, 'o) env \<Rightarrow> config \<Rightarrow> int \<Rightarrow> nat \<Rightarrow> 'b list \<Rightarrow>
   vmeters \<times> ('p, 'o) tstate \<Rightarrow> (vmeters \<times> ('p, 'o) tstate) result" where
  "validation_batches env cfg epoch i [] ms = Ok ms"
| "validation_batches env cfg epoch i (b # bs) ms =
     (case validation_body env cfg epoch i b ms of
        Raised e ms' \<Rightarrow> Raised e ms'
      | Ok ms' \<Rightarrow> validation_batches env cfg epoch (Suc i) bs ms')"

text \<open>After the loop: the six averages go to the logger tagged \<open>'val'\<close> with the epoch
  as step, and the mean loss is printed.\<close>

definition validation_finish ::
  "int \<Rightarrow> vmeters \<Rightarrow> ('p, 'o) tstate \<Rightarrow> ('p, 'o) tstate" where
  "validation_finish epoch ms st =
     on_world (\<lambda>w. print (Validation_Loss (avg (v_losses ms)))
        (write_scalars
           (scalar_values (avg (v_losses ms)) (avg (v_tr_losses ms)) (avg (v_tcl_losses ms))
              (avg (v_sin_losses ms)) (avg (v_cos_losses ms)) (avg (v_radii_losses ms)))
           ''val'' epoch w)) st"

definition validation ::
  "('b, 'p, 'o) env \<Rightarrow> config \<Rightarrow> (int \<Rightarrow> 'b list) \<Rightarrow> int \<Rightarrow>
   ('p, 'o) tstate \<Rightarrow> ('p, 'o) tstate result" where
  "validation env cfg valid_loader epoch st =
     (case validation_batches env cfg epoch 0 (valid_loader epoch)
             (new_vmeters, st\<lparr>t_model := (t_model st)\<lparr>training := False\<rparr>\<rparr>) of
        Raised e ms \<Rightarrow> Raised e (snd ms)
      | Ok ms \<Rightarrow> Ok (validation_finish epoch (fst ms) (snd ms)))"

subsection \<open>The orchestrator: \<open>main\<close>\<close>

text \<open>
  The local variables of \<open>main\<close>. A local is \<open>None\<close> until an assignment binds it, and
  reading it unbound raises. \<open>valset\<close> can be bound to Python's \<open>None\<close>, so it has two
  layers of \<open>option\<close>.
\<close>

record ('b, 'p, 'o) locals =
  l_trainset :: "'b dataset_rec option"
  l_valset :: "'b dataset_rec option option"
  l_train_loader :: "(int \<Rightarrow> 'b list) option"
  l_val_loader :: "(int \<Rightarrow> 'b list) option"
  l_logger :: "string option"
  l_model :: "'p model option"
  l_criterion :: "unit option"
  l_optimizer :: "'o optimizer option"
  l_scheduler :: "scheduler option"

definition unbound :: "('b, 'p, 'o) locals" where
  "unbound =
     \<lparr>l_trainset = None, l_valset = None, l_train_loader = None, l_val_loader = None,
      l_logger = None, l_model = None, l_criterion = None, l_optimizer = None,
      l_scheduler = None\<rparr>"

text \<open>The \<open>if\<close>/\<open>elif\<close>/\<open>else: pass\<close> on \<open>cfg.dataset\<close>.\<close>

definition select_dataset ::
  "('b, 'p, 'o) env \<Rightarrow> config \<Rightarrow> ('b, 'p, 'o) locals \<Rightarrow> ('b, 'p, 'o) locals" where
  "select_dataset env cfg L =
     (if dataset cfg = ''total-text'' then
        L\<lparr>l_trainset := Some (total_text_train env),
          l_valset := Some (Some (total_text_val env))\<rparr>
      else if dataset cfg = ''synth-text'' then
        L\<lparr>l_trainset := Some (synth_text_train env), l_valset := Some None\<rparr>
      else L)"

text \<open>\<open>if valset:\<close> a dataset object is true when its length is not 0, and \<open>None\<close> is
  false.\<close>

definition truthy :: "'b dataset_rec option \<Rightarrow> bool" where
  "truthy v = (case v of None \<Rightarrow> False | Some d \<Rightarrow> ds_len d \<noteq> 0)"

text \<open>\<open>if cfg.resume:\<close> a path is true when it is a non-empty string.\<close>

definition resume_path :: "config \<Rightarrow> string option" where
  "resume_path cfg = (case resume cfg of None \<Rightarrow> None | Some p \<Rightarrow> if p = [] then None else Some p)"

text \<open>\<open>range(a, b)\<close>\<close>

definition py_range :: "int \<Rightarrow> int \<Rightarrow> int list" where
  "py_range a b = map (\<lambda>k. a + int k) [0..<nat (b - a)]"

text \<open>
  \<open>for epoch in ...: train(...); if valset: validation(...)\<close> over the epochs \<open>es\<close>.
\<close>

fun epoch_loop ::
  "('b, 'p, 'o) env \<Rightarrow> config \<Rightarrow> (int \<Rightarrow> 'b list) \<Rightarrow> 'b dataset_rec option \<Rightarrow>
   (int \<Rightarrow> 'b list) option \<Rightarrow> int list \<Rightarrow> ('p, 'o) tstate \<Rightarrow> ('p, 'o) tstate result" where
  "epoch_loop env cfg train_loader valset val_loader [] st = Ok st"
| "epoch_loop env cfg train_loader valset val_loader (epoch # es) st =
     (case train env cfg train_loader epoch st of
        Raised e st' \<Rightarrow> Raised e st'
      | Ok st1 \<Rightarrow>
          (case (if truthy valset then
                   (case val_loader of
                      None \<Rightarrow> Raised (UnboundLocalError ''val_loader'') st1
                    | Some vl \<Rightarrow> validation env cfg vl epoch st1)
                 else Ok st1) of
             Raised e st' \<Rightarrow> Raised e st'
           | Ok st2 \<Rightarrow> epoch_loop env cfg train_loader valset val_loader es st2))"

text \<open>The scheduler that \<open>main\<close> builds.\<close>

definition choose_scheduler :: "config \<Rightarrow> 'o optimizer \<Rightarrow> scheduler" where
  "choose_scheduler cfg opt =
     (if dataset cfg = ''synth-text'' then new_scheduler FixLR opt
      else new_scheduler (StepLR 100 (1 / 10)) opt)"

text \<open>The objects of the run, written back into the locals that name them.\<close>

definition bind_objects ::
  "('p, 'o) tstate \<Rightarrow> ('b, 'p, 'o) locals \<Rightarrow> ('b, 'p, 'o) locals" where
  "bind_objects st L =
     L\<lparr>l_model := Some (t_model st), l_optimizer := Some (t_optimizer st),
       l_scheduler := Some (t_scheduler st)\<rparr>"

text \<open>From \<open>criterion = TextLoss()\<close> to the end of \<open>main\<close>.\<close>

definition main_training ::
  "('b, 'p, 'o) env \<Rightarrow> config \<Rightarrow> (int \<Rightarrow> 'b list) \<Rightarrow> 'p model \<Rightarrow>
   ('b, 'p, 'o) locals \<times> ('p, 'o) world \<Rightarrow> (('b, 'p, 'o) locals \<times> ('p, 'o) world) result" where
  "main_training env cfg train_loader m Lw =
     (let w1 = (snd Lw)\<lparr>global_lr := Some (lr cfg)\<rparr>;
          opt = \<lparr>opt_lr = lr cfg, opt_state = new_adam env (params m)\<rparr>;
          sch = choose_scheduler cfg opt;
          L = (fst Lw)\<lparr>l_criterion := Some (), l_optimizer := Some opt, l_scheduler := Some sch\<rparr>
      in case epoch_loop env cfg train_loader (case l_valset L of None \<Rightarrow> None | Some v \<Rightarrow> v)
                (l_val_loader L) (py_range (start_epoch cfg) (max_epoch cfg))
                \<lparr>t_model = m, t_optimizer = opt, t_scheduler = sch,
                 t_world = print Start_training w1\<rparr> of
           Raised e st \<Rightarrow> Raised e (bind_objects st L, t_world st)
         | Ok st \<Rightarrow> Ok (bind_objects st L, print End_line (t_world st)))"

text \<open>From \<open>log_dir = ...\<close> to \<open>load_model(model, cfg.resume)\<close>, then the rest.\<close>

definition main_model ::
  "('b, 'p, 'o) env \<Rightarrow> config \<Rightarrow> (int \<Rightarrow> 'b list) \<Rightarrow>
   ('b, 'p, 'o) locals \<times> ('p, 'o) world \<Rightarrow> (('b, 'p, 'o) locals \<times> ('p, 'o) world) result" where
  "main_model env cfg train_loader Lw =
     (let L1 = (fst Lw)\<lparr>l_logger := Some (path_join (log_dir cfg) (now env @ exp_name cfg))\<rparr>;
          m = \<lparr>params = new_textnet env (net cfg), training = True,
               data_parallel = mgpu cfg, backbone = net cfg\<rparr>;
          L2 = L1\<lparr>l_model := Some m\<rparr>
      in case resume_path cfg of
           None \<Rightarrow> main_training env cfg train_loader m (L2, snd Lw)
         | Some p \<Rightarrow>
             (case load_model m p (snd Lw) of
                Raised e mw \<Rightarrow> Raised e (L2\<lparr>l_model := Some (fst mw)\<rparr>, snd mw)
              | Ok mw \<Rightarrow>
                  main_training env cfg train_loader (fst mw)
                    (L2\<lparr>l_model := Some (fst mw)\<rparr>, snd mw)))"

definition main ::
  "('b, 'p, 'o) env \<Rightarrow> config \<Rightarrow> ('p, 'o) world \<Rightarrow>
   (('b, 'p, 'o) locals \<times> ('p, 'o) world) result" where
  "main env cfg w =
     (let L = select_dataset env cfg unbound
      in case l_trainset L of
           None \<Rightarrow> Raised (UnboundLocalError ''trainset'') (L, w)
         | Some trainset \<Rightarrow>
             (let L1 = L\<lparr>l_train_loader := Some (ds_batches trainset)\<rparr>
              in case l_valset L1 of
                   None \<Rightarrow> Raised (UnboundLocalError ''valset'') (L1, w)
                 | Some valset \<Rightarrow>
                     main_model env cfg (ds_batches trainset)
                       (if truthy valset
                        then L1\<lparr>l_val_loader := map_option ds_batches valset\<rparr>
                        else L1\<lparr>l_valset := Some None\<rparr>, w)))"

text \<open>The world when the script starts: the module-level \<open>lr = None\<close> and
  \<open>train_step = 0\<close>, nothing printed or logged yet, and the files found on disk.\<close>

definition script_start ::
  "(string \<Rightarrow> string list) \<Rightarrow> string set \<Rightarrow> (string \<times> ('p, 'o) checkpoint) list \<Rightarrow>
   ('p, 'o) world" where
  "script_start fs ds cks =
     \<lparr>console = [], files = fs, dirs = ds, saved = cks, logged = [], visualized = [],
      train_step = 0, global_lr = None\<rparr>"

subsection \<open>Observations used in the statements\<close>

text \<open>The state in which a call ended, whether it raised or returned.\<close>

definition reached :: "'s result \<Rightarrow> 's" where
  "reached r = (case r of Raised e s \<Rightarrow> s | Ok s \<Rightarrow> s)"

text \<open>Whether a call returned.\<close>

definition returned :: "'s result \<Rightarrow> bool" where
  "returned r = (case r of Raised e s \<Rightarrow> False | Ok s \<Rightarrow> True)"

text \<open>The iteration indices of the progress lines among some printed lines.\<close>

definition progress_iters :: "line list \<Rightarrow> nat list" where
  "progress_iters ls = concat (map (\<lambda>l. case l of Progress i n t x \<Rightarrow> [i] | _ \<Rightarrow> []) ls)"

text \<open>The validation lines among some printed lines.\<close>

definition validation_lines :: "line list \<Rightarrow> line list" where
  "validation_lines ls =
     filter (\<lambda>l. case l of Validation_progress t x \<Rightarrow> True | Validation_Loss a \<Rightarrow> True
                 | _ \<Rightarrow> False) ls"

text \<open>The steps of the scalar pushes with a given tag, in the order of the calls.\<close>

definition steps_tagged :: "string \<Rightarrow> scalars list \<Rightarrow> int list" where
  "steps_tagged tg ss = map sc_n_iter (filter (\<lambda>s. sc_tag s = tg) ss)"

text \<open>The checkpoint files whose name carries the tag \<open>end\<close>, newest first, each as
  the epoch stored in it.\<close>

definition end_tagged :: "(string \<times> ('p, 'o) checkpoint) list \<Rightarrow> int list" where
  "end_tagged cks = map (\<lambda>pc. ck_epoch (snd pc)) (filter (\<lambda>pc. suffix ''_end.pth'' (fst pc)) cks)"

text \<open>The path of a checkpoint, and the world after a \<open>save_model\<close> that returned.\<close>

definition save_path_of :: "config \<Rightarrow> 'p model \<Rightarrow> int \<Rightarrow> string \<Rightarrow> string" where
  "save_path_of cfg m epoch label =
     path_join (experiment_dir cfg) (checkpoint_name (backbone m) epoch label)"

definition saved_world ::
  "config \<Rightarrow> int \<Rightarrow> string \<Rightarrow> ('p, 'o) tstate \<Rightarrow> ('p, 'o) world" where
  "saved_world cfg epoch label st =
     (let w = t_world st; p = save_path_of cfg (t_model st) epoch label
      in w\<lparr>console := console w @ [Saving_to p],
           dirs := insert (experiment_dir cfg) (dirs w),
           saved := (p, \<lparr>ck_lr = get_lr (t_scheduler st), ck_epoch = epoch,
                        ck_model = params (t_model st), ck_optimizer = t_optimizer st\<rparr>)
                    # saved w\<rparr>)"

text \<open>The world after an append that did not raise, and after the six appends of a
  display that did not raise.\<close>

definition appended :: "string \<Rightarrow> string \<Rightarrow> ('p, 'o) world \<Rightarrow> ('p, 'o) world" where
  "appended path s w = w\<lparr>files := (files w)(path := files w path @ [s])\<rparr>"

definition wrote_logs ::
  "('b, 'p, 'o) env \<Rightarrow> config \<Rightarrow> int \<Rightarrow> string \<Rightarrow> loss_terms \<Rightarrow>
   ('p, 'o) world \<Rightarrow> ('p, 'o) world" where
  "wrote_logs env cfg epoch mid l w =
     foldl (\<lambda>w' (name, v). appended (log_path cfg name) (log_record env epoch mid v) w')
       w (log_values l)"

text \<open>The records that such a display adds to the file \<open>p\<close>: those of the terms whose
  file is \<open>p\<close>.\<close>

definition new_records ::
  "('b, 'p, 'o) env \<Rightarrow> config \<Rightarrow> int \<Rightarrow> string \<Rightarrow> loss_terms \<Rightarrow> string \<Rightarrow> string list" where
  "new_records env cfg epoch mid l p =
     map (\<lambda>nv. log_record env epoch mid (snd nv))
       (filter (\<lambda>nv. log_path cfg (fst nv) = p) (log_values l))"

text \<open>The records that the iterations of the training loop over the batches \<open>bs\<close>, from
  the index \<open>i\<close> and the state \<open>st\<close>, add to the file \<open>p\<close> when no iteration raises: at
  every index that \<open>display_freq\<close> divides, those of the loss of that iteration, which
  is computed before its optimizer step.\<close>

fun train_records ::
  "('b, 'p, 'o) env \<Rightarrow> config \<Rightarrow> int \<Rightarrow> nat \<Rightarrow> 'b list \<Rightarrow> ('p, 'o) tstate \<Rightarrow> string \<Rightarrow>
   string list" where
  "train_records env cfg epoch i [] st p = []"
| "train_records env cfg epoch i (b # bs) st p =
     (if int i mod display_freq cfg = 0
      then new_records env cfg epoch (show_nat i) (loss_of env b st) p else [])
     @ train_records env cfg epoch (Suc i) bs (optimise env b st) p"

text \<open>The same for the validation loop, which leaves the model as it is.\<close>

fun validation_records ::
  "('b, 'p, 'o) env \<Rightarrow> config \<Rightarrow> int \<Rightarrow> nat \<Rightarrow> 'b list \<Rightarrow> ('p, 'o) tstate \<Rightarrow> string \<Rightarrow>
   string list" where
  "validation_records env cfg epoch i [] st p = []"
| "validation_records env cfg epoch i (b # bs) st p =
     (if int i mod display_freq cfg = 0
      then new_records env cfg epoch ''validation'' (loss_of env b st) p else [])
     @ validation_records env cfg epoch (Suc i) bs st p"

text \<open>The checkpoint files whose name carries the tag \<open>end\<close>, newest first, each as
  the epoch stored in it, the rate stored as \<open>'lr'\<close> and the rate in the stored
  optimizer state.\<close>

definition end_rates :: "(string \<times> ('p, 'o) checkpoint) list \<Rightarrow> (int \<times> real \<times> real) list" where
  "end_rates cks =
     map (\<lambda>pc. (ck_epoch (snd pc), ck_lr (snd pc), opt_lr (ck_optimizer (snd pc))))
       (filter (\<lambda>pc. suffix ''_end.pth'' (fst pc)) cks)"

text \<open>The rate after \<open>k\<close> steps of the scheduler that \<open>main\<close> chooses, built on the rate
  \<open>r\<close>.\<close>

definition decayed :: "config \<Rightarrow> real \<Rightarrow> nat \<Rightarrow> real" where
  "decayed cfg r k = (if dataset cfg = ''synth-text'' then r else r * (1 / 10) ^ (k div 100))"

text \<open>The paths of the six per-term text logs.\<close>

definition log_paths :: "config \<Rightarrow> string set" where
  "log_paths cfg = log_path cfg ` {''tr_loss_result.txt'', ''tcl_loss_result.txt'',
     ''sin_result.txt'', ''cos_result.txt'', ''radii_result.txt'', ''loss_result.txt''}"

subsection \<open>Predicates used in the proofs and statements\<close>

text \<open>Between two iterations every \<open>train\<close> step pushed so far is at most the counter;
  inside an iteration, after the counter has been incremented, it is below the counter.\<close>

definition steps_upto :: "('p, 'o) world \<Rightarrow> bool" where
  "steps_upto w =
     (sorted_wrt (<) (steps_tagged ''train'' (logged w))
      \<and> list_all (\<lambda>k. k \<le> int (train_step w)) (steps_tagged ''train'' (logged w)))"

definition steps_below :: "('p, 'o) world \<Rightarrow> bool" where
  "steps_below w =
     (sorted_wrt (<) (steps_tagged ''train'' (logged w))
      \<and> list_all (\<lambda>k. k < int (train_step w)) (steps_tagged ''train'' (logged w)))"

text \<open>\<open>appends S P fs fs'\<close>: every file of \<open>fs'\<close> is the file of \<open>fs\<close> followed by new
  records, each satisfying \<open>P\<close>, and only the files in \<open>S\<close> have new records.\<close>

definition appends ::
  "string set \<Rightarrow> (string \<Rightarrow> bool) \<Rightarrow> (string \<Rightarrow> string list) \<Rightarrow> (string \<Rightarrow> string list) \<Rightarrow> bool" where
  "appends S P fs fs' = (\<forall>p. \<exists>new. fs' p = fs p @ new \<and> list_all P new \<and> (p \<notin> S \<longrightarrow> new = []))"

definition training_record :: "('b, 'p, 'o) env \<Rightarrow> int \<Rightarrow> string \<Rightarrow> bool" where
  "training_record env epoch r = (\<exists>i v. r = log_record env epoch (show_nat i) v)"

definition validation_record :: "('b, 'p, 'o) env \<Rightarrow> int \<Rightarrow> string \<Rightarrow> bool" where
  "validation_record env epoch r = (\<exists>v. r = log_record env epoch ''validation'' v)"

text \<open>The loop that calls \<open>train\<close> only.\<close>

fun train_epochs ::
  "('b, 'p, 'o) env \<Rightarrow> config \<Rightarrow> (int \<Rightarrow> 'b list) \<Rightarrow> int list \<Rightarrow>
   ('p, 'o) tstate \<Rightarrow> ('p, 'o) tstate result" where
  "train_epochs env cfg train_loader [] st = Ok st"
| "train_epochs env cfg train_loader (epoch # es) st =
     (case train env cfg train_loader epoch st of
        Raised e st' \<Rightarrow> Raised e st'
      | Ok st1 \<Rightarrow> train_epochs env cfg train_loader es st1)"

text \<open>The validation lines printed and the steps of the scalars tagged \<open>val\<close>.\<close>

definition val_traces :: "('p, 'o) world \<Rightarrow> line list \<times> int list" where
  "val_traces w = (validation_lines (console w), steps_tagged ''val'' (logged w))"

text \<open>The settings under which no interval test divides by zero and \<open>save_model\<close> finds
  the attributes it reads.\<close>

definition runs_through :: "config \<Rightarrow> bool" where
  "runs_through cfg =
     (\<not> mgpu cfg \<and> display_freq cfg \<noteq> 0 \<and> viz_save_iter cfg \<noteq> 0 \<and> log_freq cfg \<noteq> 0
      \<and> save_freq cfg \<noteq> 0 \<and> (viz cfg \<longrightarrow> viz_freq cfg \<noteq> 0))"

text \<open>A state in which the loops can save and log: the model is the bare network and
  the experiment directory exists.\<close>

definition ready :: "config \<Rightarrow> ('p, 'o) tstate \<Rightarrow> bool" where
  "ready cfg st = (\<not> data_parallel (t_model st) \<and> experiment_dir cfg \<in> dirs (t_world st))"

text \<open>A record of the training loop or of the validation loop, of some epoch.\<close>

definition log_record_of :: "('b, 'p, 'o) env \<Rightarrow> string \<Rightarrow> bool" where
  "log_record_of env r = (\<exists>epoch. training_record env epoch r \<or> validation_record env epoch r)"

text \<open>A single line: no newline but the last character.\<close>

definition single_line :: "string \<Rightarrow> bool" where
  "single_line r = (r \<noteq> [] \<and> last r = CHR 0x0A \<and> CHR 0x0A \<notin> set (butlast r))"

subsection \<open>A small concrete run\<close>

text \<open>Batches are numbers, the loss of a batch is the number itself (in the first
  term), a training step adds one to the single parameter, and losses, being whole
  numbers here, are formatted with four zero decimals.\<close>

definition ex_env :: "(nat, int, unit) env" where
  "ex_env =
     \<lparr>forward_loss = (\<lambda>p tr b. \<lparr>tr_loss = real b, tcl_loss = 0, sin_loss = 0, cos_loss = 0,
                                  radii_loss = 0\<rparr>),
      backward_step = (\<lambda>r p os b. (p + 1, ())),
      new_textnet = (\<lambda>bb. 0),
      new_adam = (\<lambda>p. ()),
      total_text_train = \<lparr>ds_len = 4, ds_batches = (\<lambda>e. [1, 2, 3, 4])\<rparr>,
      total_text_val = \<lparr>ds_len = 1, ds_batches = (\<lambda>e. [5])\<rparr>,
      synth_text_train = \<lparr>ds_len = 2, ds_batches = (\<lambda>e. [1, 2])\<rparr>,
      fmt4f = (\<lambda>x. show_int \<lfloor>x\<rfloor> @ ''.0000''),
      now = ''Jan01_00-00-00_''\<rparr>"

definition ex_cfg :: config where
  "ex_cfg =
     \<lparr>dataset = ''total-text'', save_dir = ''save'', exp_name = ''exp'', log_dir = ''logs'',
      net = ''vgg'', mgpu = False, viz = False, viz_freq = 50, display_freq = 2,
      viz_save_iter = 3, log_freq = 1, save_freq = 5, start_epoch = 0, max_epoch = 2,
      lr = 1 / 1000, resume = None\<rparr>"

text \<open>The disk at the start: the experiment directory exists and holds nothing.\<close>

definition ex_world :: "(int, unit) world" where
  "ex_world = script_start (\<lambda>p. []) {''save/exp''} []"

definition ex_state :: "(int, unit) tstate" where
  "ex_state =
     \<lparr>t_model = \<lparr>params = 0, training = True, data_parallel = False, backbone = ''vgg''\<rparr>,
      t_optimizer = \<lparr>opt_lr = 1 / 1000, opt_state = ()\<rparr>,
      t_scheduler = \<lparr>kind = StepLR 100 (1 / 10), base_lr = 1 / 1000, last_epoch = 0\<rparr>,
      t_world = ex_world\<rparr>"

text \<open>A checkpoint on disk, for \<open>load_model\<close>.\<close>

definition ex_checkpoint :: "(int, unit) checkpoint" where
  "ex_checkpoint =
     \<lparr>ck_lr = 1 / 1000, ck_epoch = 99, ck_model = 7,
      ck_optimizer = \<lparr>opt_lr = 1 / 1000, opt_state = ()\<rparr>\<rparr>"

text \<open>The same disk with one checkpoint on it.\<close>

definition ex_disk :: "(int, unit) world" where
  "ex_disk = script_start (\<lambda>p. []) {''save/exp''} [(''a.pth'', ex_checkpoint)]"

text \<open>A run resumed from that checkpoint at epoch 100, for one epoch; a run on the
  synthetic corpus; and a run with a dataset name that the script does not know.\<close>

definition resumed_cfg :: config where
  "resumed_cfg = ex_cfg\<lparr>start_epoch := 100, max_epoch := 101, resume := Some ''a.pth''\<rparr>"

text \<open>A run of 101 epochs, which crosses the hundredth step of the scheduler.\<close>

definition long_cfg :: config where
  "long_cfg = ex_cfg\<lparr>max_epoch := 101\<rparr>"

definition synth_cfg :: config where
  "synth_cfg = ex_cfg\<lparr>dataset := ''synth-text''\<rparr>"

definition other_cfg :: config where
  "other_cfg = ex_cfg\<lparr>dataset := ''icdar''\<rparr>"

section \<open>Properties\<close>

subsection \<open>Basic facts about results and the world\<close>

lemma reached_simps [simp]: "reached (Raised e s) = s" "reached (Ok s) = s"
  by (simp_all add: reached_def)

lemma and_then_simps [simp]:
  "and_then (Raised e s) f = Raised e s" "and_then (Ok s) f = f s"
  by (simp_all add: and_then_def)

lemma and_then_Ok:
  "and_then r f = Ok s' \<longleftrightarrow> (\<exists>s. r = Ok s \<and> f s = Ok s')"
  by (cases r) simp_all

lemma reached_and_then:
  assumes "Q (reached r)" and "\<And>s. Q s \<Longrightarrow> Q (reached (f s))"
  shows "Q (reached (and_then r f))"
  using assms by (cases r) simp_all

lemma on_world_simps [simp]:
  "t_model (on_world f st) = t_model st"
  "t_optimizer (on_world f st) = t_optimizer st"
  "t_scheduler (on_world f st) = t_scheduler st"
  "t_world (on_world f st) = f (t_world st)"
  by (simp_all add: on_world_def)

lemma print_simps [simp]:
  "console (print l w) = console w @ [l]"
  "files (print l w) = files w"
  "saved (print l w) = saved w"
  "logged (print l w) = logged w"
  "train_step (print l w) = train_step w"
  "global_lr (print l w) = global_lr w"
  "dirs (print l w) = dirs w"
  by (simp_all add: print_def)

lemma appended_simps [simp]:
  "console (appended p s w) = console w"
  "files (appended p s w) = (files w)(p := files w p @ [s])"
  "saved (appended p s w) = saved w"
  "logged (appended p s w) = logged w"
  "train_step (appended p s w) = train_step w"
  "global_lr (appended p s w) = global_lr w"
  "dirs (appended p s w) = dirs w"
  by (simp_all add: appended_def)

lemma write_scalars_simps [simp]:
  "console (write_scalars vs tg n w) = console w"
  "files (write_scalars vs tg n w) = files w"
  "saved (write_scalars vs tg n w) = saved w"
  "logged (write_scalars vs tg n w) = logged w @ [\<lparr>sc_tag = tg, sc_n_iter = n, sc_values = vs\<rparr>]"
  "train_step (write_scalars vs tg n w) = train_step w"
  "global_lr (write_scalars vs tg n w) = global_lr w"
  "dirs (write_scalars vs tg n w) = dirs w"
  by (simp_all add: write_scalars_def)

lemma visualize_simps [simp]:
  "console (visualize_network_output md w) = console w"
  "files (visualize_network_output md w) = files w"
  "saved (visualize_network_output md w) = saved w"
  "logged (visualize_network_output md w) = logged w"
  "train_step (visualize_network_output md w) = train_step w"
  "global_lr (visualize_network_output md w) = global_lr w"
  "dirs (visualize_network_output md w) = dirs w"
  by (simp_all add: visualize_network_output_def)

lemma count_step_simps [simp]:
  "console (count_step w) = console w"
  "files (count_step w) = files w"
  "saved (count_step w) = saved w"
  "logged (count_step w) = logged w"
  "train_step (count_step w) = train_step w + 1"
  "global_lr (count_step w) = global_lr w"
  "dirs (count_step w) = dirs w"
  by (simp_all add: count_step_def)

lemma wrote_logs_simps [simp]:
  "console (wrote_logs env cfg epoch mid l w) = console w"
  "saved (wrote_logs env cfg epoch mid l w) = saved w"
  "logged (wrote_logs env cfg epoch mid l w) = logged w"
  "train_step (wrote_logs env cfg epoch mid l w) = train_step w"
  "global_lr (wrote_logs env cfg epoch mid l w) = global_lr w"
  "dirs (wrote_logs env cfg epoch mid l w) = dirs w"
  by (simp_all add: wrote_logs_def log_values_def)

lemma saved_world_simps [simp]:
  "console (saved_world cfg epoch label st) =
     console (t_world st) @ [Saving_to (save_path_of cfg (t_model st) epoch label)]"
  "files (saved_world cfg epoch label st) = files (t_world st)"
  "logged (saved_world cfg epoch label st) = logged (t_world st)"
  "train_step (saved_world cfg epoch label st) = train_step (t_world st)"
  "global_lr (saved_world cfg epoch label st) = global_lr (t_world st)"
  "dirs (saved_world cfg epoch label st) = insert (experiment_dir cfg) (dirs (t_world st))"
  "saved (saved_world cfg epoch label st) =
     (save_path_of cfg (t_model st) epoch label,
      \<lparr>ck_lr = get_lr (t_scheduler st), ck_epoch = epoch,
       ck_model = params (t_model st), ck_optimizer = t_optimizer st\<rparr>) # saved (t_world st)"
  by (simp_all add: saved_world_def Let_def)

lemma optimise_simps [simp]:
  "t_world (optimise env b st) = t_world st"
  "t_scheduler (optimise env b st) = t_scheduler st"
  "opt_lr (t_optimizer (optimise env b st)) = opt_lr (t_optimizer st)"
  "training (t_model (optimise env b st)) = training (t_model st)"
  "data_parallel (t_model (optimise env b st)) = data_parallel (t_model st)"
  "backbone (t_model (optimise env b st)) = backbone (t_model st)"
  by (simp_all add: optimise_def Let_def)

subsection \<open>What each interval action does\<close>

lemma maybe_visualize_cases:
  "maybe_visualize cfg i mode st = Raised ZeroDivisionError st \<or>
   maybe_visualize cfg i mode st = Ok st \<or>
   maybe_visualize cfg i mode st = Ok (on_world (visualize_network_output mode) st)"
  by (simp add: maybe_visualize_def split: option.splits bool.splits)

text \<open>The six appends raise at the first file when the directory is missing, and all
  succeed otherwise.\<close>

lemma write_records_cases:
  "write_records d prs w =
     (if d \<in> dirs w \<or> prs = []
      then Ok (foldl (\<lambda>w' pr. appended (fst pr) (snd pr) w') w prs)
      else Raised (FileNotFoundError (fst (hd prs))) w)"
proof (induction prs arbitrary: w)
  case Nil
  show ?case by simp
next
  case (Cons pr prs)
  show ?case
  proof (cases "d \<in> dirs w")
    case True
    then have "append_file d (fst pr) (snd pr) w = Ok (appended (fst pr) (snd pr) w)"
      by (simp add: append_file_def appended_def)
    with True Cons.IH [of "appended (fst pr) (snd pr) w"] show ?thesis by simp
  next
    case False
    then show ?thesis by (simp add: append_file_def)
  qed
qed

lemma write_logs_cases:
  "write_logs env cfg epoch mid l w =
     (if experiment_dir cfg \<in> dirs w then Ok (wrote_logs env cfg epoch mid l w)
      else Raised (FileNotFoundError (log_path cfg ''tr_loss_result.txt'')) w)"
  by (simp add: write_logs_def write_records_cases wrote_logs_def log_values_def)

lemma train_display_cases:
  "train_display env cfg epoch n i l st = Raised ZeroDivisionError st \<or>
   display_freq cfg \<noteq> 0 \<and> int i mod display_freq cfg = 0
     \<and> experiment_dir cfg \<notin> dirs (t_world st) \<and>
   train_display env cfg epoch n i l st =
     Raised (FileNotFoundError (log_path cfg ''tr_loss_result.txt''))
       (on_world (print (Progress i n (total l) l)) st) \<or>
   display_freq cfg \<noteq> 0 \<and> (int i mod display_freq cfg = 0 \<longrightarrow> experiment_dir cfg \<in> dirs (t_world st)) \<and>
   train_display env cfg epoch n i l st =
     Ok (if int i mod display_freq cfg = 0
         then on_world (\<lambda>w. wrote_logs env cfg epoch (show_nat i) l
                               (print (Progress i n (total l) l) w)) st
         else st)"
  by (simp add: train_display_def mod_is_zero_def in_world_def write_logs_cases on_world_def)

lemma validation_display_cases:
  "validation_display env cfg epoch i l st = Raised ZeroDivisionError st \<or>
   display_freq cfg \<noteq> 0 \<and> int i mod display_freq cfg = 0
     \<and> experiment_dir cfg \<notin> dirs (t_world st) \<and>
   validation_display env cfg epoch i l st =
     Raised (FileNotFoundError (log_path cfg ''tr_loss_result.txt''))
       (on_world (print (Validation_progress (total l) l)) st) \<or>
   display_freq cfg \<noteq> 0 \<and> (int i mod display_freq cfg = 0 \<longrightarrow> experiment_dir cfg \<in> dirs (t_world st)) \<and>
   validation_display env cfg epoch i l st =
     Ok (if int i mod display_freq cfg = 0
         then on_world (\<lambda>w. wrote_logs env cfg epoch ''validation'' l
                               (print (Validation_progress (total l) l) w)) st
         else st)"
  by (simp add: validation_display_def mod_is_zero_def in_world_def write_logs_cases on_world_def)

lemma train_log_cases:
  "train_log cfg i l st = Raised ZeroDivisionError st \<or>
   log_freq cfg \<noteq> 0 \<and>
   train_log cfg i l st =
     Ok (if int i mod log_freq cfg = 0
         then on_world (\<lambda>w. write_scalars
                (scalar_values (Some (total l)) (Some (tr_loss l)) (Some (tcl_loss l))
                   (Some (sin_loss l)) (Some (cos_loss l)) (Some (radii_loss l)))
                ''train'' (int (train_step w)) w) st
         else st)"
  by (simp add: train_log_def mod_is_zero_def)

lemma progress_iters_simps [simp]:
  "progress_iters [] = []"
  "progress_iters (xs @ ys) = progress_iters xs @ progress_iters ys"
  "progress_iters [Progress i n t x] = [i]"
  "progress_iters [Saving_to p] = []"
  "progress_iters [Epoch_LR e r] = []"
  "progress_iters [Training_Loss a] = []"
  "progress_iters [Validation_progress t x] = []"
  "progress_iters [Validation_Loss a] = []"
  by (simp_all add: progress_iters_def)

lemma validation_lines_simps [simp]:
  "validation_lines [] = []"
  "validation_lines (xs @ ys) = validation_lines xs @ validation_lines ys"
  "validation_lines [Progress i n t x] = []"
  "validation_lines [Saving_to p] = []"
  "validation_lines [Epoch_LR e r] = []"
  "validation_lines [Training_Loss a] = []"
  "validation_lines [Start_training] = []"
  "validation_lines [End_line] = []"
  "validation_lines [Loading_from p] = []"
  by (simp_all add: validation_lines_def)

text \<open>A \<open>save_model\<close> that raises has at most created the directory and printed
  \<open>Saving to\<close>; one that returns has written the checkpoint.\<close>

lemma save_state_Ok:
  "save_state cfg epoch label st = Ok st' \<Longrightarrow>
   \<not> data_parallel (t_model st) \<and> \<not> mgpu cfg \<and>
   st' = st\<lparr>t_world := saved_world cfg epoch label st\<rparr>"
  by (auto simp: save_state_def save_model_def Let_def saved_world_def save_path_of_def
      print_def mkdirs_def insert_absorb split: if_splits)

lemma save_state_Ok_iff:
  "\<not> data_parallel (t_model st) \<Longrightarrow> \<not> mgpu cfg \<Longrightarrow>
   save_state cfg epoch label st = Ok (st\<lparr>t_world := saved_world cfg epoch label st\<rparr>)"
  by (auto simp: save_state_def save_model_def Let_def saved_world_def save_path_of_def
      print_def mkdirs_def insert_absorb split: if_splits)

lemma save_state_reached:
  "t_model (reached (save_state cfg epoch label st)) = t_model st"
  "t_optimizer (reached (save_state cfg epoch label st)) = t_optimizer st"
  "t_scheduler (reached (save_state cfg epoch label st)) = t_scheduler st"
  "files (t_world (reached (save_state cfg epoch label st))) = files (t_world st)"
  "logged (t_world (reached (save_state cfg epoch label st))) = logged (t_world st)"
  "train_step (t_world (reached (save_state cfg epoch label st))) = train_step (t_world st)"
  "global_lr (t_world (reached (save_state cfg epoch label st))) = global_lr (t_world st)"
  "validation_lines (console (t_world (reached (save_state cfg epoch label st)))) =
     validation_lines (console (t_world st))"
  by (simp_all add: save_state_def save_model_def Let_def print_def mkdirs_def)

lemma train_save_Ok:
  "train_save cfg epoch i st = Ok st' \<Longrightarrow>
   viz_save_iter cfg \<noteq> 0 \<and>
   st' = (if int i mod viz_save_iter cfg = 0
          then st\<lparr>t_world := saved_world cfg epoch (show_nat i) st\<rparr> else st)"
  by (auto simp: train_save_def mod_is_zero_def dest: save_state_Ok split: if_splits)

lemma train_save_reached:
  "t_model (reached (train_save cfg epoch i st)) = t_model st"
  "t_optimizer (reached (train_save cfg epoch i st)) = t_optimizer st"
  "t_scheduler (reached (train_save cfg epoch i st)) = t_scheduler st"
  "files (t_world (reached (train_save cfg epoch i st))) = files (t_world st)"
  "logged (t_world (reached (train_save cfg epoch i st))) = logged (t_world st)"
  "train_step (t_world (reached (train_save cfg epoch i st))) = train_step (t_world st)"
  "global_lr (t_world (reached (train_save cfg epoch i st))) = global_lr (t_world st)"
  "validation_lines (console (t_world (reached (train_save cfg epoch i st)))) =
     validation_lines (console (t_world st))"
  by (simp_all add: train_save_def mod_is_zero_def save_state_reached split: bool.splits)

lemma epoch_end_save_Ok:
  "epoch_end_save cfg epoch st = Ok st' \<Longrightarrow>
   save_freq cfg \<noteq> 0 \<and>
   st' = (if epoch mod save_freq cfg = 0
          then st\<lparr>t_world := saved_world cfg epoch ''end'' st\<rparr> else st)"
  by (auto simp: epoch_end_save_def mod_is_zero_def dest: save_state_Ok split: if_splits)

lemma epoch_end_save_reached:
  "t_model (reached (epoch_end_save cfg epoch st)) = t_model st"
  "t_optimizer (reached (epoch_end_save cfg epoch st)) = t_optimizer st"
  "t_scheduler (reached (epoch_end_save cfg epoch st)) = t_scheduler st"
  "files (t_world (reached (epoch_end_save cfg epoch st))) = files (t_world st)"
  "logged (t_world (reached (epoch_end_save cfg epoch st))) = logged (t_world st)"
  "train_step (t_world (reached (epoch_end_save cfg epoch st))) = train_step (t_world st)"
  "global_lr (t_world (reached (epoch_end_save cfg epoch st))) = global_lr (t_world st)"
  "validation_lines (console (t_world (reached (epoch_end_save cfg epoch st)))) =
     validation_lines (console (t_world st))"
  by (simp_all add: epoch_end_save_def mod_is_zero_def save_state_reached split: bool.splits)

lemma maybe_visualize_Ok:
  "maybe_visualize cfg i mode st = Ok st' \<Longrightarrow>
   (viz cfg \<longrightarrow> viz_freq cfg \<noteq> 0) \<and>
   st' = (if viz cfg \<and> int i mod viz_freq cfg = 0
          then on_world (visualize_network_output mode) st else st)"
  by (auto simp: maybe_visualize_def mod_is_zero_def split: if_splits)

lemma maybe_visualize_reached:
  "t_model (reached (maybe_visualize cfg i mode st)) = t_model st"
  "t_optimizer (reached (maybe_visualize cfg i mode st)) = t_optimizer st"
  "t_scheduler (reached (maybe_visualize cfg i mode st)) = t_scheduler st"
  "files (t_world (reached (maybe_visualize cfg i mode st))) = files (t_world st)"
  "logged (t_world (reached (maybe_visualize cfg i mode st))) = logged (t_world st)"
  "train_step (t_world (reached (maybe_visualize cfg i mode st))) = train_step (t_world st)"
  "global_lr (t_world (reached (maybe_visualize cfg i mode st))) = global_lr (t_world st)"
  "console (t_world (reached (maybe_visualize cfg i mode st))) = console (t_world st)"
  "saved (t_world (reached (maybe_visualize cfg i mode st))) = saved (t_world st)"
  using maybe_visualize_cases [of cfg i mode st] by auto

lemma train_display_Ok:
  "train_display env cfg epoch n i l st = Ok st' \<Longrightarrow>
   display_freq cfg \<noteq> 0 \<and>
   st' = (if int i mod display_freq cfg = 0
          then on_world (\<lambda>w. wrote_logs env cfg epoch (show_nat i) l
                               (print (Progress i n (total l) l) w)) st
          else st)"
  using train_display_cases [of env cfg epoch n i l st] by auto

lemma train_display_reached:
  "t_model (reached (train_display env cfg epoch n i l st)) = t_model st"
  "t_optimizer (reached (train_display env cfg epoch n i l st)) = t_optimizer st"
  "t_scheduler (reached (train_display env cfg epoch n i l st)) = t_scheduler st"
  "logged (t_world (reached (train_display env cfg epoch n i l st))) = logged (t_world st)"
  "train_step (t_world (reached (train_display env cfg epoch n i l st))) = train_step (t_world st)"
  "global_lr (t_world (reached (train_display env cfg epoch n i l st))) = global_lr (t_world st)"
  "saved (t_world (reached (train_display env cfg epoch n i l st))) = saved (t_world st)"
  "validation_lines (console (t_world (reached (train_display env cfg epoch n i l st)))) =
     validation_lines (console (t_world st))"
  using train_display_cases [of env cfg epoch n i l st] by auto

lemma validation_display_Ok:
  "validation_display env cfg epoch i l st = Ok st' \<Longrightarrow>
   display_freq cfg \<noteq> 0 \<and>
   st' = (if int i mod display_freq cfg = 0
          then on_world (\<lambda>w. wrote_logs env cfg epoch ''validation'' l
                               (print (Validation_progress (total l) l) w)) st
          else st)"
  using validation_display_cases [of env cfg epoch i l st] by auto

lemma validation_display_reached:
  "t_model (reached (validation_display env cfg epoch i l st)) = t_model st"
  "t_optimizer (reached (validation_display env cfg epoch i l st)) = t_optimizer st"
  "t_scheduler (reached (validation_display env cfg epoch i l st)) = t_scheduler st"
  "logged (t_world (reached (validation_display env cfg epoch i l st))) = logged (t_world st)"
  "train_step (t_world (reached (validation_display env cfg epoch i l st))) = train_step (t_world st)"
  "global_lr (t_world (reached (validation_display env cfg epoch i l st))) = global_lr (t_world st)"
  "saved (t_world (reached (validation_display env cfg epoch i l st))) = saved (t_world st)"
  using validation_display_cases [of env cfg epoch i l st] by auto

lemma train_log_Ok:
  "train_log cfg i l st = Ok st' \<Longrightarrow>
   log_freq cfg \<noteq> 0 \<and>
   st' = (if int i mod log_freq cfg = 0
         then on_world (\<lambda>w. write_scalars
                (scalar_values (Some (total l)) (Some (tr_loss l)) (Some (tcl_loss l))
                   (Some (sin_loss l)) (Some (cos_loss l)) (Some (radii_loss l)))
                ''train'' (int (train_step w)) w) st
         else st)"
  using train_log_cases [of cfg i l st] by auto

lemma train_log_reached:
  "t_model (reached (train_log cfg i l st)) = t_model st"
  "t_optimizer (reached (train_log cfg i l st)) = t_optimizer st"
  "t_scheduler (reached (train_log cfg i l st)) = t_scheduler st"
  "files (t_world (reached (train_log cfg i l st))) = files (t_world st)"
  "train_step (t_world (reached (train_log cfg i l st))) = train_step (t_world st)"
  "global_lr (t_world (reached (train_log cfg i l st))) = global_lr (t_world st)"
  "console (t_world (reached (train_log cfg i l st))) = console (t_world st)"
  "saved (t_world (reached (train_log cfg i l st))) = saved (t_world st)"
  using train_log_cases [of cfg i l st] by auto

subsection \<open>What the loops leave alone\<close>

lemma train_actions_reached:
  "t_model (reached (train_actions env cfg epoch n i l st)) = t_model st
   \<and> t_optimizer (reached (train_actions env cfg epoch n i l st)) = t_optimizer st
   \<and> t_scheduler (reached (train_actions env cfg epoch n i l st)) = t_scheduler st
   \<and> train_step (t_world (reached (train_actions env cfg epoch n i l st))) = train_step (t_world st)
   \<and> global_lr (t_world (reached (train_actions env cfg epoch n i l st))) = global_lr (t_world st)
   \<and> validation_lines (console (t_world (reached (train_actions env cfg epoch n i l st))))
       = validation_lines (console (t_world st))"
  (is "?Q (reached (train_actions env cfg epoch n i l st))")
  unfolding train_actions_def
proof (intro reached_and_then [where Q = ?Q])
  show "?Q (reached (maybe_visualize cfg i ''train'' st))"
    by (simp add: maybe_visualize_reached)
next
  fix s assume "?Q s" then show "?Q (reached (train_display env cfg epoch n i l s))"
    by (simp add: train_display_reached)
next
  fix s assume "?Q s" then show "?Q (reached (train_save cfg epoch i s))"
    by (simp add: train_save_reached)
next
  fix s assume "?Q s" then show "?Q (reached (train_log cfg i l s))"
    by (simp add: train_log_reached)
qed

lemma validation_actions_reached:
  "t_model (reached (validation_actions env cfg epoch i l st)) = t_model st
   \<and> t_optimizer (reached (validation_actions env cfg epoch i l st)) = t_optimizer st
   \<and> t_scheduler (reached (validation_actions env cfg epoch i l st)) = t_scheduler st
   \<and> train_step (t_world (reached (validation_actions env cfg epoch i l st))) = train_step (t_world st)
   \<and> global_lr (t_world (reached (validation_actions env cfg epoch i l st))) = global_lr (t_world st)
   \<and> saved (t_world (reached (validation_actions env cfg epoch i l st))) = saved (t_world st)
   \<and> logged (t_world (reached (validation_actions env cfg epoch i l st))) = logged (t_world st)"
  (is "?Q (reached (validation_actions env cfg epoch i l st))")
  unfolding validation_actions_def
proof (intro reached_and_then [where Q = ?Q])
  show "?Q (reached (maybe_visualize cfg i ''val'' st))"
    by (simp add: maybe_visualize_reached)
next
  fix s assume "?Q s" then show "?Q (reached (validation_display env cfg epoch i l s))"
    by (simp add: validation_display_reached)
qed

lemma reached_pair_case [simp]:
  "snd (reached (case r of Raised e st \<Rightarrow> Raised e (x, st) | Ok st \<Rightarrow> Ok (x, st))) = reached r"
  by (cases r) simp_all

text \<open>An iteration of the training loop leaves the scheduler and the optimizer's
  learning rate alone, and counts one step.\<close>

lemma train_body_reached:
  "t_scheduler (snd (reached (train_body env cfg epoch n i b ls))) = t_scheduler (snd ls)
   \<and> opt_lr (t_optimizer (snd (reached (train_body env cfg epoch n i b ls))))
       = opt_lr (t_optimizer (snd ls))
   \<and> train_step (t_world (snd (reached (train_body env cfg epoch n i b ls))))
       = train_step (t_world (snd ls)) + 1
   \<and> global_lr (t_world (snd (reached (train_body env cfg epoch n i b ls))))
       = global_lr (t_world (snd ls))
   \<and> data_parallel (t_model (snd (reached (train_body env cfg epoch n i b ls))))
       = data_parallel (t_model (snd ls))
   \<and> validation_lines (console (t_world (snd (reached (train_body env cfg epoch n i b ls)))))
       = validation_lines (console (t_world (snd ls)))"
  using train_actions_reached [of env cfg epoch n i
      "loss_of env b (on_world count_step (snd ls))"
      "optimise env b (on_world count_step (snd ls))"]
  by (simp add: train_body_def Let_def)

lemma validation_body_reached:
  "t_model (snd (reached (validation_body env cfg epoch i b ms))) = t_model (snd ms)
   \<and> t_optimizer (snd (reached (validation_body env cfg epoch i b ms))) = t_optimizer (snd ms)
   \<and> t_scheduler (snd (reached (validation_body env cfg epoch i b ms))) = t_scheduler (snd ms)
   \<and> train_step (t_world (snd (reached (validation_body env cfg epoch i b ms))))
       = train_step (t_world (snd ms))
   \<and> global_lr (t_world (snd (reached (validation_body env cfg epoch i b ms))))
       = global_lr (t_world (snd ms))
   \<and> saved (t_world (snd (reached (validation_body env cfg epoch i b ms))))
       = saved (t_world (snd ms))
   \<and> logged (t_world (snd (reached (validation_body env cfg epoch i b ms))))
       = logged (t_world (snd ms))"
  using validation_actions_reached [of env cfg epoch i "loss_of env b (snd ms)" "snd ms"]
  by (simp add: validation_body_def Let_def)

text \<open>Invariants of the two batch loops: what every iteration preserves holds in the
  state the loop reaches.\<close>

lemma train_batches_reached:
  assumes "Q ls"
    and "\<And>i b ls. Q ls \<Longrightarrow> Q (reached (train_body env cfg epoch n i b ls))"
  shows "Q (reached (train_batches env cfg epoch n i bs ls))"
  using assms(1)
proof (induction bs arbitrary: i ls)
  case Nil
  then show ?case by simp
next
  case (Cons b bs)
  from assms(2) [OF Cons.prems] have q: "Q (reached (train_body env cfg epoch n i b ls))" .
  show ?case
  proof (cases "train_body env cfg epoch n i b ls")
    case (Raised e ls')
    with q show ?thesis by simp
  next
    case (Ok ls')
    with q Cons.IH [of ls' "Suc i"] show ?thesis by simp
  qed
qed

lemma validation_batches_reached:
  assumes "Q ms"
    and "\<And>i b ms. Q ms \<Longrightarrow> Q (reached (validation_body env cfg epoch i b ms))"
  shows "Q (reached (validation_batches env cfg epoch i bs ms))"
  using assms(1)
proof (induction bs arbitrary: i ms)
  case Nil
  then show ?case by simp
next
  case (Cons b bs)
  from assms(2) [OF Cons.prems] have q: "Q (reached (validation_body env cfg epoch i b ms))" .
  show ?case
  proof (cases "validation_body env cfg epoch i b ms")
    case (Raised e ms')
    with q show ?thesis by simp
  next
    case (Ok ms')
    with q Cons.IH [of ms' "Suc i"] show ?thesis by simp
  qed
qed

lemma validation_batches_frame:
  "t_model (snd (reached (validation_batches env cfg epoch i bs ms))) = t_model (snd ms)
   \<and> t_optimizer (snd (reached (validation_batches env cfg epoch i bs ms))) = t_optimizer (snd ms)
   \<and> t_scheduler (snd (reached (validation_batches env cfg epoch i bs ms))) = t_scheduler (snd ms)
   \<and> train_step (t_world (snd (reached (validation_batches env cfg epoch i bs ms))))
       = train_step (t_world (snd ms))
   \<and> global_lr (t_world (snd (reached (validation_batches env cfg epoch i bs ms))))
       = global_lr (t_world (snd ms))
   \<and> saved (t_world (snd (reached (validation_batches env cfg epoch i bs ms))))
       = saved (t_world (snd ms))
   \<and> logged (t_world (snd (reached (validation_batches env cfg epoch i bs ms))))
       = logged (t_world (snd ms))"
  by (rule validation_batches_reached) (simp_all add: validation_body_reached)

lemma validation_frame:
  "t_model (reached (validation env cfg vl epoch st)) = (t_model st)\<lparr>training := False\<rparr>
   \<and> t_optimizer (reached (validation env cfg vl epoch st)) = t_optimizer st
   \<and> t_scheduler (reached (validation env cfg vl epoch st)) = t_scheduler st
   \<and> train_step (t_world (reached (validation env cfg vl epoch st))) = train_step (t_world st)
   \<and> global_lr (t_world (reached (validation env cfg vl epoch st))) = global_lr (t_world st)
   \<and> saved (t_world (reached (validation env cfg vl epoch st))) = saved (t_world st)"
proof -
  let ?r = "validation_batches env cfg epoch 0 (vl epoch)
      (new_vmeters, st\<lparr>t_model := (t_model st)\<lparr>training := False\<rparr>\<rparr>)"
  from validation_batches_frame [of env cfg epoch 0 "vl epoch"
      "(new_vmeters, st\<lparr>t_model := (t_model st)\<lparr>training := False\<rparr>\<rparr>)"]
  show ?thesis
    by (cases ?r) (simp_all add: validation_def validation_finish_def)
qed

subsection \<open>The scheduler is stepped once per call of \<open>train\<close>\<close>

lemma train_batches_schedule:
  "t_scheduler (snd (reached (train_batches env cfg epoch n i bs ls))) = t_scheduler (snd ls)
   \<and> opt_lr (t_optimizer (snd (reached (train_batches env cfg epoch n i bs ls))))
       = opt_lr (t_optimizer (snd ls))
   \<and> global_lr (t_world (snd (reached (train_batches env cfg epoch n i bs ls))))
       = global_lr (t_world (snd ls))
   \<and> data_parallel (t_model (snd (reached (train_batches env cfg epoch n i bs ls))))
       = data_parallel (t_model (snd ls))
   \<and> validation_lines (console (t_world (snd (reached (train_batches env cfg epoch n i bs ls)))))
       = validation_lines (console (t_world (snd ls)))"
  by (rule train_batches_reached) (simp_all add: train_body_reached)

lemma epoch_finish_simps [simp]:
  "t_model (epoch_finish losses st) = t_model st"
  "t_world (epoch_finish losses st) = print (Training_Loss (avg losses)) (t_world st)"
  "t_scheduler (epoch_finish losses st) =
     (t_scheduler st)\<lparr>last_epoch := last_epoch (t_scheduler st) + 1\<rparr>"
  "t_optimizer (epoch_finish losses st) =
     (t_optimizer st)\<lparr>opt_lr :=
        get_lr ((t_scheduler st)\<lparr>last_epoch := last_epoch (t_scheduler st) + 1\<rparr>)\<rparr>"
  by (simp_all add: epoch_finish_def sched_step_def Let_def)

lemma epoch_start_simps [simp]:
  "t_model (epoch_start epoch st) = (t_model st)\<lparr>training := True\<rparr>"
  "t_optimizer (epoch_start epoch st) = t_optimizer st"
  "t_scheduler (epoch_start epoch st) = t_scheduler st"
  "t_world (epoch_start epoch st) = print (Epoch_LR epoch (global_lr (t_world st))) (t_world st)"
  by (simp_all add: epoch_start_def)

text \<open>The three phases of a call of \<open>train\<close> that returns.\<close>

lemma train_Ok:
  assumes "train env cfg train_loader epoch st = Ok st'"
  obtains ls s where
    "train_batches env cfg epoch (length (train_loader epoch)) 0 (train_loader epoch)
       (AverageMeter, epoch_start epoch st) = Ok ls"
    and "epoch_end_save cfg epoch (snd ls) = Ok s"
    and "st' = epoch_finish (fst ls) s"
  using assms by (auto simp: train_def Let_def split: result.splits)

lemma train_steps_scheduler:
  assumes "train env cfg train_loader epoch st = Ok st'"
  shows "t_scheduler st' = (t_scheduler st)\<lparr>last_epoch := last_epoch (t_scheduler st) + 1\<rparr>"
    and "opt_lr (t_optimizer st') = get_lr (t_scheduler st')"
    and "global_lr (t_world st') = global_lr (t_world st)"
proof -
  from assms obtain ls s where
    1: "train_batches env cfg epoch (length (train_loader epoch)) 0 (train_loader epoch)
       (AverageMeter, epoch_start epoch st) = Ok ls"
    and 2: "epoch_end_save cfg epoch (snd ls) = Ok s"
    and 3: "st' = epoch_finish (fst ls) s"
    by (rule train_Ok)
  from train_batches_schedule [of env cfg epoch "length (train_loader epoch)" 0
      "train_loader epoch" "(AverageMeter, epoch_start epoch st)"] 1
  have a: "t_scheduler (snd ls) = t_scheduler st"
    "global_lr (t_world (snd ls)) = global_lr (t_world st)" by simp_all
  from epoch_end_save_reached [of cfg epoch "snd ls"] 2
  have b: "t_scheduler s = t_scheduler (snd ls)"
    "global_lr (t_world s) = global_lr (t_world (snd ls))" by simp_all
  show "t_scheduler st' = (t_scheduler st)\<lparr>last_epoch := last_epoch (t_scheduler st) + 1\<rparr>"
    by (simp add: 3 a b)
  show "opt_lr (t_optimizer st') = get_lr (t_scheduler st')"
    by (simp add: 3)
  show "global_lr (t_world st') = global_lr (t_world st)"
    by (simp add: 3 a b)
qed

text \<open>One epoch of the loop that returns: \<open>train\<close> returned, and so did
  \<open>validation\<close> when it was called.\<close>

lemma epoch_loop_Cons_Ok:
  assumes "epoch_loop env cfg trl valset vl (e # es) st = Ok st'"
  obtains s1 s2 where "train env cfg trl e st = Ok s1"
    and "s2 = s1 \<or> (\<exists>v. s2 = reached (validation env cfg v e s1))"
    and "epoch_loop env cfg trl valset vl es s2 = Ok st'"
proof -
  from assms obtain s1 where 1: "train env cfg trl e st = Ok s1"
    by (auto split: result.splits)
  show thesis
  proof (cases "truthy valset")
    case False
    with assms 1 have "epoch_loop env cfg trl valset vl es s1 = Ok st'" by simp
    with 1 that [of s1 s1] show thesis by simp
  next
    case True
    with assms 1 obtain v s2 where 2: "validation env cfg v e s1 = Ok s2"
      and 3: "epoch_loop env cfg trl valset vl es s2 = Ok st'"
      by (auto split: result.splits option.splits)
    from 2 have "s2 = reached (validation env cfg v e s1)" by simp
    with 1 3 that [of s1 s2] show thesis by blast
  qed
qed

lemma epoch_loop_scheduler:
  assumes "epoch_loop env cfg trl valset vl es st = Ok st'"
  shows "t_scheduler st' = (t_scheduler st)\<lparr>last_epoch := last_epoch (t_scheduler st) + length es\<rparr>
    \<and> (opt_lr (t_optimizer st) = get_lr (t_scheduler st)
         \<longrightarrow> opt_lr (t_optimizer st') = get_lr (t_scheduler st'))"
  using assms
proof (induction es arbitrary: st)
  case Nil
  then show ?case by simp
next
  case (Cons e es)
  from Cons.prems obtain s1 s2 where 1: "train env cfg trl e st = Ok s1"
    and 2: "s2 = s1 \<or> (\<exists>v. s2 = reached (validation env cfg v e s1))"
    and 3: "epoch_loop env cfg trl valset vl es s2 = Ok st'"
    by (rule epoch_loop_Cons_Ok)
  from 2 have s2: "t_scheduler s2 = t_scheduler s1" "t_optimizer s2 = t_optimizer s1"
    by (auto simp: validation_frame)
  from train_steps_scheduler [OF 1] s2 Cons.IH [OF 3] show ?case by simp
qed

lemma choose_scheduler_get_lr:
  "get_lr ((choose_scheduler cfg opt)\<lparr>last_epoch := k\<rparr>) =
     (if dataset cfg = ''synth-text'' then opt_lr opt else opt_lr opt * (1 / 10) ^ (k div 100))"
  by (simp add: choose_scheduler_def new_scheduler_def get_lr_def)

lemma length_py_range [simp]: "length (py_range a b) = nat (b - a)"
  by (simp add: py_range_def)

subsection \<open>The global step counter and the steps of the scalar pushes\<close>

lemma steps_tagged_simps [simp]:
  "steps_tagged tg [] = []"
  "steps_tagged tg (xs @ ys) = steps_tagged tg xs @ steps_tagged tg ys"
  "steps_tagged tg [\<lparr>sc_tag = tg', sc_n_iter = k, sc_values = vs\<rparr>] = (if tg' = tg then [k] else [])"
  by (simp_all add: steps_tagged_def)

lemma steps_below_upto: "steps_below w \<Longrightarrow> steps_upto w"
  by (auto simp: steps_below_def steps_upto_def list_all_iff)

lemma steps_upto_count: "steps_upto w \<Longrightarrow> steps_below (count_step w)"
  by (auto simp: steps_below_def steps_upto_def list_all_iff)

lemma steps_below_cong:
  "logged w' = logged w \<Longrightarrow> train_step w' = train_step w \<Longrightarrow> steps_below w \<Longrightarrow> steps_below w'"
  by (simp add: steps_below_def)

lemma steps_upto_cong:
  "steps_tagged ''train'' (logged w') = steps_tagged ''train'' (logged w) \<Longrightarrow>
   train_step w' = train_step w \<Longrightarrow> steps_upto w \<Longrightarrow> steps_upto w'"
  by (simp add: steps_upto_def)

lemma train_log_steps:
  assumes "steps_below (t_world st)"
  shows "steps_upto (t_world (reached (train_log cfg i l st)))"
proof -
  from assms have "steps_upto (t_world st)" by (rule steps_below_upto)
  moreover from assms
  have "steps_upto (write_scalars vs ''train'' (int (train_step (t_world st))) (t_world st))" for vs
    by (auto simp: steps_below_def steps_upto_def list_all_iff sorted_wrt_append)
  ultimately show ?thesis
    using train_log_cases [of cfg i l st] by auto
qed

lemma train_actions_steps:
  assumes "steps_below (t_world st)"
  shows "steps_upto (t_world (reached (train_actions env cfg epoch n i l st)))"
proof -
  let ?B = "\<lambda>s. steps_below (t_world s)"
  have 1: "?B (reached (maybe_visualize cfg i ''train'' st))"
    using assms by (rule steps_below_cong [rotated 2]) (simp_all add: maybe_visualize_reached)
  have 2: "?B (reached (train_display env cfg epoch n i l s))" if "?B s" for s
    using that by (rule steps_below_cong [rotated 2]) (simp_all add: train_display_reached)
  have 3: "?B (reached (train_save cfg epoch i s))" if "?B s" for s
    using that by (rule steps_below_cong [rotated 2]) (simp_all add: train_save_reached)
  let ?r = "and_then (and_then (maybe_visualize cfg i ''train'' st)
              (train_display env cfg epoch n i l)) (train_save cfg epoch i)"
  have r: "?B (reached ?r)"
    by (intro reached_and_then [where Q = ?B] 1 2 3)
  show ?thesis
  proof (cases ?r)
    case (Raised e s)
    with r show ?thesis by (simp add: train_actions_def steps_below_upto)
  next
    case (Ok s)
    with r train_log_steps [of s cfg i l] show ?thesis by (simp add: train_actions_def)
  qed
qed

lemma train_body_steps:
  assumes "steps_upto (t_world (snd ls))"
  shows "steps_upto (t_world (snd (reached (train_body env cfg epoch n i b ls))))"
  using train_actions_steps [of "optimise env b (on_world count_step (snd ls))" env cfg epoch n i
      "loss_of env b (on_world count_step (snd ls))"] assms
  by (simp add: train_body_def Let_def steps_upto_count)

lemma train_batches_steps:
  assumes "steps_upto (t_world (snd ls))"
  shows "steps_upto (t_world (snd (reached (train_batches env cfg epoch n i bs ls))))"
  using assms by (rule train_batches_reached) (rule train_body_steps)

lemma reached_train:
  "reached (train env cfg trl epoch st) =
     (case train_batches env cfg epoch (length (trl epoch)) 0 (trl epoch)
             (AverageMeter, epoch_start epoch st) of
        Raised e ls \<Rightarrow> snd ls
      | Ok ls \<Rightarrow>
          (case epoch_end_save cfg epoch (snd ls) of
             Raised e s \<Rightarrow> s
           | Ok s \<Rightarrow> epoch_finish (fst ls) s))"
  by (simp add: train_def Let_def split: result.splits)

lemma train_steps:
  assumes "steps_upto (t_world st)"
  shows "steps_upto (t_world (reached (train env cfg trl epoch st)))"
proof -
  let ?r = "train_batches env cfg epoch (length (trl epoch)) 0 (trl epoch)
             (AverageMeter, epoch_start epoch st)"
  from assms have "steps_upto (t_world (snd (AverageMeter, epoch_start epoch st)))"
    by (simp add: steps_upto_def)
  then have r: "steps_upto (t_world (snd (reached ?r)))" by (rule train_batches_steps)
  show ?thesis
  proof (cases ?r)
    case (Raised e ls)
    with r show ?thesis by (simp add: reached_train)
  next
    case (Ok ls)
    with r have ls: "steps_upto (t_world (snd ls))" by simp
    then have s: "steps_upto (t_world (reached (epoch_end_save cfg epoch (snd ls))))"
      by (rule steps_upto_cong [rotated 2]) (simp_all add: epoch_end_save_reached)
    show ?thesis
    proof (cases "epoch_end_save cfg epoch (snd ls)")
      case (Raised e s')
      with s Ok show ?thesis by (simp add: reached_train)
    next
      case (Ok s')
      with s have "steps_upto (t_world (epoch_finish (fst ls) s'))"
        by (simp add: steps_upto_def)
      with Ok \<open>?r = Ok ls\<close> show ?thesis by (simp add: reached_train)
    qed
  qed
qed

lemma validation_logged:
  "steps_tagged ''train'' (logged (t_world (reached (validation env cfg vl epoch st))))
     = steps_tagged ''train'' (logged (t_world st))"
proof -
  let ?r = "validation_batches env cfg epoch 0 (vl epoch)
      (new_vmeters, st\<lparr>t_model := (t_model st)\<lparr>training := False\<rparr>\<rparr>)"
  from validation_batches_frame [of env cfg epoch 0 "vl epoch"
      "(new_vmeters, st\<lparr>t_model := (t_model st)\<lparr>training := False\<rparr>\<rparr>)"]
  show ?thesis
    by (cases ?r) (simp_all add: validation_def validation_finish_def)
qed

lemma validation_steps:
  assumes "steps_upto (t_world st)"
  shows "steps_upto (t_world (reached (validation env cfg vl epoch st)))"
  using assms by (rule steps_upto_cong [rotated 2]) (simp_all add: validation_logged validation_frame)

text \<open>An invariant of the epoch loop: what \<open>train\<close> and \<open>validation\<close> preserve holds
  in the state the loop reaches.\<close>

lemma epoch_loop_reached:
  assumes "Q st"
    and "\<And>e s. Q s \<Longrightarrow> Q (reached (train env cfg trl e s))"
    and "\<And>e v s. Q s \<Longrightarrow> Q (reached (validation env cfg v e s))"
  shows "Q (reached (epoch_loop env cfg trl valset vl es st))"
  using assms(1)
proof (induction es arbitrary: st)
  case Nil
  then show ?case by simp
next
  case (Cons e es)
  from assms(2) [OF Cons.prems] have q: "Q (reached (train env cfg trl e st))" .
  show ?case
  proof (cases "train env cfg trl e st")
    case (Raised x s)
    with q show ?thesis by simp
  next
    case (Ok s1)
    with q have q1: "Q s1" by simp
    show ?thesis
    proof (cases "truthy valset")
      case False
      with Ok Cons.IH [OF q1] show ?thesis by simp
    next
      case True
      show ?thesis
      proof (cases vl)
        case None
        with True Ok q1 show ?thesis by simp
      next
        case (Some v)
        from assms(3) [OF q1] have q2: "Q (reached (validation env cfg v e s1))" .
        show ?thesis
        proof (cases "validation env cfg v e s1")
          case (Raised x s)
          with q2 True Some Ok show ?thesis by simp
        next
          case (Ok s2)
          with q2 have "Q s2" by simp
          from Cons.IH [OF this] Ok True Some \<open>train env cfg trl e st = Ok s1\<close>
          show ?thesis by simp
        qed
      qed
    qed
  qed
qed

lemma epoch_loop_steps:
  assumes "steps_upto (t_world st)"
  shows "steps_upto (t_world (reached (epoch_loop env cfg trl valset vl es st)))"
  using assms by (rule epoch_loop_reached) (simp_all add: train_steps validation_steps)

text \<open>The counter after the loops that return.\<close>

lemma train_batches_count:
  assumes "train_batches env cfg epoch n i bs ls = Ok ls'"
  shows "train_step (t_world (snd ls')) = train_step (t_world (snd ls)) + length bs"
  using assms
proof (induction bs arbitrary: i ls)
  case Nil
  then show ?case by simp
next
  case (Cons b bs)
  from Cons.prems obtain ls1 where 1: "train_body env cfg epoch n i b ls = Ok ls1"
    and 2: "train_batches env cfg epoch n (Suc i) bs ls1 = Ok ls'"
    by (auto split: result.splits)
  from train_body_reached [of env cfg epoch n i b ls] 1
  have "train_step (t_world (snd ls1)) = train_step (t_world (snd ls)) + 1" by simp
  with Cons.IH [OF 2] show ?case by simp
qed

lemma train_count:
  assumes "train env cfg trl epoch st = Ok st'"
  shows "train_step (t_world st') = train_step (t_world st) + length (trl epoch)"
proof -
  from assms obtain ls s where
    1: "train_batches env cfg epoch (length (trl epoch)) 0 (trl epoch)
       (AverageMeter, epoch_start epoch st) = Ok ls"
    and 2: "epoch_end_save cfg epoch (snd ls) = Ok s"
    and 3: "st' = epoch_finish (fst ls) s"
    by (rule train_Ok)
  from epoch_end_save_reached [of cfg epoch "snd ls"] 2
  have "train_step (t_world s) = train_step (t_world (snd ls))" by simp
  with train_batches_count [OF 1] 3 show ?thesis by simp
qed

lemma epoch_loop_count:
  assumes "epoch_loop env cfg trl valset vl es st = Ok st'"
  shows "train_step (t_world st') = train_step (t_world st) + sum_list (map (\<lambda>e. length (trl e)) es)"
  using assms
proof (induction es arbitrary: st)
  case Nil
  then show ?case by simp
next
  case (Cons e es)
  from Cons.prems obtain s1 s2 where 1: "train env cfg trl e st = Ok s1"
    and 2: "s2 = s1 \<or> (\<exists>v. s2 = reached (validation env cfg v e s1))"
    and 3: "epoch_loop env cfg trl valset vl es s2 = Ok st'"
    by (rule epoch_loop_Cons_Ok)
  from 2 have "train_step (t_world s2) = train_step (t_world s1)"
    by (auto simp: validation_frame)
  with train_count [OF 1] Cons.IH [OF 3] show ?case by simp
qed

subsection \<open>Checkpoint names\<close>

lemma digit_char_not_d: "d < 10 \<Longrightarrow> digit_char d \<noteq> CHR ''d''"
proof -
  assume "d < 10"
  then have "d \<in> {0, 1, 2, 3, 4, 5, 6, 7, 8, 9}" by auto
  then show ?thesis by (auto simp: digit_char_def)
qed

lemma show_nat_last: "\<exists>ds. show_nat n = ds @ [digit_char (n mod 10)]"
  by (subst show_nat.simps) auto

lemma show_nat_not_end: "pre @ ''_'' @ show_nat n \<noteq> pre' @ ''_end''"
proof
  assume eq: "pre @ ''_'' @ show_nat n = pre' @ ''_end''"
  from show_nat_last [of n] obtain ds where ds: "show_nat n = ds @ [digit_char (n mod 10)]" ..
  from eq have "(pre @ ''_'' @ ds) @ [digit_char (n mod 10)] = (pre' @ ''_en'') @ [CHR ''d'']"
    by (simp add: ds)
  then have "digit_char (n mod 10) = CHR ''d''"
    by (simp only: append1_eq_conv)
  with digit_char_not_d [of "n mod 10"] show False by simp
qed

lemma path_join_cases:
  "path_join d b = b \<or> path_join d b = d @ b \<or> path_join d b = d @ ''/'' @ b"
  by (simp add: path_join_def)

lemma save_path_of_shape:
  "\<exists>pre. save_path_of cfg m epoch label = pre @ ''_'' @ label @ ''.pth''"
proof -
  let ?n = "''textsnake_'' @ backbone m @ ''_'' @ show_int epoch"
  let ?d = "experiment_dir cfg"
  have n: "checkpoint_name (backbone m) epoch label = ?n @ ''_'' @ label @ ''.pth''"
    by (simp add: checkpoint_name_def)
  from path_join_cases [of ?d "checkpoint_name (backbone m) epoch label"]
  consider "save_path_of cfg m epoch label = ?n @ ''_'' @ label @ ''.pth''"
    | "save_path_of cfg m epoch label = (?d @ ?n) @ ''_'' @ label @ ''.pth''"
    | "save_path_of cfg m epoch label = (?d @ ''/'' @ ?n) @ ''_'' @ label @ ''.pth''"
    unfolding save_path_of_def n by auto
  then show ?thesis by cases blast+
qed

lemma end_path_is_end: "suffix ''_end.pth'' (save_path_of cfg m epoch ''end'')"
proof -
  from save_path_of_shape [of cfg m epoch "''end''"]
  obtain pre where "save_path_of cfg m epoch ''end'' = pre @ ''_end.pth''" by auto
  then show ?thesis by (simp add: suffix_def)
qed

lemma iter_path_not_end: "\<not> suffix ''_end.pth'' (save_path_of cfg m epoch (show_nat i))"
proof
  assume "suffix ''_end.pth'' (save_path_of cfg m epoch (show_nat i))"
  then obtain pre' where 1: "save_path_of cfg m epoch (show_nat i) = pre' @ ''_end.pth''"
    by (auto simp: suffix_def)
  from save_path_of_shape [of cfg m epoch "show_nat i"]
  obtain pre where 2: "save_path_of cfg m epoch (show_nat i) = pre @ ''_'' @ show_nat i @ ''.pth''"
    by auto
  from 1 2 have "(pre @ ''_'' @ show_nat i) @ ''.pth'' = (pre' @ ''_end'') @ ''.pth''" by simp
  then have "pre @ ''_'' @ show_nat i = pre' @ ''_end''" by (simp only: append_same_eq)
  with show_nat_not_end show False by blast
qed

lemma end_tagged_simps [simp]:
  "end_tagged [] = []"
  "end_tagged ((p, c) # cks) = (if suffix ''_end.pth'' p then [ck_epoch c] else []) @ end_tagged cks"
  by (simp_all add: end_tagged_def)

subsection \<open>Progress lines and end-tagged checkpoints of the loops that return\<close>

lemma train_actions_Ok:
  assumes "train_actions env cfg epoch n i l st = Ok st'"
  obtains s1 s2 s3 where "maybe_visualize cfg i ''train'' st = Ok s1"
    and "train_display env cfg epoch n i l s1 = Ok s2"
    and "train_save cfg epoch i s2 = Ok s3"
    and "train_log cfg i l s3 = Ok st'"
  using assms by (auto simp: train_actions_def and_then_Ok)

lemma train_actions_emits:
  assumes "train_actions env cfg epoch n i l st = Ok st'"
  shows "progress_iters (console (t_world st')) =
           progress_iters (console (t_world st)) @ (if int i mod display_freq cfg = 0 then [i] else [])"
    and "end_tagged (saved (t_world st')) = end_tagged (saved (t_world st))"
proof -
  from assms obtain s1 s2 s3 where 1: "maybe_visualize cfg i ''train'' st = Ok s1"
    and 2: "train_display env cfg epoch n i l s1 = Ok s2"
    and 3: "train_save cfg epoch i s2 = Ok s3"
    and 4: "train_log cfg i l s3 = Ok st'"
    by (rule train_actions_Ok)
  from maybe_visualize_reached [of cfg i "''train''" st] 1
  have a: "console (t_world s1) = console (t_world st)" "saved (t_world s1) = saved (t_world st)"
    by simp_all
  from train_display_Ok [OF 2]
  have b: "progress_iters (console (t_world s2)) =
             progress_iters (console (t_world s1)) @ (if int i mod display_freq cfg = 0 then [i] else [])"
    "saved (t_world s2) = saved (t_world s1)"
    by auto
  from train_save_Ok [OF 3]
  have c: "progress_iters (console (t_world s3)) = progress_iters (console (t_world s2))"
    "end_tagged (saved (t_world s3)) = end_tagged (saved (t_world s2))"
    by (auto simp: iter_path_not_end)
  from train_log_reached [of cfg i l s3] 4
  have d: "console (t_world st') = console (t_world s3)" "saved (t_world st') = saved (t_world s3)"
    by simp_all
  show "progress_iters (console (t_world st')) =
           progress_iters (console (t_world st)) @ (if int i mod display_freq cfg = 0 then [i] else [])"
    by (simp add: a b c d)
  show "end_tagged (saved (t_world st')) = end_tagged (saved (t_world st))"
    by (simp add: a b c d)
qed

lemma train_body_emits:
  assumes "train_body env cfg epoch n i b ls = Ok ls'"
  shows "progress_iters (console (t_world (snd ls'))) =
           progress_iters (console (t_world (snd ls)))
             @ (if int i mod display_freq cfg = 0 then [i] else [])"
    and "end_tagged (saved (t_world (snd ls'))) = end_tagged (saved (t_world (snd ls)))"
proof -
  from assms have "train_actions env cfg epoch n i (loss_of env b (on_world count_step (snd ls)))
      (optimise env b (on_world count_step (snd ls))) = Ok (snd ls')"
    by (auto simp: train_body_def Let_def split: result.splits)
  from train_actions_emits [OF this]
  show "progress_iters (console (t_world (snd ls'))) =
           progress_iters (console (t_world (snd ls)))
             @ (if int i mod display_freq cfg = 0 then [i] else [])"
    and "end_tagged (saved (t_world (snd ls'))) = end_tagged (saved (t_world (snd ls)))"
    by simp_all
qed

lemma train_batches_emits:
  assumes "train_batches env cfg epoch n i bs ls = Ok ls'"
  shows "progress_iters (console (t_world (snd ls'))) =
           progress_iters (console (t_world (snd ls)))
             @ filter (\<lambda>k. int k mod display_freq cfg = 0) [i..<i + length bs]
         \<and> end_tagged (saved (t_world (snd ls'))) = end_tagged (saved (t_world (snd ls)))"
  using assms
proof (induction bs arbitrary: i ls)
  case Nil
  then show ?case by simp
next
  case (Cons b bs)
  from Cons.prems obtain ls1 where 1: "train_body env cfg epoch n i b ls = Ok ls1"
    and 2: "train_batches env cfg epoch n (Suc i) bs ls1 = Ok ls'"
    by (auto split: result.splits)
  have "i < i + length (b # bs)" by simp
  from upt_conv_Cons [OF this]
  have "[i..<i + length (b # bs)] = i # [Suc i..<Suc i + length bs]" by simp
  with train_body_emits [OF 1] Cons.IH [OF 2] show ?case by simp
qed

lemma train_emits:
  assumes "train env cfg trl epoch st = Ok st'"
  shows "progress_iters (console (t_world st')) =
           progress_iters (console (t_world st))
             @ filter (\<lambda>k. int k mod display_freq cfg = 0) [0..<length (trl epoch)]"
    and "end_tagged (saved (t_world st')) =
           (if epoch mod save_freq cfg = 0 then [epoch] else []) @ end_tagged (saved (t_world st))"
proof -
  from assms obtain ls s where
    1: "train_batches env cfg epoch (length (trl epoch)) 0 (trl epoch)
       (AverageMeter, epoch_start epoch st) = Ok ls"
    and 2: "epoch_end_save cfg epoch (snd ls) = Ok s"
    and 3: "st' = epoch_finish (fst ls) s"
    by (rule train_Ok)
  from train_batches_emits [OF 1]
  have a: "progress_iters (console (t_world (snd ls))) =
           progress_iters (console (t_world st))
             @ filter (\<lambda>k. int k mod display_freq cfg = 0) [0..<length (trl epoch)]"
    "end_tagged (saved (t_world (snd ls))) = end_tagged (saved (t_world st))"
    by simp_all
  from epoch_end_save_Ok [OF 2]
  have b: "progress_iters (console (t_world s)) = progress_iters (console (t_world (snd ls)))"
    "end_tagged (saved (t_world s)) =
       (if epoch mod save_freq cfg = 0 then [epoch] else []) @ end_tagged (saved (t_world (snd ls)))"
    by (auto simp: end_path_is_end)
  show "progress_iters (console (t_world st')) =
           progress_iters (console (t_world st))
             @ filter (\<lambda>k. int k mod display_freq cfg = 0) [0..<length (trl epoch)]"
    by (simp add: 3 a b)
  show "end_tagged (saved (t_world st')) =
           (if epoch mod save_freq cfg = 0 then [epoch] else []) @ end_tagged (saved (t_world st))"
    by (simp add: 3 a b)
qed

lemma epoch_loop_end_tagged:
  assumes "epoch_loop env cfg trl valset vl es st = Ok st'"
  shows "end_tagged (saved (t_world st')) =
           rev (filter (\<lambda>e. e mod save_freq cfg = 0) es) @ end_tagged (saved (t_world st))"
  using assms
proof (induction es arbitrary: st)
  case Nil
  then show ?case by simp
next
  case (Cons e es)
  from Cons.prems obtain s1 s2 where 1: "train env cfg trl e st = Ok s1"
    and 2: "s2 = s1 \<or> (\<exists>v. s2 = reached (validation env cfg v e s1))"
    and 3: "epoch_loop env cfg trl valset vl es s2 = Ok st'"
    by (rule epoch_loop_Cons_Ok)
  from 2 have "saved (t_world s2) = saved (t_world s1)"
    by (auto simp: validation_frame)
  with train_emits(2) [OF 1] Cons.IH [OF 3] show ?case by simp
qed

subsection \<open>The text logs are only appended to\<close>

lemma appends_refl: "appends S P fs fs"
  by (simp add: appends_def)

lemma appends_same: "fs' = fs \<Longrightarrow> appends S P fs0 fs \<Longrightarrow> appends S P fs0 fs'"
  by simp

lemma appends_trans:
  assumes "appends S P a b" and "appends S P b c"
  shows "appends S P a c"
  unfolding appends_def
proof
  fix p
  from assms(1) obtain n1 where 1: "b p = a p @ n1" "list_all P n1" "p \<notin> S \<longrightarrow> n1 = []"
    unfolding appends_def by blast
  from assms(2) obtain n2 where 2: "c p = b p @ n2" "list_all P n2" "p \<notin> S \<longrightarrow> n2 = []"
    unfolding appends_def by blast
  from 1 2 have "c p = a p @ (n1 @ n2) \<and> list_all P (n1 @ n2) \<and> (p \<notin> S \<longrightarrow> n1 @ n2 = [])"
    by simp
  then show "\<exists>new. c p = a p @ new \<and> list_all P new \<and> (p \<notin> S \<longrightarrow> new = [])" ..
qed

lemma appends_append_file:
  assumes "q \<in> S" and "P s"
  shows "appends S P (files w) (files (appended q s w))"
  unfolding appends_def
proof
  fix p
  show "\<exists>new. files (appended q s w) p = files w p @ new \<and> list_all P new
          \<and> (p \<notin> S \<longrightarrow> new = [])"
  proof (cases "p = q")
    case True
    with assms have "files (appended q s w) p = files w p @ [s] \<and> list_all P [s]
          \<and> (p \<notin> S \<longrightarrow> [s] = [])" by simp
    then show ?thesis ..
  next
    case False
    then have "files (appended q s w) p = files w p @ [] \<and> list_all P []
          \<and> (p \<notin> S \<longrightarrow> [] = ([]::string list))" by simp
    then show ?thesis ..
  qed
qed

lemma appends_foldl:
  assumes "list_all (\<lambda>nv. log_path cfg (fst nv) \<in> S \<and> P (f (snd nv))) xs"
  shows "appends S P (files w)
           (files (foldl (\<lambda>w' (name, v). appended (log_path cfg name) (f v) w') w xs))"
  using assms
proof (induction xs arbitrary: w)
  case Nil
  show ?case by (simp add: appends_refl)
next
  case (Cons x xs)
  obtain name v where x: "x = (name, v)" by (cases x)
  from Cons.prems x have a: "log_path cfg name \<in> S" "P (f v)" by simp_all
  have "appends S P (files w) (files (appended (log_path cfg name) (f v) w))"
    using a by (rule appends_append_file)
  moreover from Cons.prems have "appends S P (files (appended (log_path cfg name) (f v) w))
      (files (foldl (\<lambda>w' (name, v). appended (log_path cfg name) (f v) w')
         (appended (log_path cfg name) (f v) w) xs))"
    by (intro Cons.IH) simp
  ultimately show ?case by (simp add: x appends_trans)
qed

lemma appends_wrote_logs:
  assumes "\<And>v. P (log_record env epoch mid v)"
  shows "appends (log_paths cfg) P (files w) (files (wrote_logs env cfg epoch mid l w))"
  unfolding wrote_logs_def
  by (rule appends_foldl) (simp add: log_values_def log_paths_def assms)

lemma train_display_appends:
  "appends (log_paths cfg) (training_record env epoch) (files (t_world st))
     (files (t_world (reached (train_display env cfg epoch n i l st))))"
proof -
  have "training_record env epoch (log_record env epoch (show_nat i) v)" for v
    unfolding training_record_def by blast
  then have "appends (log_paths cfg) (training_record env epoch) (files (t_world st))
     (files (wrote_logs env cfg epoch (show_nat i) l (print (Progress i n (total l) l) (t_world st))))"
    using appends_wrote_logs [of "training_record env epoch" env epoch "show_nat i" cfg
        "print (Progress i n (total l) l) (t_world st)" l]
    by simp
  with train_display_cases [of env cfg epoch n i l st] show ?thesis
    by (auto simp: appends_refl)
qed

lemma validation_display_appends:
  "appends (log_paths cfg) (validation_record env epoch) (files (t_world st))
     (files (t_world (reached (validation_display env cfg epoch i l st))))"
proof -
  have "validation_record env epoch (log_record env epoch ''validation'' v)" for v
    unfolding validation_record_def by blast
  then have "appends (log_paths cfg) (validation_record env epoch) (files (t_world st))
     (files (wrote_logs env cfg epoch ''validation'' l
        (print (Validation_progress (total l) l) (t_world st))))"
    using appends_wrote_logs [of "validation_record env epoch" env epoch "''validation''" cfg
        "print (Validation_progress (total l) l) (t_world st)" l]
    by simp
  with validation_display_cases [of env cfg epoch i l st] show ?thesis
    by (auto simp: appends_refl)
qed

lemma train_actions_appends:
  assumes "appends (log_paths cfg) (training_record env epoch) fs0 (files (t_world st))"
  shows "appends (log_paths cfg) (training_record env epoch) fs0
           (files (t_world (reached (train_actions env cfg epoch n i l st))))"
  (is "?Q (reached (train_actions env cfg epoch n i l st))")
  unfolding train_actions_def
proof (intro reached_and_then [where Q = ?Q])
  show "?Q (reached (maybe_visualize cfg i ''train'' st))"
    using assms by (simp add: maybe_visualize_reached)
next
  fix s assume "?Q s"
  with train_display_appends [of cfg env epoch s n i l]
  show "?Q (reached (train_display env cfg epoch n i l s))"
    by (blast intro: appends_trans)
next
  fix s assume "?Q s" then show "?Q (reached (train_save cfg epoch i s))"
    by (simp add: train_save_reached)
next
  fix s assume "?Q s" then show "?Q (reached (train_log cfg i l s))"
    by (simp add: train_log_reached)
qed

lemma train_body_appends:
  assumes "appends (log_paths cfg) (training_record env epoch) fs0 (files (t_world (snd ls)))"
  shows "appends (log_paths cfg) (training_record env epoch) fs0
           (files (t_world (snd (reached (train_body env cfg epoch n i b ls)))))"
  using train_actions_appends [of cfg env epoch fs0
      "optimise env b (on_world count_step (snd ls))" n i
      "loss_of env b (on_world count_step (snd ls))"] assms
  by (simp add: train_body_def Let_def)

lemma train_appends:
  "appends (log_paths cfg) (training_record env epoch) (files (t_world st))
     (files (t_world (reached (train env cfg trl epoch st))))"
proof -
  let ?A = "appends (log_paths cfg) (training_record env epoch) (files (t_world st))"
  let ?r = "train_batches env cfg epoch (length (trl epoch)) 0 (trl epoch)
             (AverageMeter, epoch_start epoch st)"
  have "?A (files (t_world (snd (AverageMeter, epoch_start epoch st))))"
    by (simp add: appends_refl)
  then have r: "?A (files (t_world (snd (reached ?r))))"
    by (rule train_batches_reached) (rule train_body_appends)
  show ?thesis
  proof (cases ?r)
    case (Raised e ls)
    with r show ?thesis by (simp add: reached_train)
  next
    case (Ok ls)
    with r have ls: "?A (files (t_world (reached (epoch_end_save cfg epoch (snd ls)))))"
      by (simp add: epoch_end_save_reached)
    show ?thesis
    proof (cases "epoch_end_save cfg epoch (snd ls)")
      case (Raised e s')
      with ls Ok show ?thesis by (simp add: reached_train)
    next
      case (Ok s')
      with ls \<open>?r = Ok ls\<close> show ?thesis by (simp add: reached_train)
    qed
  qed
qed

lemma validation_actions_appends:
  assumes "appends (log_paths cfg) (validation_record env epoch) fs0 (files (t_world st))"
  shows "appends (log_paths cfg) (validation_record env epoch) fs0
           (files (t_world (reached (validation_actions env cfg epoch i l st))))"
  (is "?Q (reached (validation_actions env cfg epoch i l st))")
  unfolding validation_actions_def
proof (intro reached_and_then [where Q = ?Q])
  show "?Q (reached (maybe_visualize cfg i ''val'' st))"
    using assms by (simp add: maybe_visualize_reached)
next
  fix s assume "?Q s"
  with validation_display_appends [of cfg env epoch s i l]
  show "?Q (reached (validation_display env cfg epoch i l s))"
    by (blast intro: appends_trans)
qed

lemma validation_body_appends:
  assumes "appends (log_paths cfg) (validation_record env epoch) fs0 (files (t_world (snd ms)))"
  shows "appends (log_paths cfg) (validation_record env epoch) fs0
           (files (t_world (snd (reached (validation_body env cfg epoch i b ms)))))"
  using validation_actions_appends [of cfg env epoch fs0 "snd ms" i "loss_of env b (snd ms)"] assms
  by (simp add: validation_body_def Let_def)

lemma validation_appends:
  "appends (log_paths cfg) (validation_record env epoch) (files (t_world st))
     (files (t_world (reached (validation env cfg vl epoch st))))"
proof -
  let ?A = "appends (log_paths cfg) (validation_record env epoch) (files (t_world st))"
  let ?r = "validation_batches env cfg epoch 0 (vl epoch)
      (new_vmeters, st\<lparr>t_model := (t_model st)\<lparr>training := False\<rparr>\<rparr>)"
  have "?A (files (t_world (snd (new_vmeters, st\<lparr>t_model := (t_model st)\<lparr>training := False\<rparr>\<rparr>))))"
    by (simp add: appends_refl)
  then have r: "?A (files (t_world (snd (reached ?r))))"
    by (rule validation_batches_reached) (rule validation_body_appends)
  then show ?thesis
    by (cases ?r) (simp_all add: validation_def validation_finish_def)
qed

subsection \<open>The epoch loop without a validation set\<close>

lemma epoch_loop_no_valset:
  "\<not> truthy valset \<Longrightarrow>
   epoch_loop env cfg trl valset vl es st = train_epochs env cfg trl es st"
  by (induction es arbitrary: st) (simp_all split: result.splits)

lemma train_epochs_reached:
  assumes "Q st"
    and "\<And>e s. Q s \<Longrightarrow> Q (reached (train env cfg trl e s))"
  shows "Q (reached (train_epochs env cfg trl es st))"
  using assms(1)
proof (induction es arbitrary: st)
  case Nil
  then show ?case by simp
next
  case (Cons e es)
  from assms(2) [OF Cons.prems] have q: "Q (reached (train env cfg trl e st))" .
  show ?case
  proof (cases "train env cfg trl e st")
    case (Raised x s)
    with q show ?thesis by simp
  next
    case (Ok s1)
    with q Cons.IH [of s1] show ?thesis by simp
  qed
qed

text \<open>\<open>train\<close> prints no validation line and pushes no scalars tagged \<open>val\<close>.\<close>

lemma train_log_val:
  "steps_tagged ''val'' (logged (t_world (reached (train_log cfg i l st))))
     = steps_tagged ''val'' (logged (t_world st))"
  using train_log_cases [of cfg i l st] by auto

lemma train_actions_val:
  "val_traces (t_world (reached (train_actions env cfg epoch n i l st))) = val_traces (t_world st)"
  (is "?Q (reached (train_actions env cfg epoch n i l st))")
  unfolding train_actions_def
proof (intro reached_and_then [where Q = ?Q])
  show "?Q (reached (maybe_visualize cfg i ''train'' st))"
    by (simp add: val_traces_def maybe_visualize_reached)
next
  fix s assume "?Q s" then show "?Q (reached (train_display env cfg epoch n i l s))"
    by (simp add: val_traces_def train_display_reached)
next
  fix s assume "?Q s" then show "?Q (reached (train_save cfg epoch i s))"
    by (simp add: val_traces_def train_save_reached)
next
  fix s assume "?Q s" then show "?Q (reached (train_log cfg i l s))"
    by (simp add: val_traces_def train_log_reached train_log_val)
qed

lemma train_body_val:
  "val_traces (t_world (snd (reached (train_body env cfg epoch n i b ls))))
     = val_traces (t_world (snd ls))"
  using train_actions_val [of env cfg epoch n i
      "loss_of env b (on_world count_step (snd ls))"
      "optimise env b (on_world count_step (snd ls))"]
  by (simp add: train_body_def Let_def val_traces_def)

lemma train_val:
  "val_traces (t_world (reached (train env cfg trl epoch st))) = val_traces (t_world st)"
proof -
  let ?r = "train_batches env cfg epoch (length (trl epoch)) 0 (trl epoch)
             (AverageMeter, epoch_start epoch st)"
  have "val_traces (t_world (snd (AverageMeter, epoch_start epoch st))) = val_traces (t_world st)"
    by (simp add: val_traces_def)
  then have r: "val_traces (t_world (snd (reached ?r))) = val_traces (t_world st)"
    by (rule train_batches_reached) (simp add: train_body_val)
  show ?thesis
  proof (cases ?r)
    case (Raised e ls)
    with r show ?thesis by (simp add: reached_train)
  next
    case (Ok ls)
    with r have ls: "val_traces (t_world (reached (epoch_end_save cfg epoch (snd ls))))
        = val_traces (t_world st)"
      by (simp add: val_traces_def epoch_end_save_reached)
    show ?thesis
    proof (cases "epoch_end_save cfg epoch (snd ls)")
      case (Raised e s')
      with ls Ok show ?thesis by (simp add: reached_train)
    next
      case (Ok s')
      with ls \<open>?r = Ok ls\<close> show ?thesis by (simp add: reached_train val_traces_def)
    qed
  qed
qed

lemma train_epochs_val:
  "val_traces (t_world (reached (train_epochs env cfg trl es st))) = val_traces (t_world st)"
  by (rule train_epochs_reached) (simp_all add: train_val)

subsection \<open>Invariants of \<open>main\<close>\<close>

lemma load_model_cases:
  "(\<exists>e. load_model m p w = Raised e (m, print (Loading_from p) w)) \<or>
   (\<exists>x. load_model m p w = Ok (m\<lparr>params := x\<rparr>, print (Loading_from p) w))"
  by (cases "map_of (saved w) p") (auto simp: load_model_def Let_def)

lemma main_training_invariant:
  fixes Q :: "('p, 'o) world \<Rightarrow> bool"
  assumes "Q (snd Lw)"
    and "\<And>l w. Q w \<Longrightarrow> validation_lines [l] = [] \<Longrightarrow> Q (print l w)"
    and "\<And>r w. Q w \<Longrightarrow> Q (w\<lparr>global_lr := r\<rparr>)"
    and "\<And>st. Q (t_world st) \<Longrightarrow>
           Q (t_world (reached (epoch_loop env cfg trl
                (case l_valset (fst Lw) of None \<Rightarrow> None | Some v \<Rightarrow> v) (l_val_loader (fst Lw))
                (py_range (start_epoch cfg) (max_epoch cfg)) st)))"
  shows "Q (snd (reached (main_training env cfg trl m Lw)))"
proof -
  let ?opt = "\<lparr>opt_lr = lr cfg, opt_state = new_adam env (params m)\<rparr>"
  let ?st = "\<lparr>t_model = m, t_optimizer = ?opt, t_scheduler = choose_scheduler cfg ?opt,
     t_world = print Start_training ((snd Lw)\<lparr>global_lr := Some (lr cfg)\<rparr>)\<rparr>"
  let ?r = "epoch_loop env cfg trl (case l_valset (fst Lw) of None \<Rightarrow> None | Some v \<Rightarrow> v)
      (l_val_loader (fst Lw)) (py_range (start_epoch cfg) (max_epoch cfg)) ?st"
  from assms(1) have "Q (t_world ?st)" by (simp add: assms(2) assms(3))
  from assms(4) [OF this] have r: "Q (t_world (reached ?r))" .
  show ?thesis
  proof (cases ?r)
    case (Raised e s)
    with r show ?thesis by (simp add: main_training_def Let_def)
  next
    case (Ok s)
    with r have "Q (print End_line (t_world s))" by (simp add: assms(2))
    with Ok show ?thesis by (simp add: main_training_def Let_def)
  qed
qed

lemma main_model_invariant:
  fixes Q :: "('p, 'o) world \<Rightarrow> bool"
  assumes "Q (snd Lw)"
    and "\<And>l w. Q w \<Longrightarrow> validation_lines [l] = [] \<Longrightarrow> Q (print l w)"
    and "\<And>r w. Q w \<Longrightarrow> Q (w\<lparr>global_lr := r\<rparr>)"
    and "\<And>st. Q (t_world st) \<Longrightarrow>
           Q (t_world (reached (epoch_loop env cfg trl
                (case l_valset (fst Lw) of None \<Rightarrow> None | Some v \<Rightarrow> v) (l_val_loader (fst Lw))
                (py_range (start_epoch cfg) (max_epoch cfg)) st)))"
  shows "Q (snd (reached (main_model env cfg trl Lw)))"
proof (cases "resume_path cfg")
  case None
  have "Q (snd (reached (main_training env cfg trl m (L, snd Lw))))"
    if "l_valset L = l_valset (fst Lw)" "l_val_loader L = l_val_loader (fst Lw)" for m L
  proof (rule main_training_invariant [where Q = Q])
    show "Q (snd (L, snd Lw))" using assms(1) by simp
    show "Q (print l w')" if "Q w'" "validation_lines [l] = []" for l and w' :: "('p, 'o) world"
      using that by (rule assms(2))
    show "Q (w'\<lparr>global_lr := r\<rparr>)" if "Q w'" for r and w' :: "('p, 'o) world"
      using that by (rule assms(3))
    show "Q (t_world (reached (epoch_loop env cfg trl
                (case l_valset (fst (L, snd Lw)) of None \<Rightarrow> None | Some v \<Rightarrow> v)
                (l_val_loader (fst (L, snd Lw)))
                (py_range (start_epoch cfg) (max_epoch cfg)) st)))" if "Q (t_world st)" for st
      using assms(4) [OF that] \<open>l_valset L = l_valset (fst Lw)\<close>
        \<open>l_val_loader L = l_val_loader (fst Lw)\<close> by simp
  qed
  with None show ?thesis by (simp add: main_model_def Let_def)
next
  case (Some p)
  let ?m = "\<lparr>params = new_textnet env (net cfg), training = True,
               data_parallel = mgpu cfg, backbone = net cfg\<rparr>"
  have q: "Q (print (Loading_from p) (snd Lw))" using assms(1) by (simp add: assms(2))
  have t: "Q (snd (reached (main_training env cfg trl m (L, print (Loading_from p) (snd Lw)))))"
    if "l_valset L = l_valset (fst Lw)" "l_val_loader L = l_val_loader (fst Lw)" for m L
  proof (rule main_training_invariant [where Q = Q])
    show "Q (snd (L, print (Loading_from p) (snd Lw)))" using q by simp
    show "Q (print l w')" if "Q w'" "validation_lines [l] = []" for l and w' :: "('p, 'o) world"
      using that by (rule assms(2))
    show "Q (w'\<lparr>global_lr := r\<rparr>)" if "Q w'" for r and w' :: "('p, 'o) world"
      using that by (rule assms(3))
    show "Q (t_world (reached (epoch_loop env cfg trl
                (case l_valset (fst (L, print (Loading_from p) (snd Lw))) of
                   None \<Rightarrow> None | Some v \<Rightarrow> v)
                (l_val_loader (fst (L, print (Loading_from p) (snd Lw))))
                (py_range (start_epoch cfg) (max_epoch cfg)) st)))" if "Q (t_world st)" for st
      using assms(4) [OF that] \<open>l_valset L = l_valset (fst Lw)\<close>
        \<open>l_val_loader L = l_val_loader (fst Lw)\<close> by simp
  qed
  from load_model_cases [of ?m p "snd Lw"] show ?thesis
  proof
    assume "\<exists>e. load_model ?m p (snd Lw) = Raised e (?m, print (Loading_from p) (snd Lw))"
    then obtain e where
      "load_model ?m p (snd Lw) = Raised e (?m, print (Loading_from p) (snd Lw))" ..
    with Some q show ?thesis by (simp add: main_model_def Let_def)
  next
    assume "\<exists>x. load_model ?m p (snd Lw) = Ok (?m\<lparr>params := x\<rparr>, print (Loading_from p) (snd Lw))"
    then obtain x where
      "load_model ?m p (snd Lw) = Ok (?m\<lparr>params := x\<rparr>, print (Loading_from p) (snd Lw))" ..
    with Some t show ?thesis by (simp add: main_model_def Let_def)
  qed
qed

text \<open>What holds of the world at the start of \<open>main\<close>, and is preserved by its own
  prints, by the assignment to the module-level \<open>lr\<close> and by the epoch loop, holds of the
  world in which \<open>main\<close> ends. With the synthetic corpus the loop runs without a
  validation set.\<close>

lemma main_invariant:
  fixes Q :: "('p, 'o) world \<Rightarrow> bool"
  assumes "Q w"
    and "\<And>l w. Q w \<Longrightarrow> validation_lines [l] = [] \<Longrightarrow> Q (print l w)"
    and "\<And>r w. Q w \<Longrightarrow> Q (w\<lparr>global_lr := r\<rparr>)"
    and "\<And>trl valset vl es st.
           (dataset cfg = ''synth-text'' \<longrightarrow> \<not> truthy valset) \<Longrightarrow> Q (t_world st) \<Longrightarrow>
           Q (t_world (reached (epoch_loop env cfg trl valset vl es st)))"
  shows "Q (snd (reached (main env cfg w)))"
proof -
  have m: "Q (snd (reached (main_model env cfg trl (L, w))))"
    if "dataset cfg = ''synth-text'' \<longrightarrow> l_valset L = Some None" for trl L
  proof (rule main_model_invariant [where Q = Q])
    show "Q (snd (L, w))" using assms(1) by simp
    show "Q (print l w')" if "Q w'" "validation_lines [l] = []" for l and w' :: "('p, 'o) world"
      using that by (rule assms(2))
    show "Q (w'\<lparr>global_lr := r\<rparr>)" if "Q w'" for r and w' :: "('p, 'o) world"
      using that by (rule assms(3))
    show "Q (t_world (reached (epoch_loop env cfg trl
                (case l_valset (fst (L, w)) of None \<Rightarrow> None | Some v \<Rightarrow> v)
                (l_val_loader (fst (L, w)))
                (py_range (start_epoch cfg) (max_epoch cfg)) st)))" if "Q (t_world st)" for st
    proof (rule assms(4) [OF _ that])
      from \<open>dataset cfg = ''synth-text'' \<longrightarrow> l_valset L = Some None\<close>
      show "dataset cfg = ''synth-text'' \<longrightarrow>
         \<not> truthy (case l_valset (fst (L, w)) of None \<Rightarrow> None | Some v \<Rightarrow> v)"
        by (auto simp: truthy_def)
    qed
  qed
  show ?thesis
  proof (cases "dataset cfg = ''total-text''")
    case True
    then show ?thesis
      by (simp add: main_def select_dataset_def unbound_def Let_def m)
  next
    case False
    show ?thesis
    proof (cases "dataset cfg = ''synth-text''")
      case True
      then show ?thesis
        by (simp add: main_def select_dataset_def unbound_def Let_def m truthy_def)
    next
      case no: False
      with False assms(1) show ?thesis
        by (simp add: main_def select_dataset_def unbound_def Let_def)
    qed
  qed
qed

subsection \<open>When the loops return\<close>

lemma maybe_visualize_returns:
  "runs_through cfg \<Longrightarrow> ready cfg st \<Longrightarrow>
   \<exists>s. maybe_visualize cfg i mode st = Ok s \<and> ready cfg s"
  by (auto simp: runs_through_def ready_def maybe_visualize_def mod_is_zero_def
      split: bool.splits)

lemma train_display_returns:
  "runs_through cfg \<Longrightarrow> ready cfg st \<Longrightarrow>
   \<exists>s. train_display env cfg epoch n i l st = Ok s \<and> ready cfg s"
  by (auto simp: runs_through_def ready_def train_display_def mod_is_zero_def in_world_def
      write_logs_cases split: bool.splits)

lemma validation_display_returns:
  "runs_through cfg \<Longrightarrow> ready cfg st \<Longrightarrow>
   \<exists>s. validation_display env cfg epoch i l st = Ok s \<and> ready cfg s"
  by (auto simp: runs_through_def ready_def validation_display_def mod_is_zero_def in_world_def
      write_logs_cases split: bool.splits)

lemma save_state_returns:
  "runs_through cfg \<Longrightarrow> ready cfg st \<Longrightarrow>
   \<exists>s. save_state cfg epoch label st = Ok s \<and> ready cfg s"
  by (auto simp: runs_through_def ready_def save_state_Ok_iff)

lemma train_save_returns:
  "runs_through cfg \<Longrightarrow> ready cfg st \<Longrightarrow>
   \<exists>s. train_save cfg epoch i st = Ok s \<and> ready cfg s"
  using save_state_returns [of cfg st epoch "show_nat i"]
  by (auto simp: runs_through_def train_save_def mod_is_zero_def split: bool.splits)

lemma epoch_end_save_returns:
  "runs_through cfg \<Longrightarrow> ready cfg st \<Longrightarrow>
   \<exists>s. epoch_end_save cfg epoch st = Ok s \<and> ready cfg s"
  using save_state_returns [of cfg st epoch "''end''"]
  by (auto simp: runs_through_def epoch_end_save_def mod_is_zero_def split: bool.splits)

lemma train_log_returns:
  "runs_through cfg \<Longrightarrow> ready cfg st \<Longrightarrow>
   \<exists>s. train_log cfg i l st = Ok s \<and> ready cfg s"
  by (auto simp: runs_through_def ready_def train_log_def mod_is_zero_def split: bool.splits)

lemma train_actions_returns:
  assumes "runs_through cfg" and "ready cfg st"
  shows "\<exists>s. train_actions env cfg epoch n i l st = Ok s \<and> ready cfg s"
proof -
  from maybe_visualize_returns [OF assms, where i = i and mode = "''train''"]
  obtain s1 where 1: "maybe_visualize cfg i ''train'' st = Ok s1" "ready cfg s1" by blast
  from train_display_returns [OF assms(1) 1(2), where env = env and epoch = epoch and n = n
      and i = i and l = l]
  obtain s2 where 2: "train_display env cfg epoch n i l s1 = Ok s2" "ready cfg s2" by blast
  from train_save_returns [OF assms(1) 2(2), where epoch = epoch and i = i]
  obtain s3 where 3: "train_save cfg epoch i s2 = Ok s3" "ready cfg s3" by blast
  from train_log_returns [OF assms(1) 3(2), where i = i and l = l]
  obtain s4 where 4: "train_log cfg i l s3 = Ok s4" "ready cfg s4" by blast
  from 1 2 3 4 show ?thesis by (simp add: train_actions_def)
qed

lemma train_body_returns:
  assumes "runs_through cfg" and "ready cfg (snd ls)"
  shows "\<exists>ls'. train_body env cfg epoch n i b ls = Ok ls' \<and> ready cfg (snd ls')"
proof -
  have "ready cfg (optimise env b (on_world count_step (snd ls)))"
    using assms(2) by (simp add: ready_def)
  from train_actions_returns [OF assms(1) this, where env = env and epoch = epoch and n = n
      and i = i and l = "loss_of env b (on_world count_step (snd ls))"]
  obtain s where "train_actions env cfg epoch n i (loss_of env b (on_world count_step (snd ls)))
      (optimise env b (on_world count_step (snd ls))) = Ok s" "ready cfg s" by blast
  then show ?thesis by (simp add: train_body_def Let_def)
qed

lemma train_batches_returns:
  assumes "runs_through cfg" and "ready cfg (snd ls)"
  shows "\<exists>ls'. train_batches env cfg epoch n i bs ls = Ok ls' \<and> ready cfg (snd ls')"
  using assms(2)
proof (induction bs arbitrary: i ls)
  case Nil
  then show ?case by simp
next
  case (Cons b bs)
  from train_body_returns [OF assms(1) Cons.prems, where env = env and epoch = epoch and n = n
      and i = i and b = b]
  obtain ls1 where 1: "train_body env cfg epoch n i b ls = Ok ls1" "ready cfg (snd ls1)"
    by blast
  from Cons.IH [OF 1(2), of "Suc i"] 1(1) show ?case by simp
qed

lemma train_returns:
  assumes "runs_through cfg" and "ready cfg st"
  shows "\<exists>st'. train env cfg trl epoch st = Ok st' \<and> ready cfg st'"
proof -
  have "ready cfg (snd (AverageMeter, epoch_start epoch st))"
    using assms(2) by (simp add: ready_def)
  from train_batches_returns [OF assms(1) this, where env = env and epoch = epoch
      and n = "length (trl epoch)" and i = 0 and bs = "trl epoch"]
  obtain ls where 1: "train_batches env cfg epoch (length (trl epoch)) 0 (trl epoch)
       (AverageMeter, epoch_start epoch st) = Ok ls" "ready cfg (snd ls)" by blast
  from epoch_end_save_returns [OF assms(1) 1(2), where epoch = epoch]
  obtain s where 2: "epoch_end_save cfg epoch (snd ls) = Ok s" "ready cfg s" by blast
  from 2(2) have "ready cfg (epoch_finish (fst ls) s)" by (simp add: ready_def)
  with 1 2 show ?thesis by (simp add: train_def Let_def)
qed

lemma validation_actions_returns:
  assumes "runs_through cfg" and "ready cfg st"
  shows "\<exists>s. validation_actions env cfg epoch i l st = Ok s \<and> ready cfg s"
proof -
  from maybe_visualize_returns [OF assms, where i = i and mode = "''val''"]
  obtain s1 where 1: "maybe_visualize cfg i ''val'' st = Ok s1" "ready cfg s1" by blast
  from validation_display_returns [OF assms(1) 1(2), where env = env and epoch = epoch
      and i = i and l = l]
  obtain s2 where 2: "validation_display env cfg epoch i l s1 = Ok s2" "ready cfg s2" by blast
  from 1 2 show ?thesis by (simp add: validation_actions_def)
qed

lemma validation_batches_returns:
  assumes "runs_through cfg" and "ready cfg (snd ms)"
  shows "\<exists>ms'. validation_batches env cfg epoch i bs ms = Ok ms' \<and> ready cfg (snd ms')"
  using assms(2)
proof (induction bs arbitrary: i ms)
  case Nil
  then show ?case by simp
next
  case (Cons b bs)
  from validation_actions_returns [OF assms(1) Cons.prems, where env = env and epoch = epoch
      and i = i and l = "loss_of env b (snd ms)"]
  obtain s where s: "validation_actions env cfg epoch i (loss_of env b (snd ms)) (snd ms) = Ok s"
    "ready cfg s" by blast
  then have 1: "validation_body env cfg epoch i b ms
      = Ok (update_vmeters (fst ms) (loss_of env b (snd ms)), s)"
    by (simp add: validation_body_def Let_def)
  from Cons.IH [of "(update_vmeters (fst ms) (loss_of env b (snd ms)), s)" "Suc i"] s(2) 1
  show ?case by simp
qed

lemma validation_returns:
  assumes "runs_through cfg" and "ready cfg st"
  shows "\<exists>st'. validation env cfg vl epoch st = Ok st' \<and> ready cfg st'"
proof -
  have "ready cfg (snd (new_vmeters, st\<lparr>t_model := (t_model st)\<lparr>training := False\<rparr>\<rparr>))"
    using assms(2) by (simp add: ready_def)
  from validation_batches_returns [OF assms(1) this, where env = env and epoch = epoch and i = 0
      and bs = "vl epoch"]
  obtain ms where ms: "validation_batches env cfg epoch 0 (vl epoch)
      (new_vmeters, st\<lparr>t_model := (t_model st)\<lparr>training := False\<rparr>\<rparr>) = Ok ms"
    "ready cfg (snd ms)" by blast
  from ms(2) have "ready cfg (validation_finish epoch (fst ms) (snd ms))"
    by (simp add: ready_def validation_finish_def)
  with ms(1) show ?thesis by (simp add: validation_def)
qed

lemma epoch_loop_returns:
  assumes "runs_through cfg" and "ready cfg st"
    and "truthy valset \<longrightarrow> vl \<noteq> None"
  shows "\<exists>st'. epoch_loop env cfg trl valset vl es st = Ok st'"
  using assms(2)
proof (induction es arbitrary: st)
  case Nil
  show ?case by simp
next
  case (Cons e es)
  from train_returns [OF assms(1) Cons.prems, where env = env and trl = trl and epoch = e]
  obtain s1 where 1: "train env cfg trl e st = Ok s1" and r1: "ready cfg s1"
    by blast
  show ?case
  proof (cases "truthy valset")
    case False
    with 1 Cons.IH [OF r1] show ?thesis by simp
  next
    case True
    with assms(3) obtain v where v: "vl = Some v" by auto
    from validation_returns [OF assms(1) r1, where env = env and vl = v and epoch = e]
    obtain s2 where 2: "validation env cfg v e s1 = Ok s2" and r2: "ready cfg s2" by blast
    from Cons.IH [OF r2] 1 2 True v show ?thesis by simp
  qed
qed

subsection \<open>A run of \<open>main\<close> that returns\<close>

lemma main_training_returns:
  assumes "runs_through cfg" and "\<not> data_parallel m"
    and "experiment_dir cfg \<in> dirs (snd Lw)"
    and "truthy (case l_valset (fst Lw) of None \<Rightarrow> None | Some v \<Rightarrow> v)
           \<longrightarrow> l_val_loader (fst Lw) \<noteq> None"
  shows "\<exists>L w'. main_training env cfg trl m Lw = Ok (L, w')"
proof -
  let ?opt = "\<lparr>opt_lr = lr cfg, opt_state = new_adam env (params m)\<rparr>"
  let ?st = "\<lparr>t_model = m, t_optimizer = ?opt, t_scheduler = choose_scheduler cfg ?opt,
     t_world = print Start_training ((snd Lw)\<lparr>global_lr := Some (lr cfg)\<rparr>)\<rparr>"
  have "ready cfg ?st" using assms(2,3) by (simp add: ready_def)
  from epoch_loop_returns [OF assms(1) this, where env = env and trl = trl
      and valset = "case l_valset (fst Lw) of None \<Rightarrow> None | Some v \<Rightarrow> v"
      and vl = "l_val_loader (fst Lw)" and es = "py_range (start_epoch cfg) (max_epoch cfg)"]
    assms(4)
  obtain st' where "epoch_loop env cfg trl (case l_valset (fst Lw) of None \<Rightarrow> None | Some v \<Rightarrow> v)
      (l_val_loader (fst Lw)) (py_range (start_epoch cfg) (max_epoch cfg)) ?st = Ok st'"
    by auto
  then show ?thesis by (simp add: main_training_def Let_def)
qed

lemma main_model_returns:
  assumes "runs_through cfg"
    and "experiment_dir cfg \<in> dirs (snd Lw)"
    and "truthy (case l_valset (fst Lw) of None \<Rightarrow> None | Some v \<Rightarrow> v)
           \<longrightarrow> l_val_loader (fst Lw) \<noteq> None"
    and "case resume_path cfg of None \<Rightarrow> True | Some p \<Rightarrow> map_of (saved (snd Lw)) p \<noteq> None"
  shows "\<exists>L w'. main_model env cfg trl Lw = Ok (L, w')"
proof -
  let ?m = "\<lparr>params = new_textnet env (net cfg), training = True,
               data_parallel = mgpu cfg, backbone = net cfg\<rparr>"
  let ?L = "(fst Lw)\<lparr>l_logger := Some (path_join (log_dir cfg) (now env @ exp_name cfg)),
                    l_model := Some ?m\<rparr>"
  have t: "\<exists>L w'. main_training env cfg trl m (L', w1) = Ok (L, w')"
    if "\<not> data_parallel m" "l_valset L' = l_valset (fst Lw)"
      "l_val_loader L' = l_val_loader (fst Lw)" "dirs w1 = dirs (snd Lw)" for m L' w1
    using that assms(2,3) by (intro main_training_returns [OF assms(1)]) simp_all
  have d: "\<not> data_parallel ?m" using assms(1) by (simp add: runs_through_def)
  show ?thesis
  proof (cases "resume_path cfg")
    case None
    with t [of ?m ?L "snd Lw"] d show ?thesis by (simp add: main_model_def Let_def)
  next
    case (Some p)
    with assms(4) obtain ck where ck: "map_of (saved (snd Lw)) p = Some ck" by auto
    with d have "load_model ?m p (snd Lw)
        = Ok (?m\<lparr>params := ck_model ck\<rparr>, print (Loading_from p) (snd Lw))"
      by (simp add: load_model_def Let_def)
    with Some t [of "?m\<lparr>params := ck_model ck\<rparr>" "?L\<lparr>l_model := Some (?m\<lparr>params := ck_model ck\<rparr>)\<rparr>"
        "print (Loading_from p) (snd Lw)"] d
    show ?thesis by (simp add: main_model_def Let_def)
  qed
qed

text \<open>With one of the two dataset names, the experiment directory on disk, no checkpoint
  to resume from or one that is on disk, and settings that run through, \<open>main\<close>
  returns.\<close>

lemma main_returns:
  assumes "runs_through cfg"
    and "dataset cfg = ''total-text'' \<or> dataset cfg = ''synth-text''"
    and "experiment_dir cfg \<in> dirs w"
    and "case resume_path cfg of None \<Rightarrow> True | Some p \<Rightarrow> map_of (saved w) p \<noteq> None"
  shows "\<exists>L w'. main env cfg w = Ok (L, w')"
proof -
  have m: "\<exists>L' w'. main_model env cfg trl (L, w) = Ok (L', w')"
    if "truthy (case l_valset L of None \<Rightarrow> None | Some v \<Rightarrow> v) \<longrightarrow> l_val_loader L \<noteq> None"
    for trl L
    using that assms(3,4)
    by (intro main_model_returns [OF assms(1)]) (simp_all split: option.splits)
  from assms(2) show ?thesis
  proof
    assume "dataset cfg = ''total-text''"
    then show ?thesis
      by (auto simp: main_def select_dataset_def unbound_def Let_def truthy_def
          intro!: m split: option.splits)
  next
    assume "dataset cfg = ''synth-text''"
    then show ?thesis
      by (auto simp: main_def select_dataset_def unbound_def Let_def truthy_def
          intro!: m split: option.splits)
  qed
qed

lemma main_training_Ok:
  assumes "main_training env cfg trl m Lw = Ok (L, w')"
  obtains st st' valset vl where
    "epoch_loop env cfg trl valset vl (py_range (start_epoch cfg) (max_epoch cfg)) st = Ok st'"
    and "opt_lr (t_optimizer st) = lr cfg"
    and "t_scheduler st = choose_scheduler cfg (t_optimizer st)"
    and "l_optimizer L = Some (t_optimizer st')"
    and "l_scheduler L = Some (t_scheduler st')"
    and "saved w' = saved (t_world st')"
proof -
  let ?opt = "\<lparr>opt_lr = lr cfg, opt_state = new_adam env (params m)\<rparr>"
  let ?st = "\<lparr>t_model = m, t_optimizer = ?opt, t_scheduler = choose_scheduler cfg ?opt,
     t_world = print Start_training ((snd Lw)\<lparr>global_lr := Some (lr cfg)\<rparr>)\<rparr>"
  let ?r = "epoch_loop env cfg trl (case l_valset (fst Lw) of None \<Rightarrow> None | Some v \<Rightarrow> v)
      (l_val_loader (fst Lw)) (py_range (start_epoch cfg) (max_epoch cfg)) ?st"
  from assms obtain st' where 1: "?r = Ok st'"
    and 2: "L = bind_objects st' ((fst Lw)\<lparr>l_criterion := Some (), l_optimizer := Some ?opt,
              l_scheduler := Some (choose_scheduler cfg ?opt)\<rparr>)"
    and 3: "w' = print End_line (t_world st')"
    by (cases ?r) (simp_all add: main_training_def Let_def)
  show thesis
  proof (rule that [OF 1])
    show "opt_lr (t_optimizer ?st) = lr cfg" by simp
    show "t_scheduler ?st = choose_scheduler cfg (t_optimizer ?st)" by simp
    show "l_optimizer L = Some (t_optimizer st')" by (simp add: 2 bind_objects_def)
    show "l_scheduler L = Some (t_scheduler st')" by (simp add: 2 bind_objects_def)
    show "saved w' = saved (t_world st')" by (simp add: 3)
  qed
qed

lemma main_Ok:
  assumes "main env cfg w = Ok (L, w')"
  obtains trl m Lw where "main_training env cfg trl m Lw = Ok (L, w')"
proof -
  from assms obtain trl Lw where 1: "main_model env cfg trl Lw = Ok (L, w')"
    by (auto simp: main_def Let_def split: option.splits)
  show thesis
  proof (cases "resume_path cfg")
    case None
    with 1 that show ?thesis by (auto simp: main_model_def Let_def)
  next
    case (Some p)
    let ?m = "\<lparr>params = new_textnet env (net cfg), training = True,
               data_parallel = mgpu cfg, backbone = net cfg\<rparr>"
    from 1 Some that show ?thesis
      by (cases "load_model ?m p (snd Lw)") (auto simp: main_model_def Let_def)
  qed
qed

lemma main_training_locals:
  "l_valset (fst (reached (main_training env cfg trl m Lw))) = l_valset (fst Lw)
   \<and> l_val_loader (fst (reached (main_training env cfg trl m Lw))) = l_val_loader (fst Lw)"
proof -
  let ?opt = "\<lparr>opt_lr = lr cfg, opt_state = new_adam env (params m)\<rparr>"
  let ?st = "\<lparr>t_model = m, t_optimizer = ?opt, t_scheduler = choose_scheduler cfg ?opt,
     t_world = print Start_training ((snd Lw)\<lparr>global_lr := Some (lr cfg)\<rparr>)\<rparr>"
  let ?r = "epoch_loop env cfg trl (case l_valset (fst Lw) of None \<Rightarrow> None | Some v \<Rightarrow> v)
      (l_val_loader (fst Lw)) (py_range (start_epoch cfg) (max_epoch cfg)) ?st"
  show ?thesis
    by (cases ?r) (simp_all add: main_training_def Let_def bind_objects_def)
qed

lemma main_model_locals:
  "l_valset (fst (reached (main_model env cfg trl Lw))) = l_valset (fst Lw)
   \<and> l_val_loader (fst (reached (main_model env cfg trl Lw))) = l_val_loader (fst Lw)"
proof (cases "resume_path cfg")
  case None
  then show ?thesis by (simp add: main_model_def Let_def main_training_locals)
next
  case (Some p)
  let ?m = "\<lparr>params = new_textnet env (net cfg), training = True,
               data_parallel = mgpu cfg, backbone = net cfg\<rparr>"
  from Some show ?thesis
    by (cases "load_model ?m p (snd Lw)") (simp_all add: main_model_def Let_def main_training_locals)
qed

lemma main_synth_locals:
  assumes "dataset cfg = ''synth-text''"
  shows "l_valset (fst (reached (main env cfg w))) = Some None
     \<and> l_val_loader (fst (reached (main env cfg w))) = None"
  using assms
  by (simp add: main_def select_dataset_def unbound_def Let_def truthy_def main_model_locals)

subsection \<open>Records are single lines, in every file, over the whole run\<close>

lemma show_nat_digits: "set (show_nat n) \<subseteq> set ''0123456789''"
proof (induction n rule: show_nat.induct)
  case (1 n)
  have d: "digit_char k \<in> set ''0123456789''" if "k < 10" for k
    unfolding digit_char_def by (rule nth_mem) (use that in simp)
  show ?case
  proof (cases "n < 10")
    case True
    with d [of n] show ?thesis by (subst show_nat.simps) simp
  next
    case False
    with 1 d [of "n mod 10"] show ?thesis by (subst show_nat.simps) simp
  qed
qed

lemma show_nat_no_newline: "CHR 0x0A \<notin> set (show_nat n)"
  using show_nat_digits [of n] by auto

lemma show_int_no_newline: "CHR 0x0A \<notin> set (show_int k)"
  by (simp add: show_int_def show_nat_no_newline)

lemma log_record_single_line:
  assumes "CHR 0x0A \<notin> set (fmt4f env v)" and "CHR 0x0A \<notin> set mid"
  shows "single_line (log_record env epoch mid v)"
proof -
  have "log_record env epoch mid v = (show_int epoch @ ''_'' @ mid @ ''_'' @ fmt4f env v) @ [CHR 0x0A]"
    by (simp add: log_record_def)
  moreover have "CHR 0x0A \<notin> set (show_int epoch @ ''_'' @ mid @ ''_'' @ fmt4f env v)"
    using assms by (simp add: show_int_no_newline)
  ultimately show ?thesis
    unfolding single_line_def by (simp only: snoc_eq_iff_butlast butlast_snoc last_snoc) simp
qed

lemma log_record_of_single_line:
  assumes "\<And>v. CHR 0x0A \<notin> set (fmt4f env v)" and "log_record_of env r"
  shows "single_line r"
proof -
  from assms(2) consider epoch i v where "r = log_record env epoch (show_nat i) v"
    | epoch v where "r = log_record env epoch ''validation'' v"
    unfolding log_record_of_def training_record_def validation_record_def by blast
  then show ?thesis
  proof cases
    case 1
    with assms(1) show ?thesis by (simp add: log_record_single_line show_nat_no_newline)
  next
    case 2
    with assms(1) show ?thesis by (simp add: log_record_single_line)
  qed
qed

lemma appends_mono:
  assumes "\<And>r. P r \<Longrightarrow> P' r" and "appends S P a b"
  shows "appends S P' a b"
  unfolding appends_def
proof
  fix p
  from assms(2) obtain new where "b p = a p @ new" "list_all P new" "p \<notin> S \<longrightarrow> new = []"
    unfolding appends_def by blast
  with assms(1) have "b p = a p @ new \<and> list_all P' new \<and> (p \<notin> S \<longrightarrow> new = [])"
    by (auto simp: list_all_iff)
  then show "\<exists>new. b p = a p @ new \<and> list_all P' new \<and> (p \<notin> S \<longrightarrow> new = [])" ..
qed

lemma train_appends_any:
  assumes "appends (log_paths cfg) (log_record_of env) fs0 (files (t_world st))"
  shows "appends (log_paths cfg) (log_record_of env) fs0
           (files (t_world (reached (train env cfg trl epoch st))))"
proof -
  have "appends (log_paths cfg) (log_record_of env) (files (t_world st))
           (files (t_world (reached (train env cfg trl epoch st))))"
    by (rule appends_mono [OF _ train_appends]) (auto simp: log_record_of_def)
  with assms show ?thesis by (rule appends_trans)
qed

lemma validation_appends_any:
  assumes "appends (log_paths cfg) (log_record_of env) fs0 (files (t_world st))"
  shows "appends (log_paths cfg) (log_record_of env) fs0
           (files (t_world (reached (validation env cfg vl epoch st))))"
proof -
  have "appends (log_paths cfg) (log_record_of env) (files (t_world st))
           (files (t_world (reached (validation env cfg vl epoch st))))"
    by (rule appends_mono [OF _ validation_appends]) (auto simp: log_record_of_def)
  with assms show ?thesis by (rule appends_trans)
qed

lemma epoch_loop_appends:
  assumes "appends (log_paths cfg) (log_record_of env) fs0 (files (t_world st))"
  shows "appends (log_paths cfg) (log_record_of env) fs0
           (files (t_world (reached (epoch_loop env cfg trl valset vl es st))))"
  using assms
  by (rule epoch_loop_reached) (simp_all add: train_appends_any validation_appends_any)

lemma main_appends:
  fixes env :: "('b, 'p, 'o) env"
  shows "appends (log_paths cfg) (log_record_of env) (files w)
           (files (snd (reached (main env cfg w))))"
proof (rule main_invariant
    [where Q = "\<lambda>w'. appends (log_paths cfg) (log_record_of env) (files w) (files w')"])
  show "appends (log_paths cfg) (log_record_of env) (files w) (files w)"
    by (rule appends_refl)
  show "appends (log_paths cfg) (log_record_of env) (files w) (files (print l w'))"
    if "appends (log_paths cfg) (log_record_of env) (files w) (files w')" for l w'
    using that by simp
  show "appends (log_paths cfg) (log_record_of env) (files w) (files (w'\<lparr>global_lr := r\<rparr>))"
    if "appends (log_paths cfg) (log_record_of env) (files w) (files w')" for r w'
    using that by simp
  show "appends (log_paths cfg) (log_record_of env) (files w)
          (files (t_world (reached (epoch_loop env cfg trl valset vl es st))))"
    if "appends (log_paths cfg) (log_record_of env) (files w) (files (t_world st))"
    for trl valset vl es st
    using that by (rule epoch_loop_appends)
qed

subsection \<open>The records that the loops write\<close>

lemma foldl_appended_files:
  "files (foldl (\<lambda>w' (name, v). appended (log_path cfg name) (f v) w') w xs) p
     = files w p @ map (\<lambda>nv. f (snd nv)) (filter (\<lambda>nv. log_path cfg (fst nv) = p) xs)"
  by (induction xs arbitrary: w) (auto simp: case_prod_beta)

lemma wrote_logs_files:
  "files (wrote_logs env cfg epoch mid l w) p = files w p @ new_records env cfg epoch mid l p"
  by (simp add: wrote_logs_def new_records_def foldl_appended_files)

lemma log_path_eq [simp]: "log_path cfg a = log_path cfg b \<longleftrightarrow> a = b"
  by (simp add: log_path_def)

text \<open>A display adds one record to each of the six files, that of the file's term, and
  none to any other file.\<close>

lemma new_records_of_term:
  "nv \<in> set (log_values l) \<Longrightarrow>
   new_records env cfg epoch mid l (log_path cfg (fst nv)) = [log_record env epoch mid (snd nv)]"
  by (auto simp: new_records_def log_values_def)

lemma new_records_elsewhere:
  "p \<notin> log_paths cfg \<Longrightarrow> new_records env cfg epoch mid l p = []"
  by (auto simp: new_records_def log_values_def log_paths_def)

lemma train_actions_files:
  assumes "train_actions env cfg epoch n i l st = Ok st'"
  shows "files (t_world st') p = files (t_world st) p
           @ (if int i mod display_freq cfg = 0
              then new_records env cfg epoch (show_nat i) l p else [])"
proof -
  from assms obtain s1 s2 s3 where 1: "maybe_visualize cfg i ''train'' st = Ok s1"
    and 2: "train_display env cfg epoch n i l s1 = Ok s2"
    and 3: "train_save cfg epoch i s2 = Ok s3"
    and 4: "train_log cfg i l s3 = Ok st'"
    by (rule train_actions_Ok)
  from maybe_visualize_reached(4) [of cfg i "''train''" st] 1
  have a: "files (t_world s1) = files (t_world st)" by simp
  from train_display_Ok [OF 2]
  have b: "files (t_world s2) p = files (t_world s1) p
           @ (if int i mod display_freq cfg = 0
              then new_records env cfg epoch (show_nat i) l p else [])"
    by (auto simp: wrote_logs_files)
  from train_save_reached(4) [of cfg epoch i s2] 3
  have c: "files (t_world s3) = files (t_world s2)" by simp
  from train_log_reached(4) [of cfg i l s3] 4
  have d: "files (t_world st') = files (t_world s3)" by simp
  show ?thesis by (simp add: a b c d)
qed

lemma loss_of_on_world [simp]: "loss_of env b (on_world f st) = loss_of env b st"
  by (simp add: loss_of_def)

lemma optimise_on_world [simp]:
  "t_model (optimise env b (on_world f st)) = t_model (optimise env b st)"
  "t_optimizer (optimise env b (on_world f st)) = t_optimizer (optimise env b st)"
  by (simp_all add: optimise_def Let_def)

lemma train_body_Ok:
  assumes "train_body env cfg epoch n i b ls = Ok ls'"
  shows "train_actions env cfg epoch n i (loss_of env b (snd ls))
           (optimise env b (on_world count_step (snd ls))) = Ok (snd ls')"
  using assms by (auto simp: train_body_def Let_def split: result.splits)

lemma train_body_files:
  assumes "train_body env cfg epoch n i b ls = Ok ls'"
  shows "files (t_world (snd ls')) p = files (t_world (snd ls)) p
           @ (if int i mod display_freq cfg = 0
              then new_records env cfg epoch (show_nat i) (loss_of env b (snd ls)) p else [])"
    and "t_model (snd ls') = t_model (optimise env b (snd ls))"
    and "t_optimizer (snd ls') = t_optimizer (optimise env b (snd ls))"
proof -
  note a = train_body_Ok [OF assms]
  from train_actions_files [OF a, of p]
  show "files (t_world (snd ls')) p = files (t_world (snd ls)) p
           @ (if int i mod display_freq cfg = 0
              then new_records env cfg epoch (show_nat i) (loss_of env b (snd ls)) p else [])"
    by simp
  from train_actions_reached [of env cfg epoch n i "loss_of env b (snd ls)"
      "optimise env b (on_world count_step (snd ls))"] a
  show "t_model (snd ls') = t_model (optimise env b (snd ls))"
    and "t_optimizer (snd ls') = t_optimizer (optimise env b (snd ls))"
    by simp_all
qed

text \<open>The records depend on the model and on the optimizer only.\<close>

lemma train_records_cong:
  "t_model s = t_model s' \<Longrightarrow> t_optimizer s = t_optimizer s' \<Longrightarrow>
   train_records env cfg epoch i bs s p = train_records env cfg epoch i bs s' p"
proof (induction bs arbitrary: i s s')
  case Nil
  show ?case by simp
next
  case (Cons b bs)
  have l: "loss_of env b s = loss_of env b s'"
    using Cons.prems by (simp add: loss_of_def)
  have "t_model (optimise env b s) = t_model (optimise env b s')"
    "t_optimizer (optimise env b s) = t_optimizer (optimise env b s')"
    using Cons.prems by (simp_all add: optimise_def Let_def)
  from Cons.IH [OF this, of "Suc i"] l show ?case by simp
qed

lemma validation_records_cong:
  "t_model s = t_model s' \<Longrightarrow>
   validation_records env cfg epoch i bs s p = validation_records env cfg epoch i bs s' p"
  by (induction bs arbitrary: i) (simp_all add: loss_of_def)

lemma train_batches_files:
  assumes "train_batches env cfg epoch n i bs ls = Ok ls'"
  shows "files (t_world (snd ls')) p
           = files (t_world (snd ls)) p @ train_records env cfg epoch i bs (snd ls) p"
  using assms
proof (induction bs arbitrary: i ls)
  case Nil
  then show ?case by simp
next
  case (Cons b bs)
  from Cons.prems obtain ls1 where 1: "train_body env cfg epoch n i b ls = Ok ls1"
    and 2: "train_batches env cfg epoch n (Suc i) bs ls1 = Ok ls'"
    by (auto split: result.splits)
  from train_body_files(2,3) [OF 1]
  have "train_records env cfg epoch (Suc i) bs (snd ls1) p
      = train_records env cfg epoch (Suc i) bs (optimise env b (snd ls)) p"
    by (rule train_records_cong)
  with train_body_files(1) [OF 1, of p] Cons.IH [OF 2] show ?case by simp
qed

lemma train_files:
  assumes "train env cfg trl epoch st = Ok st'"
  shows "files (t_world st') p
           = files (t_world st) p
               @ train_records env cfg epoch 0 (trl epoch) (epoch_start epoch st) p"
proof -
  from assms obtain ls s where
    1: "train_batches env cfg epoch (length (trl epoch)) 0 (trl epoch)
       (AverageMeter, epoch_start epoch st) = Ok ls"
    and 2: "epoch_end_save cfg epoch (snd ls) = Ok s"
    and 3: "st' = epoch_finish (fst ls) s"
    by (rule train_Ok)
  from train_batches_files [OF 1, of p]
  have a: "files (t_world (snd ls)) p
      = files (t_world st) p @ train_records env cfg epoch 0 (trl epoch) (epoch_start epoch st) p"
    by simp
  from epoch_end_save_reached(4) [of cfg epoch "snd ls"] 2
  have b: "files (t_world s) = files (t_world (snd ls))" by simp
  show ?thesis by (simp add: 3 a b)
qed

lemma validation_body_Ok:
  assumes "validation_body env cfg epoch i b ms = Ok ms'"
  shows "validation_actions env cfg epoch i (loss_of env b (snd ms)) (snd ms) = Ok (snd ms')"
  using assms by (auto simp: validation_body_def Let_def split: result.splits)

lemma validation_body_files:
  assumes "validation_body env cfg epoch i b ms = Ok ms'"
  shows "files (t_world (snd ms')) p = files (t_world (snd ms)) p
           @ (if int i mod display_freq cfg = 0
              then new_records env cfg epoch ''validation'' (loss_of env b (snd ms)) p else [])"
    and "t_model (snd ms') = t_model (snd ms)"
proof -
  note a = validation_body_Ok [OF assms]
  then obtain s1 where 1: "maybe_visualize cfg i ''val'' (snd ms) = Ok s1"
    and 2: "validation_display env cfg epoch i (loss_of env b (snd ms)) s1 = Ok (snd ms')"
    by (auto simp: validation_actions_def and_then_Ok)
  from maybe_visualize_reached(4) [of cfg i "''val''" "snd ms"] 1
  have b: "files (t_world s1) = files (t_world (snd ms))" by simp
  from validation_display_Ok [OF 2] b
  show "files (t_world (snd ms')) p = files (t_world (snd ms)) p
           @ (if int i mod display_freq cfg = 0
              then new_records env cfg epoch ''validation'' (loss_of env b (snd ms)) p else [])"
    by (auto simp: wrote_logs_files)
  from validation_body_reached [of env cfg epoch i b ms] assms
  show "t_model (snd ms') = t_model (snd ms)" by simp
qed

lemma validation_batches_files:
  assumes "validation_batches env cfg epoch i bs ms = Ok ms'"
  shows "files (t_world (snd ms')) p
           = files (t_world (snd ms)) p @ validation_records env cfg epoch i bs (snd ms) p"
  using assms
proof (induction bs arbitrary: i ms)
  case Nil
  then show ?case by simp
next
  case (Cons b bs)
  from Cons.prems obtain ms1 where 1: "validation_body env cfg epoch i b ms = Ok ms1"
    and 2: "validation_batches env cfg epoch (Suc i) bs ms1 = Ok ms'"
    by (auto split: result.splits)
  from validation_body_files(2) [OF 1]
  have "validation_records env cfg epoch (Suc i) bs (snd ms1) p
      = validation_records env cfg epoch (Suc i) bs (snd ms) p"
    by (rule validation_records_cong)
  with validation_body_files(1) [OF 1, of p] Cons.IH [OF 2] show ?case by simp
qed

lemma validation_files:
  assumes "validation env cfg vl epoch st = Ok st'"
  shows "files (t_world st') p
           = files (t_world st) p
               @ validation_records env cfg epoch 0 (vl epoch)
                   (st\<lparr>t_model := (t_model st)\<lparr>training := False\<rparr>\<rparr>) p"
proof -
  let ?r = "validation_batches env cfg epoch 0 (vl epoch)
      (new_vmeters, st\<lparr>t_model := (t_model st)\<lparr>training := False\<rparr>\<rparr>)"
  from assms obtain ms where 1: "?r = Ok ms"
    and 2: "st' = validation_finish epoch (fst ms) (snd ms)"
    by (cases ?r) (simp_all add: validation_def)
  from validation_batches_files [OF 1, of p] show ?thesis
    by (simp add: 2 validation_finish_def)
qed

subsection \<open>The rate that an end-tagged checkpoint stores\<close>

lemma end_rates_simps [simp]:
  "end_rates [] = []"
  "end_rates ((p, c) # cks) =
     (if suffix ''_end.pth'' p then [(ck_epoch c, ck_lr c, opt_lr (ck_optimizer c))] else [])
     @ end_rates cks"
  by (simp_all add: end_rates_def)

lemma train_actions_end_rates:
  assumes "train_actions env cfg epoch n i l st = Ok st'"
  shows "end_rates (saved (t_world st')) = end_rates (saved (t_world st))"
proof -
  from assms obtain s1 s2 s3 where 1: "maybe_visualize cfg i ''train'' st = Ok s1"
    and 2: "train_display env cfg epoch n i l s1 = Ok s2"
    and 3: "train_save cfg epoch i s2 = Ok s3"
    and 4: "train_log cfg i l s3 = Ok st'"
    by (rule train_actions_Ok)
  from maybe_visualize_reached(9) [of cfg i "''train''" st] 1
  have a: "saved (t_world s1) = saved (t_world st)" by simp
  from train_display_reached(7) [of env cfg epoch n i l s1] 2
  have b: "saved (t_world s2) = saved (t_world s1)" by simp
  from train_save_Ok [OF 3]
  have c: "end_rates (saved (t_world s3)) = end_rates (saved (t_world s2))"
    by (auto simp: iter_path_not_end)
  from train_log_reached(8) [of cfg i l s3] 4
  have d: "saved (t_world st') = saved (t_world s3)" by simp
  show ?thesis by (simp add: a b c d)
qed

lemma train_batches_end_rates:
  assumes "train_batches env cfg epoch n i bs ls = Ok ls'"
  shows "end_rates (saved (t_world (snd ls'))) = end_rates (saved (t_world (snd ls)))"
  using assms
proof (induction bs arbitrary: i ls)
  case Nil
  then show ?case by simp
next
  case (Cons b bs)
  from Cons.prems obtain ls1 where 1: "train_body env cfg epoch n i b ls = Ok ls1"
    and 2: "train_batches env cfg epoch n (Suc i) bs ls1 = Ok ls'"
    by (auto split: result.splits)
  from train_actions_end_rates [OF train_body_Ok [OF 1]] Cons.IH [OF 2] show ?case by simp
qed

text \<open>The checkpoint that \<open>train\<close> writes after the batches of an epoch stores the rate
  with which the epoch was trained: the scheduler is stepped after it is written.\<close>

lemma train_end_rates:
  assumes "train env cfg trl epoch st = Ok st'"
  shows "end_rates (saved (t_world st')) =
           (if epoch mod save_freq cfg = 0
            then [(epoch, get_lr (t_scheduler st), opt_lr (t_optimizer st))] else [])
           @ end_rates (saved (t_world st))"
proof -
  from assms obtain ls s where
    1: "train_batches env cfg epoch (length (trl epoch)) 0 (trl epoch)
       (AverageMeter, epoch_start epoch st) = Ok ls"
    and 2: "epoch_end_save cfg epoch (snd ls) = Ok s"
    and 3: "st' = epoch_finish (fst ls) s"
    by (rule train_Ok)
  from train_batches_end_rates [OF 1]
  have a: "end_rates (saved (t_world (snd ls))) = end_rates (saved (t_world st))" by simp
  from train_batches_schedule [of env cfg epoch "length (trl epoch)" 0 "trl epoch"
      "(AverageMeter, epoch_start epoch st)"] 1
  have b: "t_scheduler (snd ls) = t_scheduler st"
    "opt_lr (t_optimizer (snd ls)) = opt_lr (t_optimizer st)" by simp_all
  from epoch_end_save_Ok [OF 2]
  have c: "end_rates (saved (t_world s)) =
       (if epoch mod save_freq cfg = 0
        then [(epoch, get_lr (t_scheduler (snd ls)), opt_lr (t_optimizer (snd ls)))] else [])
       @ end_rates (saved (t_world (snd ls)))"
    by (auto simp: end_path_is_end)
  show ?thesis by (simp add: 3 a b c)
qed

lemma epoch_loop_append_Ok:
  assumes "epoch_loop env cfg trl valset vl (es1 @ es2) st = Ok st'"
  shows "\<exists>s. epoch_loop env cfg trl valset vl es1 st = Ok s
           \<and> epoch_loop env cfg trl valset vl es2 s = Ok st'"
  using assms
proof (induction es1 arbitrary: st)
  case Nil
  then show ?case by simp
next
  case (Cons e es)
  from Cons.prems obtain s1 where 1: "train env cfg trl e st = Ok s1"
    by (auto split: result.splits)
  show ?case
  proof (cases "truthy valset")
    case False
    with Cons.prems 1 have "epoch_loop env cfg trl valset vl (es @ es2) s1 = Ok st'" by simp
    from Cons.IH [OF this] 1 False show ?thesis by simp
  next
    case True
    with Cons.prems 1 obtain v s2 where v: "vl = Some v"
      and 2: "validation env cfg v e s1 = Ok s2"
      and 3: "epoch_loop env cfg trl valset vl (es @ es2) s2 = Ok st'"
      by (auto split: result.splits option.splits)
    from Cons.IH [OF 3] 1 2 v True show ?thesis by simp
  qed
qed

lemma decayed_get_lr:
  "get_lr ((choose_scheduler cfg opt)\<lparr>last_epoch := k\<rparr>) = decayed cfg (opt_lr opt) k"
  by (simp add: choose_scheduler_get_lr decayed_def)

lemma epoch_loop_fresh_scheduler:
  assumes "epoch_loop env cfg trl valset vl es st = Ok st'"
    and "t_scheduler st = choose_scheduler cfg (t_optimizer st)"
  shows "t_scheduler st' = (choose_scheduler cfg (t_optimizer st))\<lparr>last_epoch := length es\<rparr>"
    and "opt_lr (t_optimizer st') = decayed cfg (opt_lr (t_optimizer st)) (length es)"
proof -
  have 0: "last_epoch (choose_scheduler cfg (t_optimizer st)) = 0"
    by (simp add: choose_scheduler_def new_scheduler_def)
  have 1: "opt_lr (t_optimizer st) = get_lr (t_scheduler st)"
    by (simp add: assms(2) choose_scheduler_def new_scheduler_def get_lr_def)
  from epoch_loop_scheduler [OF assms(1)] 1
  have 2: "t_scheduler st' = (t_scheduler st)\<lparr>last_epoch := last_epoch (t_scheduler st) + length es\<rparr>"
    and 3: "opt_lr (t_optimizer st') = get_lr (t_scheduler st')"
    by simp_all
  from 2 0 show 4: "t_scheduler st' = (choose_scheduler cfg (t_optimizer st))\<lparr>last_epoch := length es\<rparr>"
    by (simp add: assms(2))
  show "opt_lr (t_optimizer st') = decayed cfg (opt_lr (t_optimizer st)) (length es)"
    unfolding 3 unfolding 4 by (rule decayed_get_lr)
qed

text \<open>The epoch \<open>e\<close> that comes after the epochs \<open>es1\<close> in a loop that starts with a fresh
  scheduler: it is trained with the rate of \<open>length es1\<close> steps, its end-tagged
  checkpoint stores that rate, and it leaves the rate of one step more.\<close>

lemma epoch_loop_rate_during:
  assumes "epoch_loop env cfg trl valset vl (es1 @ e # es2) st = Ok st'"
    and "t_scheduler st = choose_scheduler cfg (t_optimizer st)"
  shows "\<exists>s s1. epoch_loop env cfg trl valset vl es1 st = Ok s
      \<and> train env cfg trl e s = Ok s1
      \<and> epoch_loop env cfg trl valset vl (e # es2) s = Ok st'
      \<and> opt_lr (t_optimizer s) = decayed cfg (opt_lr (t_optimizer st)) (length es1)
      \<and> end_rates (saved (t_world s1)) =
          (if e mod save_freq cfg = 0
           then [(e, decayed cfg (opt_lr (t_optimizer st)) (length es1),
                  decayed cfg (opt_lr (t_optimizer st)) (length es1))]
           else [])
          @ end_rates (saved (t_world s))
      \<and> opt_lr (t_optimizer s1) = decayed cfg (opt_lr (t_optimizer st)) (length es1 + 1)"
proof -
  from epoch_loop_append_Ok [OF assms(1)] obtain s where
    1: "epoch_loop env cfg trl valset vl es1 st = Ok s"
    and 2: "epoch_loop env cfg trl valset vl (e # es2) s = Ok st'"
    by blast
  from 2 obtain s1 where 3: "train env cfg trl e s = Ok s1"
    by (rule epoch_loop_Cons_Ok)
  note a = epoch_loop_fresh_scheduler [OF 1 assms(2)]
  from a(1) have g: "get_lr (t_scheduler s) = decayed cfg (opt_lr (t_optimizer st)) (length es1)"
    by (simp add: decayed_get_lr)
  from train_steps_scheduler(1,2) [OF 3] a(1)
  have b: "opt_lr (t_optimizer s1) = decayed cfg (opt_lr (t_optimizer st)) (length es1 + 1)"
    by (simp add: decayed_get_lr)
  from train_end_rates [OF 3] g a(2)
  have c: "end_rates (saved (t_world s1)) =
          (if e mod save_freq cfg = 0
           then [(e, decayed cfg (opt_lr (t_optimizer st)) (length es1),
                  decayed cfg (opt_lr (t_optimizer st)) (length es1))]
           else [])
          @ end_rates (saved (t_world s))"
    by simp
  from 1 2 3 a(2) b c show ?thesis by blast
qed

text \<open>The first epoch of a run of \<open>main\<close> that returns.\<close>

lemma main_first_epoch:
  assumes "main env cfg w = Ok (L, w')"
    and "py_range (start_epoch cfg) (max_epoch cfg) = [e]"
    and "e mod save_freq cfg = 0"
  shows "hd (end_rates (saved w')) = (e, lr cfg, lr cfg)"
proof -
  from assms(1) obtain trl m Lw where "main_training env cfg trl m Lw = Ok (L, w')"
    by (rule main_Ok)
  then obtain st st' valset vl where
    1: "epoch_loop env cfg trl valset vl (py_range (start_epoch cfg) (max_epoch cfg)) st = Ok st'"
    and 2: "opt_lr (t_optimizer st) = lr cfg"
    and 3: "t_scheduler st = choose_scheduler cfg (t_optimizer st)"
    and 4: "saved w' = saved (t_world st')"
    by (rule main_training_Ok)
  from 1 assms(2) have 5: "epoch_loop env cfg trl valset vl [e] st = Ok st'" by simp
  then obtain s1 s2 where 6: "train env cfg trl e st = Ok s1"
    and 7: "s2 = s1 \<or> (\<exists>v. s2 = reached (validation env cfg v e s1))"
    and 8: "epoch_loop env cfg trl valset vl [] s2 = Ok st'"
    by (rule epoch_loop_Cons_Ok)
  from 7 8 have "saved (t_world st') = saved (t_world s1)"
    by (auto simp: validation_frame)
  moreover have "get_lr (t_scheduler st) = lr cfg"
    using 2 3 by (simp add: choose_scheduler_def new_scheduler_def get_lr_def)
  ultimately show ?thesis
    using train_end_rates [OF 6] 2 4 assms(3) by simp
qed

subsection \<open>The claims\<close>

lemma ex_runs: "runs_through ex_cfg"
  by (simp add: runs_through_def ex_cfg_def)

lemma ex_dir: "experiment_dir ex_cfg \<in> dirs (t_world ex_state)"
  by (simp add: ex_state_def ex_cfg_def experiment_dir_def path_join_def ex_world_def
      script_start_def)

lemma ex_ready: "ready ex_cfg ex_state"
  using ex_dir by (simp add: ready_def ex_state_def)

lemma py_range_split:
  assumes "a \<le> e" and "e < b"
  shows "py_range a b = py_range a e @ e # py_range (e + 1) b"
proof -
  let ?m = "nat (e - a)" and ?k = "nat (b - (e + 1))"
  from assms have n: "nat (b - a) = ?m + Suc ?k" by simp
  have 1: "[0..<?m + Suc ?k] = [0..<?m] @ [?m..<?m + Suc ?k]"
    by (rule upt_add_eq_append) simp
  have 2: "[?m..<?m + Suc ?k] = ?m # [Suc ?m..<?m + Suc ?k]"
    by (rule upt_conv_Cons) simp
  have "map (\<lambda>i. i + Suc ?m) [0..<?k] = [Suc ?m..<?k + Suc ?m]"
    by (rule map_add_upt)
  then have 3: "[Suc ?m..<?m + Suc ?k] = map (\<lambda>i. i + Suc ?m) [0..<?k]"
    by (simp add: add.commute)
  have "py_range a b = map (\<lambda>k. a + int k) ([0..<?m] @ ?m # map (\<lambda>i. i + Suc ?m) [0..<?k])"
    unfolding py_range_def n 1 2 3 ..
  also have "\<dots> = py_range a e @ e # py_range (e + 1) b"
    using assms by (simp add: py_range_def comp_def)
  finally show ?thesis .
qed

text \<open>
  C1 (as amended). \<open>load_model\<close>, given the live model and the path of a saved
  checkpoint, writes the checkpoint's model state into the live model when that is the
  bare network, and returns nothing else: the epoch, the learning rate and the optimizer
  state of the record are not read. On the \<open>nn.DataParallel\<close> wrapper it raises, and when
  there is no file at the path it raises; in both cases the model is untouched.
\<close>

theorem C1_load_model_overwrites_the_model:
  "(map_of (saved w) path = Some ck \<and> \<not> data_parallel m \<longrightarrow>
      load_model m path w = Ok (m\<lparr>params := ck_model ck\<rparr>, print (Loading_from path) w))
   \<and> (map_of (saved w) path = Some ck \<and> data_parallel m \<longrightarrow>
      load_model m path w
        = Raised (RuntimeError ''load_state_dict'') (m, print (Loading_from path) w))
   \<and> (map_of (saved w) path = None \<longrightarrow>
      load_model m path w = Raised (FileNotFoundError path) (m, print (Loading_from path) w))"
  by (simp add: load_model_def Let_def)

theorem C1_load_model_overwrites_the_model_witness:
  "load_model (t_model ex_state) ''a.pth'' ex_disk
     = Ok ((t_model ex_state)\<lparr>params := 7\<rparr>, print (Loading_from ''a.pth'') ex_disk)
   \<and> load_model ((t_model ex_state)\<lparr>data_parallel := True\<rparr>) ''a.pth'' ex_disk
     = Raised (RuntimeError ''load_state_dict'')
         ((t_model ex_state)\<lparr>data_parallel := True\<rparr>, print (Loading_from ''a.pth'') ex_disk)
   \<and> load_model (t_model ex_state) ''b.pth'' ex_disk
     = Raised (FileNotFoundError ''b.pth'') (t_model ex_state, print (Loading_from ''b.pth'') ex_disk)"
  using C1_load_model_overwrites_the_model [of ex_disk "''a.pth''" ex_checkpoint "t_model ex_state"]
    C1_load_model_overwrites_the_model [of ex_disk "''a.pth''" ex_checkpoint
      "(t_model ex_state)\<lparr>data_parallel := True\<rparr>"]
    C1_load_model_overwrites_the_model [of ex_disk "''b.pth''" ex_checkpoint "t_model ex_state"]
  by (simp add: ex_disk_def script_start_def ex_checkpoint_def ex_state_def)

text \<open>The claim as stated fails: loading the checkpoint \<open>a.pth\<close>, whose model state is 7,
  into a live model, the bare network, whose parameters are 0 leaves the live model with
  parameters 7.\<close>

theorem C1_load_model_mutates_counterexample:
  "params (t_model ex_state) = 0
   \<and> \<not> data_parallel (t_model ex_state)
   \<and> returned (load_model (t_model ex_state) ''a.pth'' ex_disk)
   \<and> params (fst (reached (load_model (t_model ex_state) ''a.pth'' ex_disk))) = 7"
  by (simp add: load_model_def Let_def ex_state_def ex_disk_def script_start_def
      ex_checkpoint_def print_def returned_def)

text \<open>The learning rate after a loop over the epochs \<open>es\<close>, and at the end of \<open>main\<close>.\<close>

lemma epoch_loop_schedule:
  assumes "epoch_loop env cfg trl valset vl es st = Ok st'"
    and "t_scheduler st = choose_scheduler cfg (t_optimizer st)"
  shows "last_epoch (t_scheduler st') = length es
    \<and> opt_lr (t_optimizer st') =
        (if dataset cfg = ''synth-text'' then opt_lr (t_optimizer st)
         else opt_lr (t_optimizer st) * (1 / 10) ^ (length es div 100))"
proof -
  have 0: "last_epoch (choose_scheduler cfg (t_optimizer st)) = 0"
    by (simp add: choose_scheduler_def new_scheduler_def)
  have 1: "opt_lr (t_optimizer st) = get_lr (t_scheduler st)"
    by (simp add: assms(2) choose_scheduler_def new_scheduler_def get_lr_def)
  from epoch_loop_scheduler [OF assms(1)] 1
  have 2: "t_scheduler st' = (t_scheduler st)\<lparr>last_epoch := last_epoch (t_scheduler st) + length es\<rparr>"
    and 3: "opt_lr (t_optimizer st') = get_lr (t_scheduler st')"
    by simp_all
  from 2 0 have 4: "t_scheduler st' = (choose_scheduler cfg (t_optimizer st))\<lparr>last_epoch := length es\<rparr>"
    by (simp add: assms(2))
  show ?thesis
    unfolding 3 unfolding 4 by (simp add: choose_scheduler_get_lr)
qed

lemma main_schedule:
  assumes "main env cfg w = Ok (L, w')"
  shows "map_option last_epoch (l_scheduler L) = Some (nat (max_epoch cfg - start_epoch cfg))
    \<and> map_option opt_lr (l_optimizer L) =
        Some (if dataset cfg = ''synth-text'' then lr cfg
              else lr cfg * (1 / 10) ^ (nat (max_epoch cfg - start_epoch cfg) div 100))"
proof -
  from assms obtain trl m Lw where "main_training env cfg trl m Lw = Ok (L, w')"
    by (rule main_Ok)
  then obtain st st' valset vl where
    1: "epoch_loop env cfg trl valset vl (py_range (start_epoch cfg) (max_epoch cfg)) st = Ok st'"
    and 2: "opt_lr (t_optimizer st) = lr cfg"
    and 3: "t_scheduler st = choose_scheduler cfg (t_optimizer st)"
    and 4: "l_optimizer L = Some (t_optimizer st')"
    and 5: "l_scheduler L = Some (t_scheduler st')"
    by (rule main_training_Ok)
  from epoch_loop_schedule [OF 1 3] 2 4 5 show ?thesis by simp
qed

text \<open>
  C2 (as amended). The scheduler is stepped exactly once per call of \<open>train\<close>, after the
  batches and after the checkpoint tagged \<open>end\<close> is written; the batches leave the rate
  and the scheduler alone, whatever their number. The scheduler counts the epochs trained
  in this run, from 0, whatever \<open>cfg.start_epoch\<close> is. On the manually annotated corpus
  (and with any dataset name but \<open>synth-text\<close>) the learning rate after \<open>k\<close> trained
  epochs is the initial rate times \<open>0.1 ^ floor (k / 100)\<close>; on the synthetic corpus it
  stays the initial rate. So, in a loop that starts with a fresh scheduler, the epoch that
  comes after \<open>k\<close> epochs is trained with the rate of \<open>k\<close> steps, its checkpoint tagged
  \<open>end\<close> stores that rate, and it leaves the rate of \<open>k + 1\<close> steps. At the end of \<open>main\<close>
  \<open>k = max_epoch - start_epoch\<close>.
\<close>

theorem C2_rate_counts_the_epochs_of_the_run:
  "(train env cfg trl epoch st0 = Ok st1 \<longrightarrow>
      last_epoch (t_scheduler st1) = last_epoch (t_scheduler st0) + 1
      \<and> opt_lr (t_optimizer st1) = get_lr (t_scheduler st1)
      \<and> end_rates (saved (t_world st1)) =
          (if epoch mod save_freq cfg = 0
           then [(epoch, get_lr (t_scheduler st0), opt_lr (t_optimizer st0))] else [])
          @ end_rates (saved (t_world st0)))
   \<and> t_scheduler (snd (reached (train_batches env cfg epoch n i bs ls))) = t_scheduler (snd ls)
   \<and> opt_lr (t_optimizer (snd (reached (train_batches env cfg epoch n i bs ls))))
       = opt_lr (t_optimizer (snd ls))
   \<and> (epoch_loop env cfg trl valset vl (es1 @ e # es2) st = Ok st'
      \<and> t_scheduler st = choose_scheduler cfg (t_optimizer st) \<longrightarrow>
      (\<exists>s s1. epoch_loop env cfg trl valset vl es1 st = Ok s
         \<and> train env cfg trl e s = Ok s1
         \<and> epoch_loop env cfg trl valset vl (e # es2) s = Ok st'
         \<and> opt_lr (t_optimizer s) = decayed cfg (opt_lr (t_optimizer st)) (length es1)
         \<and> end_rates (saved (t_world s1)) =
             (if e mod save_freq cfg = 0
              then [(e, decayed cfg (opt_lr (t_optimizer st)) (length es1),
                     decayed cfg (opt_lr (t_optimizer st)) (length es1))]
              else [])
             @ end_rates (saved (t_world s))
         \<and> opt_lr (t_optimizer s1) = decayed cfg (opt_lr (t_optimizer st)) (length es1 + 1)))
   \<and> (epoch_loop env cfg trl valset vl es st = Ok st'
      \<and> t_scheduler st = choose_scheduler cfg (t_optimizer st) \<longrightarrow>
      last_epoch (t_scheduler st') = length es
      \<and> opt_lr (t_optimizer st') =
          (if dataset cfg = ''synth-text'' then opt_lr (t_optimizer st)
           else opt_lr (t_optimizer st) * (1 / 10) ^ (length es div 100)))
   \<and> (main env cfg w = Ok (L, w') \<longrightarrow>
      map_option last_epoch (l_scheduler L) = Some (nat (max_epoch cfg - start_epoch cfg))
      \<and> map_option opt_lr (l_optimizer L) =
          Some (if dataset cfg = ''synth-text'' then lr cfg
                else lr cfg * (1 / 10) ^ (nat (max_epoch cfg - start_epoch cfg) div 100)))"
proof -
  have a: "last_epoch (t_scheduler st1) = last_epoch (t_scheduler st0) + 1
      \<and> opt_lr (t_optimizer st1) = get_lr (t_scheduler st1)
      \<and> end_rates (saved (t_world st1)) =
          (if epoch mod save_freq cfg = 0
           then [(epoch, get_lr (t_scheduler st0), opt_lr (t_optimizer st0))] else [])
          @ end_rates (saved (t_world st0))"
    if "train env cfg trl epoch st0 = Ok st1"
    using train_steps_scheduler(1,2) [OF that] train_end_rates [OF that] by simp
  note b = train_batches_schedule [of env cfg epoch n i bs ls]
  note c = epoch_loop_rate_during [of env cfg trl valset vl es1 e es2 st st']
  note d = epoch_loop_schedule [of env cfg trl valset vl es st st']
  note m = main_schedule [of env cfg w L w']
  from a b c d m show ?thesis by blast
qed

lemma long_runs: "runs_through long_cfg"
  by (simp add: runs_through_def long_cfg_def ex_cfg_def)

text \<open>A loop over the epochs 0 to 100 from a fresh scheduler, with the initial rate
  \<open>1/1000\<close>: epoch 99 is trained with \<open>1/1000\<close> and leaves \<open>1/10000\<close>; epoch 100 is
  trained with \<open>1/10000\<close>, which its checkpoint stores.\<close>

theorem C2_rate_counts_the_epochs_of_the_run_witness:
  "returned (epoch_loop ex_env ex_cfg (\<lambda>e. [1, 2]) None None (py_range 0 101) ex_state)
   \<and> last_epoch (t_scheduler (reached
        (epoch_loop ex_env ex_cfg (\<lambda>e. [1, 2]) None None (py_range 0 101) ex_state))) = 101
   \<and> opt_lr (t_optimizer (reached
        (epoch_loop ex_env ex_cfg (\<lambda>e. [1, 2]) None None (py_range 0 101) ex_state))) = 1 / 10000
   \<and> hd (end_rates (saved (t_world (reached
        (epoch_loop ex_env ex_cfg (\<lambda>e. [1, 2]) None None (py_range 0 101) ex_state)))))
       = (100, 1 / 10000, 1 / 10000)
   \<and> (\<exists>s s1. epoch_loop ex_env ex_cfg (\<lambda>e. [1, 2]) None None (py_range 0 99) ex_state = Ok s
        \<and> train ex_env ex_cfg (\<lambda>e. [1, 2]) 99 s = Ok s1
        \<and> opt_lr (t_optimizer s) = 1 / 1000
        \<and> opt_lr (t_optimizer s1) = 1 / 10000)
   \<and> returned (main ex_env long_cfg ex_world)
   \<and> map_option last_epoch (l_scheduler (fst (reached (main ex_env long_cfg ex_world))))
       = Some 101
   \<and> map_option opt_lr (l_optimizer (fst (reached (main ex_env long_cfg ex_world))))
       = Some (1 / 10000)"
proof -
  let ?trl = "\<lambda>e::int. [1, 2::nat]"
  let ?r = "epoch_loop ex_env ex_cfg ?trl None None (py_range 0 101) ex_state"
  have f: "t_scheduler ex_state = choose_scheduler ex_cfg (t_optimizer ex_state)"
    by (simp add: ex_state_def choose_scheduler_def new_scheduler_def ex_cfg_def)
  have r0: "opt_lr (t_optimizer ex_state) = 1 / 1000" "dataset ex_cfg = ''total-text''"
    "save_freq ex_cfg = 5"
    by (simp_all add: ex_state_def ex_cfg_def)
  from epoch_loop_returns [OF ex_runs ex_ready, where valset = None and vl = None
      and env = ex_env and trl = ?trl and es = "py_range 0 101"]
  obtain st' where ok: "?r = Ok st'" by (auto simp: truthy_def)
  have s99: "py_range 0 101 = py_range 0 99 @ 99 # py_range 100 101"
    using py_range_split [of 0 99 101] by simp
  have s100: "py_range 0 101 = py_range 0 100 @ 100 # []"
    using py_range_split [of 0 100 101] by (simp add: py_range_def)
  from main_returns [OF long_runs, where env = ex_env and w = ex_world]
  obtain L w' where m: "main ex_env long_cfg ex_world = Ok (L, w')"
    by (auto simp: long_cfg_def ex_cfg_def resume_path_def experiment_dir_def path_join_def
        ex_world_def script_start_def)
  note t = C2_rate_counts_the_epochs_of_the_run [where env = ex_env and trl = ?trl
      and valset = None and vl = None and st = ex_state and st' = st'
      and es = "py_range 0 101"]
  from ok have ok100:
    "epoch_loop ex_env ex_cfg ?trl None None (py_range 0 100 @ 100 # []) ex_state = Ok st'"
    unfolding s100 .
  from ok have ok99:
    "epoch_loop ex_env ex_cfg ?trl None None (py_range 0 99 @ 99 # py_range 100 101) ex_state
       = Ok st'"
    unfolding s99 .
  from t [where cfg = ex_cfg and ?es1.0 = "py_range 0 100" and e = 100 and ?es2.0 = "[]"]
    ok100 f
  have "\<exists>s s1. train ex_env ex_cfg ?trl 100 s = Ok s1
      \<and> epoch_loop ex_env ex_cfg ?trl None None [100] s = Ok st'
      \<and> end_rates (saved (t_world s1)) =
             (if 100 mod save_freq ex_cfg = 0
              then [(100, decayed ex_cfg (opt_lr (t_optimizer ex_state)) (length (py_range 0 100)),
                     decayed ex_cfg (opt_lr (t_optimizer ex_state)) (length (py_range 0 100)))]
              else [])
             @ end_rates (saved (t_world s))"
    by blast
  then obtain s s1 where 1: "train ex_env ex_cfg ?trl 100 s = Ok s1"
    and 2: "epoch_loop ex_env ex_cfg ?trl None None [100] s = Ok st'"
    and 3: "end_rates (saved (t_world s1)) =
             (if 100 mod save_freq ex_cfg = 0
              then [(100, decayed ex_cfg (opt_lr (t_optimizer ex_state)) (length (py_range 0 100)),
                     decayed ex_cfg (opt_lr (t_optimizer ex_state)) (length (py_range 0 100)))]
              else [])
             @ end_rates (saved (t_world s))"
    by blast
  from 1 2 have "st' = s1" by (simp add: truthy_def)
  with 3 r0 have h: "hd (end_rates (saved (t_world st'))) = (100, 1 / 10000, 1 / 10000)"
    by (simp add: decayed_def)
  from t [where cfg = ex_cfg and ?es1.0 = "py_range 0 99" and e = 99
      and ?es2.0 = "py_range 100 101"] ok99 f
  have "\<exists>s s1. epoch_loop ex_env ex_cfg ?trl None None (py_range 0 99) ex_state = Ok s
      \<and> train ex_env ex_cfg ?trl 99 s = Ok s1
      \<and> opt_lr (t_optimizer s) = decayed ex_cfg (opt_lr (t_optimizer ex_state))
              (length (py_range 0 99))
      \<and> opt_lr (t_optimizer s1) = decayed ex_cfg (opt_lr (t_optimizer ex_state))
              (length (py_range 0 99) + 1)"
    by blast
  then obtain s s1 where 4: "epoch_loop ex_env ex_cfg ?trl None None (py_range 0 99) ex_state = Ok s"
    and 5: "train ex_env ex_cfg ?trl 99 s = Ok s1"
    and 6: "opt_lr (t_optimizer s) = decayed ex_cfg (opt_lr (t_optimizer ex_state))
              (length (py_range 0 99))"
    and 7: "opt_lr (t_optimizer s1) = decayed ex_cfg (opt_lr (t_optimizer ex_state))
              (length (py_range 0 99) + 1)"
    by blast
  from 6 7 r0 have 8: "opt_lr (t_optimizer s) = 1 / 1000" "opt_lr (t_optimizer s1) = 1 / 10000"
    by (simp_all add: decayed_def)
  from t [where cfg = ex_cfg] ok f r0
  have l: "last_epoch (t_scheduler st') = 101" "opt_lr (t_optimizer st') = 1 / 10000"
    by simp_all
  from C2_rate_counts_the_epochs_of_the_run [where env = ex_env and cfg = long_cfg
      and w = ex_world and L = L and w' = w'] m
  have k: "map_option last_epoch (l_scheduler L) = Some 101"
    "map_option opt_lr (l_optimizer L) = Some (1 / 10000)"
    by (simp_all add: long_cfg_def ex_cfg_def)
  from 4 5 8 have "\<exists>s s1. epoch_loop ex_env ex_cfg ?trl None None (py_range 0 99) ex_state = Ok s
        \<and> train ex_env ex_cfg ?trl 99 s = Ok s1
        \<and> opt_lr (t_optimizer s) = 1 / 1000
        \<and> opt_lr (t_optimizer s1) = 1 / 10000"
    by blast
  with ok m h l k show ?thesis by (simp add: returned_def)
qed

text \<open>The claim as stated fails on a resumed run: with the checkpoint \<open>a.pth\<close> to resume
  from, \<open>start_epoch = 100\<close> and \<open>max_epoch = 101\<close>, the run trains epoch 100 only, with
  the initial rate \<open>1/1000\<close>, which the checkpoint written at the end of the epoch stores,
  and the learning rate after it is the initial rate too, whereas
  \<open>initial_lr * 0.1 ^ floor (e / 100)\<close> is \<open>1/10000\<close> for \<open>e = 100\<close>, the epoch just
  trained, and for \<open>e = 101\<close>, the epoch that would come next.\<close>

theorem C2_resumed_run_counterexample:
  "dataset resumed_cfg = ''total-text''
   \<and> py_range (start_epoch resumed_cfg) (max_epoch resumed_cfg) = [100]
   \<and> returned (main ex_env resumed_cfg ex_disk)
   \<and> hd (end_rates (saved (snd (reached (main ex_env resumed_cfg ex_disk)))))
       = (100, 1 / 1000, 1 / 1000)
   \<and> map_option opt_lr (l_optimizer (fst (reached (main ex_env resumed_cfg ex_disk))))
       = Some (1 / 1000)
   \<and> lr resumed_cfg * (1 / 10) ^ (100 div 100) = 1 / 10000
   \<and> lr resumed_cfg * (1 / 10) ^ (101 div 100) = 1 / 10000"
proof -
  have r: "runs_through resumed_cfg"
    by (simp add: runs_through_def resumed_cfg_def ex_cfg_def)
  have p: "py_range (start_epoch resumed_cfg) (max_epoch resumed_cfg) = [100]"
    by (simp add: resumed_cfg_def ex_cfg_def py_range_def)
  from main_returns [OF r, where env = ex_env and w = ex_disk]
  obtain L w' where ok: "main ex_env resumed_cfg ex_disk = Ok (L, w')"
    by (auto simp: resumed_cfg_def ex_cfg_def resume_path_def ex_disk_def script_start_def
        experiment_dir_def path_join_def)
  have "100 mod save_freq resumed_cfg = 0" by (simp add: resumed_cfg_def ex_cfg_def)
  from main_first_epoch [OF ok p this]
  have "hd (end_rates (saved w')) = (100, 1 / 1000, 1 / 1000)"
    by (simp add: resumed_cfg_def ex_cfg_def)
  with main_schedule [OF ok] ok p show ?thesis
    by (simp add: returned_def resumed_cfg_def ex_cfg_def)
qed

text \<open>
  C3. Whatever the model and the validation batches, the validation loop leaves every
  parameter of the model as it was, in the state in which it returns or raises; it
  leaves the optimizer and the scheduler alone as well.
\<close>

theorem C3_validation_keeps_the_parameters:
  "params (t_model (reached (validation env cfg valid_loader epoch st))) = params (t_model st)
   \<and> t_optimizer (reached (validation env cfg valid_loader epoch st)) = t_optimizer st
   \<and> t_scheduler (reached (validation env cfg valid_loader epoch st)) = t_scheduler st"
  using validation_frame [of env cfg valid_loader epoch st] by simp

text \<open>
  C4. With the dataset \<open>synth-text\<close>, \<open>main\<close> ends (returning or raising) with \<open>valset\<close>
  bound to \<open>None\<close> and \<open>val_loader\<close> never bound, with no validation line printed and no
  scalars tagged \<open>val\<close> pushed; and the epoch loop without a validation set is the loop
  that calls \<open>train\<close> only.
\<close>

theorem C4_synth_text_never_validates:
  assumes "dataset cfg = ''synth-text''"
  shows "l_valset (fst (reached (main env cfg w))) = Some None
    \<and> l_val_loader (fst (reached (main env cfg w))) = None
    \<and> val_traces (snd (reached (main env cfg w))) = val_traces w
    \<and> epoch_loop env cfg trl None vl es st = train_epochs env cfg trl es st"
proof -
  have "val_traces (snd (reached (main env cfg w))) = val_traces w"
  proof (rule main_invariant [where Q = "\<lambda>w'. val_traces w' = val_traces w"])
    show "val_traces w = val_traces w" ..
    show "val_traces (print l w') = val_traces w"
      if "val_traces w' = val_traces w" "validation_lines [l] = []" for l w'
      using that by (simp add: val_traces_def)
    show "val_traces (w'\<lparr>global_lr := r\<rparr>) = val_traces w"
      if "val_traces w' = val_traces w" for r w'
      using that by (simp add: val_traces_def)
    show "val_traces (t_world (reached (epoch_loop env cfg trl' valset vl' es' st'))) = val_traces w"
      if "dataset cfg = ''synth-text'' \<longrightarrow> \<not> truthy valset" "val_traces (t_world st') = val_traces w"
      for trl' valset vl' es' st'
      using that assms by (simp add: epoch_loop_no_valset train_epochs_val)
  qed
  moreover have "epoch_loop env cfg trl None vl es st = train_epochs env cfg trl es st"
    by (rule epoch_loop_no_valset) (simp add: truthy_def)
  ultimately show ?thesis
    using main_synth_locals [OF assms, of env w] by simp
qed

theorem C4_synth_text_never_validates_witness:
  "l_valset (fst (reached (main ex_env synth_cfg ex_world))) = Some None
   \<and> l_val_loader (fst (reached (main ex_env synth_cfg ex_world))) = None
   \<and> val_traces (snd (reached (main ex_env synth_cfg ex_world))) = ([], [])"
proof -
  have "dataset synth_cfg = ''synth-text''" by (simp add: synth_cfg_def)
  from C4_synth_text_never_validates [OF this, of ex_env ex_world]
  show ?thesis by (simp add: val_traces_def ex_world_def script_start_def)
qed

text \<open>The sum and the count after a sequence of updates.\<close>

lemma foldl_update_sum:
  "meter_sum (foldl update m vs) = meter_sum m + sum_list vs"
  by (induction vs arbitrary: m) (simp_all add: update_def)

lemma foldl_update_count:
  "meter_count (foldl update m vs) = meter_count m + length vs"
  by (induction vs arbitrary: m) (simp_all add: update_def)

text \<open>
  C5. After any non-empty sequence of \<open>update(v)\<close> calls on a fresh accumulator the
  average is the arithmetic mean of the values passed, and after exactly one update it
  is that value.
\<close>

theorem C5_average_is_mean:
  "(vs \<noteq> [] \<longrightarrow> avg (updates vs) = Some (sum_list vs / real (length vs)))
   \<and> avg (updates [v]) = Some v"
  by (simp add: avg_def updates_def foldl_update_sum foldl_update_count
      AverageMeter_def update_def)

theorem C5_average_is_mean_witness:
  "avg (updates [1, 2, 6]) = Some 3 \<and> avg (updates [7]) = Some 7"
  using C5_average_is_mean [of "[1, 2, 6]" 7] by simp

text \<open>
  C6. With \<open>save_freq = 5\<close>, in a loop over the epochs \<open>es\<close> that returns, the
  checkpoints tagged \<open>end\<close> that were written are those of the epochs of \<open>es\<close> that are
  multiples of 5, one each, the newest first, and no other: none after an epoch whose
  index is not a multiple of 5. The loop does return when the settings run through, the
  model is the bare network and the experiment directory exists.
\<close>

theorem C6_end_checkpoints_every_fifth_epoch:
  "(epoch_loop env cfg trl valset vl es st = Ok st' \<and> save_freq cfg = 5 \<longrightarrow>
      end_tagged (saved (t_world st')) =
        rev (filter (\<lambda>e. e mod 5 = 0) es) @ end_tagged (saved (t_world st)))
   \<and> (runs_through cfg \<and> \<not> data_parallel (t_model st)
      \<and> experiment_dir cfg \<in> dirs (t_world st) \<and> (truthy valset \<longrightarrow> vl \<noteq> None) \<longrightarrow>
      returned (epoch_loop env cfg trl valset vl es st))"
proof -
  have "end_tagged (saved (t_world st')) =
        rev (filter (\<lambda>e. e mod 5 = 0) es) @ end_tagged (saved (t_world st))"
    if "epoch_loop env cfg trl valset vl es st = Ok st'" "save_freq cfg = 5"
    using epoch_loop_end_tagged [OF that(1)] that(2) by simp
  moreover have "returned (epoch_loop env cfg trl valset vl es st)"
    if "runs_through cfg" "\<not> data_parallel (t_model st)"
      "experiment_dir cfg \<in> dirs (t_world st)" "truthy valset \<longrightarrow> vl \<noteq> None"
  proof -
    from that(2,3) have "ready cfg st" by (simp add: ready_def)
    from epoch_loop_returns [OF that(1) this that(4), of env trl es]
    show ?thesis by (auto simp: returned_def)
  qed
  ultimately show ?thesis by blast
qed

theorem C6_end_checkpoints_every_fifth_epoch_witness:
  "returned (epoch_loop ex_env ex_cfg (\<lambda>e. [1, 2]) None None (py_range 0 11) ex_state)
   \<and> end_tagged (saved (t_world (reached
        (epoch_loop ex_env ex_cfg (\<lambda>e. [1, 2]) None None (py_range 0 11) ex_state))))
       = [10, 5, 0]"
proof -
  let ?r = "epoch_loop ex_env ex_cfg (\<lambda>e. [1, 2]) None None (py_range 0 11) ex_state"
  have c: "save_freq ex_cfg = 5" "truthy None \<longrightarrow> None \<noteq> (None :: (int \<Rightarrow> nat list) option)"
    "\<not> data_parallel (t_model ex_state)"
    by (simp_all add: ex_cfg_def truthy_def ex_state_def)
  note t = C6_end_checkpoints_every_fifth_epoch [of ex_env ex_cfg "\<lambda>e. [1, 2]" None None
      "py_range 0 11" ex_state "reached ?r"]
  from t ex_runs ex_dir c have r: "returned ?r" by blast
  then have "?r = Ok (reached ?r)" by (cases ?r) (simp_all add: returned_def)
  with t c have "end_tagged (saved (t_world (reached ?r))) =
        rev (filter (\<lambda>e. e mod 5 = 0) (py_range 0 11)) @ end_tagged (saved (t_world ex_state))"
    by blast
  with r show ?thesis
    by (simp add: ex_state_def ex_world_def script_start_def py_range_def upt_rec)
qed

text \<open>
  C7. In a call of \<open>train\<close> that returns, over exactly 4 batches and with
  \<open>display_freq = 2\<close>, exactly two progress lines are printed, for the iterations 0 and
  2. The call does return when the settings run through, the model is the bare network
  and the experiment directory exists.
\<close>

theorem C7_two_progress_lines:
  "(train env cfg train_loader epoch st = Ok st' \<and> length (train_loader epoch) = 4
      \<and> display_freq cfg = 2 \<longrightarrow>
      progress_iters (console (t_world st')) = progress_iters (console (t_world st)) @ [0, 2])
   \<and> (runs_through cfg \<and> \<not> data_parallel (t_model st)
      \<and> experiment_dir cfg \<in> dirs (t_world st) \<longrightarrow>
      returned (train env cfg train_loader epoch st))"
proof -
  have "progress_iters (console (t_world st')) = progress_iters (console (t_world st)) @ [0, 2]"
    if "train env cfg train_loader epoch st = Ok st'" "length (train_loader epoch) = 4"
      "display_freq cfg = 2"
    using train_emits(1) [OF that(1)] that(2,3) by (simp add: upt_rec)
  moreover have "returned (train env cfg train_loader epoch st)"
    if "runs_through cfg" "\<not> data_parallel (t_model st)"
      "experiment_dir cfg \<in> dirs (t_world st)"
  proof -
    from that(2,3) have "ready cfg st" by (simp add: ready_def)
    from train_returns [OF that(1) this, of env train_loader epoch]
    show ?thesis by (auto simp: returned_def)
  qed
  ultimately show ?thesis by blast
qed

theorem C7_two_progress_lines_witness:
  "returned (train ex_env ex_cfg (\<lambda>e. [1, 2, 3, 4]) 0 ex_state)
   \<and> progress_iters (console (t_world (reached
        (train ex_env ex_cfg (\<lambda>e. [1, 2, 3, 4]) 0 ex_state)))) = [0, 2]"
proof -
  let ?r = "train ex_env ex_cfg (\<lambda>e. [1, 2, 3, 4]) 0 ex_state"
  have c: "length ((\<lambda>e::int. [1, 2, 3, 4::nat]) 0) = 4" "display_freq ex_cfg = 2"
    "\<not> data_parallel (t_model ex_state)"
    by (simp_all add: ex_cfg_def ex_state_def)
  note t = C7_two_progress_lines [of ex_env ex_cfg "\<lambda>e. [1, 2, 3, 4]" 0 ex_state "reached ?r"]
  from t ex_runs ex_dir c have r: "returned ?r" by blast
  then have "?r = Ok (reached ?r)" by (cases ?r) (simp_all add: returned_def)
  with t c have "progress_iters (console (t_world (reached ?r))) =
      progress_iters (console (t_world ex_state)) @ [0, 2]"
    by blast
  with r show ?thesis
    by (simp add: ex_state_def ex_world_def script_start_def)
qed

text \<open>What an iteration that returns adds to the files.\<close>

lemma train_body_six_files:
  assumes "train_body env cfg epoch n i b ls = Ok ls'"
  shows "int i mod display_freq cfg = 0 \<longrightarrow>
      (\<forall>nv \<in> set (log_values (loss_of env b (snd ls))).
          files (t_world (snd ls')) (log_path cfg (fst nv))
            = files (t_world (snd ls)) (log_path cfg (fst nv))
                @ [log_record env epoch (show_nat i) (snd nv)])
      \<and> (\<forall>p. p \<notin> log_paths cfg \<longrightarrow> files (t_world (snd ls')) p = files (t_world (snd ls)) p)"
    and "int i mod display_freq cfg \<noteq> 0 \<longrightarrow> files (t_world (snd ls')) = files (t_world (snd ls))"
  using train_body_files(1) [OF assms]
  by (auto simp: new_records_of_term new_records_elsewhere)

lemma validation_body_six_files:
  assumes "validation_body env cfg epoch i b ms = Ok ms'"
  shows "int i mod display_freq cfg = 0 \<longrightarrow>
      (\<forall>nv \<in> set (log_values (loss_of env b (snd ms))).
          files (t_world (snd ms')) (log_path cfg (fst nv))
            = files (t_world (snd ms)) (log_path cfg (fst nv))
                @ [log_record env epoch ''validation'' (snd nv)])
      \<and> (\<forall>p. p \<notin> log_paths cfg \<longrightarrow> files (t_world (snd ms')) p = files (t_world (snd ms)) p)"
    and "int i mod display_freq cfg \<noteq> 0 \<longrightarrow> files (t_world (snd ms')) = files (t_world (snd ms))"
  using validation_body_files(1) [OF assms]
  by (auto simp: new_records_of_term new_records_elsewhere)

text \<open>
  C8. An iteration of the training loop that returns, at an index \<open>i\<close> that
  \<open>display_freq\<close> divides, adds to each of the six per-term text logs exactly one record,
  \<open>epoch\<close>, \<open>_\<close>, \<open>i\<close>, \<open>_\<close>, the file's loss term formatted by \<open>'{:.4f}'\<close>, and a newline,
  and leaves every other file as it was; at any other index it leaves all files as they
  were. The same holds of an iteration of the validation loop, with the marker
  \<open>validation\<close> in place of the iteration index. So a call of \<open>train\<close> or of \<open>validation\<close>
  that returns has added to every file the records of its iterations, in their order.
  In the state in which \<open>train\<close>, \<open>validation\<close> or a whole run of \<open>main\<close> ends
  (returning or raising), every file is the file it was, followed by new records of that
  form, and only the six logs have new records. Such a record is a single line when the
  float formatter prints no newline.
\<close>

theorem C8_text_logs_are_appended_records:
  fixes env :: "('b, 'p, 'o) env"
  shows "(train_body env cfg epoch n i b ls = Ok ls' \<longrightarrow>
      (int i mod display_freq cfg = 0 \<longrightarrow>
         (\<forall>nv \<in> set (log_values (loss_of env b (snd ls))).
             files (t_world (snd ls')) (log_path cfg (fst nv))
               = files (t_world (snd ls)) (log_path cfg (fst nv))
                   @ [log_record env epoch (show_nat i) (snd nv)])
         \<and> (\<forall>p. p \<notin> log_paths cfg \<longrightarrow>
               files (t_world (snd ls')) p = files (t_world (snd ls)) p))
      \<and> (int i mod display_freq cfg \<noteq> 0 \<longrightarrow>
           files (t_world (snd ls')) = files (t_world (snd ls))))
   \<and> (validation_body env cfg epoch i b ms = Ok ms' \<longrightarrow>
      (int i mod display_freq cfg = 0 \<longrightarrow>
         (\<forall>nv \<in> set (log_values (loss_of env b (snd ms))).
             files (t_world (snd ms')) (log_path cfg (fst nv))
               = files (t_world (snd ms)) (log_path cfg (fst nv))
                   @ [log_record env epoch ''validation'' (snd nv)])
         \<and> (\<forall>p. p \<notin> log_paths cfg \<longrightarrow>
               files (t_world (snd ms')) p = files (t_world (snd ms)) p))
      \<and> (int i mod display_freq cfg \<noteq> 0 \<longrightarrow>
           files (t_world (snd ms')) = files (t_world (snd ms))))
   \<and> (train env cfg train_loader epoch st = Ok st' \<longrightarrow>
      (\<forall>p. files (t_world st') p
             = files (t_world st) p
                 @ train_records env cfg epoch 0 (train_loader epoch) (epoch_start epoch st) p))
   \<and> (validation env cfg valid_loader epoch st = Ok st'' \<longrightarrow>
      (\<forall>p. files (t_world st'') p
             = files (t_world st) p
                 @ validation_records env cfg epoch 0 (valid_loader epoch)
                     (st\<lparr>t_model := (t_model st)\<lparr>training := False\<rparr>\<rparr>) p))
   \<and> (\<forall>nv \<in> set (log_values l).
         new_records env cfg epoch mid l (log_path cfg (fst nv))
           = [log_record env epoch mid (snd nv)])
   \<and> (\<forall>p. p \<notin> log_paths cfg \<longrightarrow> new_records env cfg epoch mid l p = [])
   \<and> appends (log_paths cfg) (training_record env epoch) (files (t_world st))
     (files (t_world (reached (train env cfg train_loader epoch st))))
   \<and> appends (log_paths cfg) (validation_record env epoch) (files (t_world st))
     (files (t_world (reached (validation env cfg valid_loader epoch st))))
   \<and> appends (log_paths cfg) (log_record_of env) (files w)
     (files (snd (reached (main env cfg w))))
   \<and> ((\<forall>v. CHR 0x0A \<notin> set (fmt4f env v)) \<and> log_record_of env r \<longrightarrow> single_line r)"
proof -
  have a: "(int i mod display_freq cfg = 0 \<longrightarrow>
         (\<forall>nv \<in> set (log_values (loss_of env b (snd ls))).
             files (t_world (snd ls')) (log_path cfg (fst nv))
               = files (t_world (snd ls)) (log_path cfg (fst nv))
                   @ [log_record env epoch (show_nat i) (snd nv)])
         \<and> (\<forall>p. p \<notin> log_paths cfg \<longrightarrow>
               files (t_world (snd ls')) p = files (t_world (snd ls)) p))
      \<and> (int i mod display_freq cfg \<noteq> 0 \<longrightarrow>
           files (t_world (snd ls')) = files (t_world (snd ls)))"
    if "train_body env cfg epoch n i b ls = Ok ls'"
    using train_body_six_files [OF that] by (rule conjI)
  have b: "(int i mod display_freq cfg = 0 \<longrightarrow>
         (\<forall>nv \<in> set (log_values (loss_of env b (snd ms))).
             files (t_world (snd ms')) (log_path cfg (fst nv))
               = files (t_world (snd ms)) (log_path cfg (fst nv))
                   @ [log_record env epoch ''validation'' (snd nv)])
         \<and> (\<forall>p. p \<notin> log_paths cfg \<longrightarrow>
               files (t_world (snd ms')) p = files (t_world (snd ms)) p))
      \<and> (int i mod display_freq cfg \<noteq> 0 \<longrightarrow>
           files (t_world (snd ms')) = files (t_world (snd ms)))"
    if "validation_body env cfg epoch i b ms = Ok ms'"
    using validation_body_six_files [OF that] by (rule conjI)
  have c: "\<forall>p. files (t_world st') p
             = files (t_world st) p
                 @ train_records env cfg epoch 0 (train_loader epoch) (epoch_start epoch st) p"
    if "train env cfg train_loader epoch st = Ok st'"
    using train_files [OF that] by simp
  have d: "\<forall>p. files (t_world st'') p
             = files (t_world st) p
                 @ validation_records env cfg epoch 0 (valid_loader epoch)
                     (st\<lparr>t_model := (t_model st)\<lparr>training := False\<rparr>\<rparr>) p"
    if "validation env cfg valid_loader epoch st = Ok st''"
    using validation_files [OF that] by simp
  have e: "\<forall>nv \<in> set (log_values l).
         new_records env cfg epoch mid l (log_path cfg (fst nv))
           = [log_record env epoch mid (snd nv)]"
    by (simp add: new_records_of_term)
  have f: "\<forall>p. p \<notin> log_paths cfg \<longrightarrow> new_records env cfg epoch mid l p = []"
    by (simp add: new_records_elsewhere)
  note g = train_appends [of cfg env epoch st train_loader]
  note h = validation_appends [of cfg env epoch st valid_loader]
  note k = main_appends [of cfg env w]
  note s = log_record_of_single_line [of env r]
  show ?thesis
    using a b c d e f g h k s by (intro conjI impI) blast+
qed

text \<open>A call of \<open>train\<close> for epoch 3 over the batches 1, 2, 3, 4, whose losses are 1, 2,
  3, 4 in the first term, with \<open>display_freq = 2\<close>, and a call of \<open>validation\<close> over the
  batch 5, on empty files.\<close>

theorem C8_text_logs_are_appended_records_witness:
  "returned (train ex_env ex_cfg (\<lambda>e. [1, 2, 3, 4]) 3 ex_state)
   \<and> files (t_world (reached (train ex_env ex_cfg (\<lambda>e. [1, 2, 3, 4]) 3 ex_state)))
       ''save/exp/tr_loss_result.txt''
       = [''3_0_1.0000'' @ [CHR 0x0A], ''3_2_3.0000'' @ [CHR 0x0A]]
   \<and> files (t_world (reached (train ex_env ex_cfg (\<lambda>e. [1, 2, 3, 4]) 3 ex_state)))
       ''save/exp/sin_result.txt''
       = [''3_0_0.0000'' @ [CHR 0x0A], ''3_2_0.0000'' @ [CHR 0x0A]]
   \<and> files (t_world (reached (train ex_env ex_cfg (\<lambda>e. [1, 2, 3, 4]) 3 ex_state)))
       ''save/exp/loss_result.txt''
       = [''3_0_1.0000'' @ [CHR 0x0A], ''3_2_3.0000'' @ [CHR 0x0A]]
   \<and> files (t_world (reached (train ex_env ex_cfg (\<lambda>e. [1, 2, 3, 4]) 3 ex_state)))
       ''save/exp/other.txt'' = []
   \<and> returned (validation ex_env ex_cfg (\<lambda>e. [5]) 3 ex_state)
   \<and> files (t_world (reached (validation ex_env ex_cfg (\<lambda>e. [5]) 3 ex_state)))
       ''save/exp/tr_loss_result.txt''
       = [''3_validation_5.0000'' @ [CHR 0x0A]]
   \<and> appends (log_paths ex_cfg) (log_record_of ex_env) (files ex_world)
       (files (snd (reached (main ex_env ex_cfg ex_world))))
   \<and> single_line (log_record ex_env 3 (show_nat 2) 3)"
proof -
  let ?t = "train ex_env ex_cfg (\<lambda>e. [1, 2, 3, 4]) 3 ex_state"
  let ?v = "validation ex_env ex_cfg (\<lambda>e. [5]) 3 ex_state"
  have n: "CHR 0x0A \<notin> set (fmt4f ex_env v)" for v
    by (simp add: ex_env_def show_int_no_newline)
  have l: "log_record_of ex_env (log_record ex_env 3 (show_nat 2) 3)"
    unfolding log_record_of_def training_record_def by blast
  from train_returns [OF ex_runs ex_ready, of ex_env "\<lambda>e. [1, 2, 3, 4]" 3]
  obtain st' where t: "?t = Ok st'" by blast
  from validation_returns [OF ex_runs ex_ready, of ex_env "\<lambda>e. [5]" 3]
  obtain st'' where v: "?v = Ok st''" by blast
  note c = C8_text_logs_are_appended_records [where env = ex_env and cfg = ex_cfg
      and epoch = 3 and st = ex_state and train_loader = "\<lambda>e. [1, 2, 3, 4]"
      and valid_loader = "\<lambda>e. [5]" and st' = st' and st'' = st'' and w = ex_world
      and r = "log_record ex_env 3 (show_nat 2) 3"]
  from c t have ft: "files (t_world st') p
      = files (t_world ex_state) p
          @ train_records ex_env ex_cfg 3 0 [1, 2, 3, 4] (epoch_start 3 ex_state) p" for p
    by blast
  from c v have fv: "files (t_world st'') p
      = files (t_world ex_state) p
          @ validation_records ex_env ex_cfg 3 0 [5]
              (ex_state\<lparr>t_model := (t_model ex_state)\<lparr>training := False\<rparr>\<rparr>) p" for p
    by blast
  from c have m: "appends (log_paths ex_cfg) (log_record_of ex_env) (files ex_world)
       (files (snd (reached (main ex_env ex_cfg ex_world))))"
    by blast
  from c n l have sl: "single_line (log_record ex_env 3 (show_nat 2) 3)"
    by blast
  note ev = new_records_def log_values_def log_path_def experiment_dir_def path_join_def
    ex_cfg_def loss_of_def optimise_def ex_env_def ex_state_def epoch_start_def log_record_def
    show_int_def show_nat.simps digit_char_def total_def Let_def ex_world_def script_start_def
  have 1: "files (t_world st') ''save/exp/tr_loss_result.txt''
       = [''3_0_1.0000'' @ [CHR 0x0A], ''3_2_3.0000'' @ [CHR 0x0A]]"
    unfolding ft by (simp add: ev)
  have 2: "files (t_world st') ''save/exp/sin_result.txt''
       = [''3_0_0.0000'' @ [CHR 0x0A], ''3_2_0.0000'' @ [CHR 0x0A]]"
    unfolding ft by (simp add: ev)
  have 3: "files (t_world st') ''save/exp/loss_result.txt''
       = [''3_0_1.0000'' @ [CHR 0x0A], ''3_2_3.0000'' @ [CHR 0x0A]]"
    unfolding ft by (simp add: ev)
  have 4: "files (t_world st') ''save/exp/other.txt'' = []"
    unfolding ft by (simp add: ev)
  have 5: "files (t_world st'') ''save/exp/tr_loss_result.txt''
       = [''3_validation_5.0000'' @ [CHR 0x0A]]"
    unfolding fv by (simp add: ev)
  from t v 1 2 3 4 5 m sl show ?thesis by (simp add: returned_def)
qed

text \<open>
  C9. Every iteration of the training loop adds exactly one to the global step counter,
  in the state it reaches; no epoch resets it: after a loop over the epochs \<open>es\<close> that
  returns, the counter has grown by the number of batches of all these epochs; and in
  the state in which a run of \<open>main\<close> from the start of the script ends, the steps of the
  scalar pushes tagged \<open>train\<close> are strictly increasing, in the order of the calls.
\<close>

theorem C9_global_step_counter:
  fixes env :: "('b, 'p, 'o) env"
  shows "train_step (t_world (snd (reached (train_body env cfg epoch n i b ls))))
     = train_step (t_world (snd ls)) + 1
   \<and> (epoch_loop env cfg trl valset vl es st = Ok st' \<longrightarrow>
        train_step (t_world st')
          = train_step (t_world st) + sum_list (map (\<lambda>e. length (trl e)) es))
   \<and> sorted_wrt (<) (steps_tagged ''train''
        (logged (snd (reached (main env cfg (script_start fs ds cks))))))"
proof -
  have "steps_upto (snd (reached (main env cfg (script_start fs ds cks))))"
  proof (rule main_invariant [where Q = steps_upto])
    show "steps_upto (script_start fs ds cks)"
      by (simp add: steps_upto_def script_start_def)
    show "steps_upto (print l w)" if "steps_upto w" for l and w :: "('p, 'o) world"
      using that by (simp add: steps_upto_def)
    show "steps_upto (w\<lparr>global_lr := r\<rparr>)" if "steps_upto w" for r and w :: "('p, 'o) world"
      using that by (simp add: steps_upto_def)
    show "steps_upto (t_world (reached (epoch_loop env cfg trl' valset' vl' es' s)))"
      if "steps_upto (t_world s)" for trl' valset' vl' es' s
      using that by (rule epoch_loop_steps)
  qed
  then have "sorted_wrt (<) (steps_tagged ''train''
        (logged (snd (reached (main env cfg (script_start fs ds cks))))))"
    by (simp add: steps_upto_def)
  with train_body_reached [of env cfg epoch n i b ls]
    epoch_loop_count [of env cfg trl valset vl es st st']
  show ?thesis by simp
qed

text \<open>Two epochs of four batches each, from the counter 0, with the experiment
  directory on disk.\<close>

theorem C9_global_step_counter_witness:
  "returned (epoch_loop ex_env ex_cfg (\<lambda>e. [1, 2, 3, 4]) None None [0, 1] ex_state)
   \<and> train_step (t_world ex_state) = 0
   \<and> train_step (t_world (reached
        (epoch_loop ex_env ex_cfg (\<lambda>e. [1, 2, 3, 4]) None None [0, 1] ex_state))) = 8
   \<and> sorted_wrt (<) (steps_tagged ''train''
        (logged (snd (reached (main ex_env ex_cfg ex_world)))))"
proof -
  from epoch_loop_returns [OF ex_runs ex_ready, where valset = None and vl = None
      and env = ex_env and trl = "\<lambda>e. [1, 2, 3, 4]" and es = "[0, 1]"]
  obtain st' where ok:
    "epoch_loop ex_env ex_cfg (\<lambda>e. [1, 2, 3, 4]) None None [0, 1] ex_state = Ok st'"
    by (auto simp: truthy_def)
  from C9_global_step_counter [of ex_env ex_cfg 0 0 0 0 "(AverageMeter, ex_state)"
      "\<lambda>e. [1, 2, 3, 4]" None None "[0, 1]" ex_state st' "\<lambda>p. []" "{''save/exp''}" "[]"] ok
  show ?thesis
    by (simp add: returned_def ex_state_def ex_world_def script_start_def)
qed

text \<open>
  C10. When the configured dataset name is neither \<open>total-text\<close> nor \<open>synth-text\<close>,
  \<open>main\<close> raises the unbound-variable error for \<open>trainset\<close>, with every local still
  unbound (no dataset, loader, logger, model, loss, optimizer or scheduler) and the world
  as it was: nothing printed, no step counted.
\<close>

theorem C10_unknown_dataset_aborts:
  assumes "dataset cfg \<noteq> ''total-text''" and "dataset cfg \<noteq> ''synth-text''"
  shows "main env cfg w = Raised (UnboundLocalError ''trainset'') (unbound, w)"
  using assms by (simp add: main_def select_dataset_def Let_def unbound_def)

theorem C10_unknown_dataset_aborts_witness:
  "main ex_env other_cfg ex_world = Raised (UnboundLocalError ''trainset'') (unbound, ex_world)
   \<and> l_model (unbound :: (nat, int, unit) locals) = None
   \<and> l_optimizer (unbound :: (nat, int, unit) locals) = None
   \<and> l_criterion (unbound :: (nat, int, unit) locals) = None
   \<and> train_step ex_world = 0"
  using C10_unknown_dataset_aborts [of other_cfg ex_env ex_world]
  by (simp add: other_cfg_def ex_cfg_def unbound_def ex_world_def script_start_def)

end
